(* ===== verification/Muntjac_Prelude.thy ===== *)
theory Muntjac_Prelude
  imports Main "HOL-Library.Word"
begin

unbundle bit_operations_syntax

text \<open>
  Shared vocabulary of the development: the fixed-width integers of the C++ code, the
  ways an operation can fail, the program type that threads a state through operations
  that may throw, and the byte encodings of machine words.

  A C++ operation that works on objects held by reference is a function of type
  \<open>('s, 'a) prog\<close>: it takes the state and returns a result together with the state it
  leaves behind. The state is returned on the error paths too, because a C++ exception
  does not undo the assignments made before it was thrown.
\<close>

section \<open>Machine integers\<close>

type_synonym u8 = "8 word"
type_synonym u16 = "16 word"
type_synonym u32 = "32 word"
type_synonym u64 = "64 word"
type_synonym MemoryAddress = u64

section \<open>Failures\<close>

text \<open>
  \<open>exn\<close> collects the exceptions thrown by the sources; \<open>failure\<close> adds the ways in which
  the process itself stops: \<open>Exit\<close> for a call of \<open>exit\<close>, \<open>Assertion\<close> for a failed
  \<open>assert\<close>, and \<open>Undefined\<close> for an operation whose behaviour the language leaves
  undefined, such as a \<open>memcpy\<close> past the end of a buffer, and \<open>Unbounded\<close> for a loop
  that has not ended within the number of rounds the model allows it.
\<close>

datatype exn =
    AccessFault MemoryAddress string
  | AlignmentFault MemoryAddress
  | PageFault MemoryAddress string
  | InvalidArgumentException string int
  | RuntimeError string
  | OutOfRange string
  | NoAvailableIDException

datatype failure = Throw exn | Exit int | Assertion | Undefined | Unbounded

section \<open>State-passing programs with failures\<close>

type_synonym ('s, 'a) prog = "'s \<Rightarrow> (failure + 'a) \<times> 's"

definition ret :: "'a \<Rightarrow> ('s, 'a) prog" where
  "ret x = (\<lambda>s. (Inr x, s))"

definition fail :: "failure \<Rightarrow> ('s, 'a) prog" where
  "fail e = (\<lambda>s. (Inl e, s))"

definition bindM :: "('s, 'a) prog \<Rightarrow> ('a \<Rightarrow> ('s, 'b) prog) \<Rightarrow> ('s, 'b) prog" where
  "bindM m k = (\<lambda>s. case m s of (Inl e, s') \<Rightarrow> (Inl e, s') | (Inr x, s') \<Rightarrow> k x s')"

definition thenM :: "('s, 'a) prog \<Rightarrow> ('s, 'b) prog \<Rightarrow> ('s, 'b) prog" where
  "thenM m n = bindM m (\<lambda>_. n)"

definition gets :: "('s \<Rightarrow> 'a) \<Rightarrow> ('s, 'a) prog" where
  "gets f = (\<lambda>s. (Inr (f s), s))"

definition modify :: "('s \<Rightarrow> 's) \<Rightarrow> ('s, unit) prog" where
  "modify f = (\<lambda>s. (Inr (), f s))"

definition assertM :: "bool \<Rightarrow> ('s, unit) prog" where
  "assertM b = (if b then ret () else fail Assertion)"

text \<open>Run a program on a component of a larger state.\<close>

definition zoom ::
  "('t \<Rightarrow> 's) \<Rightarrow> ('s \<Rightarrow> 't \<Rightarrow> 't) \<Rightarrow> ('s, 'a) prog \<Rightarrow> ('t, 'a) prog" where
  "zoom g p m = (\<lambda>t. case m (g t) of (r, s') \<Rightarrow> (r, p s' t))"

text \<open>The body of a \<open>try\<close> block, with its outcome as a value, and an outcome as a program.\<close>

definition tryM :: "('s, 'a) prog \<Rightarrow> ('s, failure + 'a) prog" where
  "tryM m = (\<lambda>s. case m s of (r, s') \<Rightarrow> (Inr r, s'))"

definition of_sum :: "failure + 'a \<Rightarrow> ('s, 'a) prog" where
  "of_sum r = (\<lambda>s. (r, s))"

named_theorems prog_simps \<open>unfolding equations of the program combinators\<close>

lemma ret_apply [prog_simps]: "ret x s = (Inr x, s)"
  by (simp add: ret_def)

lemma fail_apply [prog_simps]: "fail e s = (Inl e, s)"
  by (simp add: fail_def)

lemma gets_apply [prog_simps]: "gets f s = (Inr (f s), s)"
  by (simp add: gets_def)

lemma modify_apply [prog_simps]: "modify f s = (Inr (), f s)"
  by (simp add: modify_def)

lemma bindM_apply [prog_simps]:
  "bindM m k s = (case m s of (r, s') \<Rightarrow> case r of Inl e \<Rightarrow> (Inl e, s') | Inr x \<Rightarrow> k x s')"
  by (simp add: bindM_def split: prod.splits sum.splits)

lemma thenM_apply [prog_simps]:
  "thenM m n s = (case m s of (r, s') \<Rightarrow> case r of Inl e \<Rightarrow> (Inl e, s') | Inr x \<Rightarrow> n s')"
  by (simp add: thenM_def bindM_apply)

lemma assertM_apply [prog_simps]:
  "assertM b s = (if b then (Inr (), s) else (Inl Assertion, s))"
  by (simp add: assertM_def prog_simps)

lemma zoom_apply [prog_simps]:
  "zoom g p m t = (case m (g t) of (r, s') \<Rightarrow> (r, p s' t))"
  by (simp add: zoom_def)

lemma tryM_apply [prog_simps]: "tryM m s = (case m s of (r, s') \<Rightarrow> (Inr r, s'))"
  by (simp add: tryM_def)

lemma of_sum_apply [prog_simps]: "of_sum r s = (r, s)"
  by (simp add: of_sum_def)

lemma bindM_Inr:
  "bindM m k s = (Inr y, t) \<longleftrightarrow> (\<exists>x s'. m s = (Inr x, s') \<and> k x s' = (Inr y, t))"
  by (auto simp: bindM_apply split: prod.splits sum.splits)

lemma bindM_eval: "m s = (Inr x, s') \<Longrightarrow> bindM m k s = k x s'"
  and bindM_failed: "m s = (Inl e, s') \<Longrightarrow> bindM m k s = (Inl e, s')"
  by (simp_all add: bindM_apply)

lemma bindM_assoc: "bindM (bindM m f) g = bindM m (\<lambda>x. bindM (f x) g)"
  by (rule ext) (simp add: bindM_apply split: prod.split sum.split)

text \<open>
  A program with a loop that need not end has type \<open>('s, 'a) loop\<close>: \<open>None\<close> says that it runs
  forever. Programs that end are lifted into this type, and \<open>bind_loop\<close> composes.
\<close>

type_synonym ('s, 'a) loop = "'s \<Rightarrow> ((failure + 'a) \<times> 's) option"

definition ending :: "('s, 'a) prog \<Rightarrow> ('s, 'a) loop" where
  "ending m = (\<lambda>s. Some (m s))"

definition bind_loop :: "('s, 'a) loop \<Rightarrow> ('a \<Rightarrow> ('s, 'b) loop) \<Rightarrow> ('s, 'b) loop" where
  "bind_loop m k = (\<lambda>s. case m s of None \<Rightarrow> None
     | Some (r, s') \<Rightarrow> (case r of Inl e \<Rightarrow> Some (Inl e, s') | Inr x \<Rightarrow> k x s'))"

lemma ending_apply [prog_simps]: "ending m s = Some (m s)"
  by (simp add: ending_def)

lemma bind_loop_apply [prog_simps]:
  "bind_loop m k s = (case m s of None \<Rightarrow> None
     | Some (r, s') \<Rightarrow> (case r of Inl e \<Rightarrow> Some (Inl e, s') | Inr x \<Rightarrow> k x s'))"
  by (simp add: bind_loop_def)

section \<open>Frames\<close>

text \<open>Programs that leave a view \<open>f\<close> of the state as it was, whether they return or fail.\<close>

definition keeps :: "('s \<Rightarrow> 'v) \<Rightarrow> ('s, 'a) prog \<Rightarrow> bool" where
  "keeps f m \<longleftrightarrow> (\<forall>s. f (snd (m s)) = f s)"

named_theorems keeps_intros \<open>programs and what they leave alone\<close>

lemma keepsD: "keeps f m \<Longrightarrow> m s = (r, s') \<Longrightarrow> f s' = f s"
  unfolding keeps_def by (metis snd_conv)

lemma keeps_basic [keeps_intros]:
  "keeps f (ret x)" "keeps f (fail e)" "keeps f (gets g)" "keeps f (of_sum y)" "keeps f (assertM b)"
  by (simp_all add: keeps_def prog_simps)

lemma keeps_modify [keeps_intros]: "(\<And>s. f (g s) = f s) \<Longrightarrow> keeps f (modify g)"
  by (simp add: keeps_def modify_apply)

lemma keeps_zoom [keeps_intros]: "(\<And>x s. f (p x s) = f s) \<Longrightarrow> keeps f (zoom g p m)"
  by (simp add: keeps_def zoom_apply split: prod.split)

lemma keeps_bindM [keeps_intros]: "keeps f m \<Longrightarrow> (\<And>x. keeps f (k x)) \<Longrightarrow> keeps f (bindM m k)"
  unfolding keeps_def by (auto simp: bindM_apply split: prod.splits sum.splits) (metis snd_conv)+

lemma keeps_if [keeps_intros]:
  "(b \<Longrightarrow> keeps f m) \<Longrightarrow> (\<not> b \<Longrightarrow> keeps f n) \<Longrightarrow> keeps f (if b then m else n)"
  by simp

text \<open>Programs that keep an invariant, whether they return or fail.\<close>

definition preserves :: "('s \<Rightarrow> bool) \<Rightarrow> ('s, 'a) prog \<Rightarrow> bool" where
  "preserves P m \<longleftrightarrow> (\<forall>s. P s \<longrightarrow> P (snd (m s)))"

named_theorems preserves_intros \<open>programs and the invariants they keep\<close>

lemma preservesD: "preserves P m \<Longrightarrow> m s = (r, s') \<Longrightarrow> P s \<Longrightarrow> P s'"
  unfolding preserves_def by (metis snd_conv)

lemma preserves_basic [preserves_intros]:
  "preserves P (ret x)" "preserves P (fail e)" "preserves P (gets g)" "preserves P (of_sum y)" "preserves P (assertM b)"
  by (simp_all add: preserves_def prog_simps)

lemma preserves_modify [preserves_intros]: "(\<And>s. P s \<Longrightarrow> P (g s)) \<Longrightarrow> preserves P (modify g)"
  by (simp add: preserves_def modify_apply)

lemma preserves_bindM [preserves_intros]: "preserves P m \<Longrightarrow> (\<And>x. preserves P (k x)) \<Longrightarrow> preserves P (bindM m k)"
  unfolding preserves_def by (fastforce simp: bindM_apply split: prod.splits sum.splits)

lemma preserves_if [preserves_intros]:
  "(b \<Longrightarrow> preserves P m) \<Longrightarrow> (\<not> b \<Longrightarrow> preserves P n) \<Longrightarrow> preserves P (if b then m else n)"
  by simp

lemma preserves_zoom: "(\<And>x s. P s \<Longrightarrow> P (p x s)) \<Longrightarrow> preserves P (zoom g p m)"
  by (simp add: preserves_def zoom_apply split: prod.split)

section \<open>Little-endian encodings\<close>

text \<open>
  The simulator reinterprets buffers through casts such as \<open>*((uint64_t*)p)\<close> on a
  little-endian host: byte \<open>i\<close> of the buffer holds bits \<open>8 i\<close> to \<open>8 i + 7\<close>.
\<close>

definition le_bytes :: "nat \<Rightarrow> 'a::len word \<Rightarrow> u8 list" where
  "le_bytes n w = map (\<lambda>i. ucast (drop_bit (8 * i) w)) [0..<n]"

fun le_word :: "u8 list \<Rightarrow> 'a::len word" where
  "le_word [] = 0"
| "le_word (b # bs) = ucast b OR push_bit 8 (le_word bs)"

lemma length_le_bytes [simp]: "length (le_bytes n w) = n"
  by (simp add: le_bytes_def)

lemma nth_le_bytes: "i < n \<Longrightarrow> le_bytes n w ! i = ucast (drop_bit (8 * i) w)"
  by (simp add: le_bytes_def)

lemma bit_le_word:
  "bit (le_word bs :: 'a::len word) n \<longleftrightarrow>
     n < LENGTH('a) \<and> n div 8 < length bs \<and> bit (bs ! (n div 8)) (n mod 8)"
proof (induction bs arbitrary: n)
  case Nil
  then show ?case by simp
next
  case (Cons b bs)
  show ?case
  proof (cases "n < 8")
    case True
    then show ?thesis
      by (auto simp: bit_simps)
  next
    case False
    then have n: "n div 8 = Suc ((n - 8) div 8)" "n mod 8 = (n - 8) mod 8"
      by (simp_all add: le_div_geq le_mod_geq)
    from False have nb: "\<not> bit b n"
      using bit_imp_le_length [of b n] by auto
    show ?thesis
      using False nb Cons.IH [of "n - 8"] by (auto simp: bit_simps n)
  qed
qed

lemma le_word_le_bytes:
  "LENGTH('a) \<le> 8 * n \<Longrightarrow> le_word (le_bytes n w) = (w :: 'a::len word)"
proof (rule bit_word_eqI)
  fix m
  assume len: "LENGTH('a) \<le> 8 * n" and m: "m < LENGTH('a)"
  then have "m div 8 < n" by (simp add: less_mult_imp_div_less)
  then show "bit (le_word (le_bytes n w) :: 'a word) m = bit w m"
    using m by (simp add: bit_le_word nth_le_bytes bit_simps)
qed

lemma le_bytes_le_word:
  assumes "8 * length bs \<le> LENGTH('a)"
  shows "le_bytes (length bs) (le_word bs :: 'a::len word) = bs"
proof (rule nth_equalityI)
  show "length (le_bytes (length bs) (le_word bs :: 'a word)) = length bs" by simp
next
  fix i
  assume "i < length (le_bytes (length bs) (le_word bs :: 'a word))"
  then have i: "i < length bs" by simp
  have "bit (ucast (drop_bit (8 * i) (le_word bs :: 'a word)) :: u8) m = bit (bs ! i) m"
    if "m < 8" for m
    using i assms that by (auto simp: bit_simps bit_le_word)
  then have "(ucast (drop_bit (8 * i) (le_word bs :: 'a word)) :: u8) = bs ! i"
    by (intro bit_word_eqI) simp
  then show "le_bytes (length bs) (le_word bs :: 'a word) ! i = bs ! i"
    using i by (simp add: nth_le_bytes)
qed

lemma ucast_le_word:
  assumes "8 * length bs \<le> LENGTH('a)"
  shows "ucast (le_word bs :: 'a::len word) = (le_word bs :: 'b::len word)"
proof (rule bit_word_eqI)
  fix n
  assume "n < LENGTH('b)"
  moreover have "n < LENGTH('a)" if "n div 8 < length bs"
    using that assms by arith
  ultimately show "bit (ucast (le_word bs :: 'a word) :: 'b word) n = bit (le_word bs :: 'b word) n"
    by (auto simp: bit_simps bit_le_word)
qed

lemma le_bytes_ucast:
  assumes "8 * n \<le> LENGTH('a)"
  shows "le_bytes n (ucast (w :: 'b::len word) :: 'a::len word) = le_bytes n w"
proof (rule nth_equalityI)
  fix i
  assume "i < length (le_bytes n (ucast w :: 'a word))"
  then have i: "i < n" by simp
  have "(ucast (drop_bit (8 * i) (ucast w :: 'a word)) :: u8) = ucast (drop_bit (8 * i) w)"
  proof (rule bit_word_eqI)
    fix m
    assume m: "m < LENGTH(8)"
    with i assms have "m + 8 * i < LENGTH('a)" by simp
    with m show "bit (ucast (drop_bit (8 * i) (ucast w :: 'a word)) :: u8) m =
        bit (ucast (drop_bit (8 * i) w) :: u8) m"
      by (auto simp: bit_simps ac_simps dest: bit_imp_le_length)
  qed
  with i show "le_bytes n (ucast w :: 'a word) ! i = le_bytes n w ! i"
    by (simp add: nth_le_bytes)
qed simp

section \<open>Word arithmetic\<close>

lemma unat_u64_less: "unat (w :: u64) < 2 ^ 64"
  using unsigned_less [of w, where ?'a = nat] by simp

lemma unat_of_nat_u64: "n < 2 ^ 64 \<Longrightarrow> unat (of_nat n :: u64) = n"
  by (simp add: unsigned_of_nat take_bit_nat_eq_self)

lemma unat_plus_upper: "unat (a + b :: 'a::len word) \<le> unat a + unat b"
  by (simp add: unat_word_ariths)

lemma unat_plus_bounded:
  fixes a b c :: u64
  assumes "unat a + unat b \<le> unat c"
  shows "unat (a + b) = unat a + unat b"
  using assms unat_u64_less [of c] by (simp add: unat_word_ariths)

lemma unat_diff_less: "(b :: 'a::len word) \<le> a \<Longrightarrow> unat (a - b) = unat a - unat b"
  by (rule unat_sub)

end
