(* ===== verification/Simulator_Types.thy ===== *)
theory Simulator_Types
  imports Muntjac_Prelude
begin

text \<open>
  The enumerations of \<open>types.h\<close> and the exception classes of \<open>exceptions.cc\<close> of the
  Verilator flow: which cause code a fault reports for the operation that raised it.
\<close>

section \<open>Memory operations and exception causes\<close>

text \<open>
  A \<open>MemoryOperation\<close> arrives as an integer driven by the design under test and is cast to
  the enumeration; \<open>MEM_OTHER\<close> keeps the values that name no enumerator.
\<close>

datatype MemoryOperation =
    MEM_LOAD | MEM_STORE | MEM_LR | MEM_SC | MEM_AMO | MEM_FETCH | MEM_OTHER nat

fun mem_op_value :: "MemoryOperation \<Rightarrow> nat" where
  "mem_op_value MEM_LOAD = 1"
| "mem_op_value MEM_STORE = 2"
| "mem_op_value MEM_LR = 5"
| "mem_op_value MEM_SC = 6"
| "mem_op_value MEM_AMO = 7"
| "mem_op_value MEM_FETCH = 100"
| "mem_op_value (MEM_OTHER n) = n"

definition mem_op_of :: "nat \<Rightarrow> MemoryOperation" where
  "mem_op_of n =
     (if n = 1 then MEM_LOAD else if n = 2 then MEM_STORE else if n = 5 then MEM_LR
      else if n = 6 then MEM_SC else if n = 7 then MEM_AMO
      else if n = 100 then MEM_FETCH else MEM_OTHER n)"

datatype SizeExtension = SIZE_EXT_ZERO | SIZE_EXT_ONE | SIZE_EXT_SIGNED | SIZE_EXT_OTHER nat

definition size_ext_of :: "nat \<Rightarrow> SizeExtension" where
  "size_ext_of n =
     (if n = 0 then SIZE_EXT_ZERO else if n = 1 then SIZE_EXT_ONE
      else if n = 2 then SIZE_EXT_SIGNED else SIZE_EXT_OTHER n)"

datatype exc_cause_e =
    EXC_CAUSE_IRQ_SOFTWARE_S | EXC_CAUSE_IRQ_SOFTWARE_M
  | EXC_CAUSE_IRQ_TIMER_S | EXC_CAUSE_IRQ_TIMER_M
  | EXC_CAUSE_IRQ_EXTERNAL_S | EXC_CAUSE_IRQ_EXTERNAL_M
  | EXC_CAUSE_INSN_ADDR_MISA | EXC_CAUSE_INSTR_ACCESS_FAULT
  | EXC_CAUSE_ILLEGAL_INSN | EXC_CAUSE_BREAKPOINT
  | EXC_CAUSE_LOAD_MISALIGN | EXC_CAUSE_LOAD_ACCESS_FAULT
  | EXC_CAUSE_STORE_MISALIGN | EXC_CAUSE_STORE_ACCESS_FAULT
  | EXC_CAUSE_ECALL_UMODE | EXC_CAUSE_ECALL_SMODE | EXC_CAUSE_ECALL_MMODE
  | EXC_CAUSE_INSTR_PAGE_FAULT | EXC_CAUSE_LOAD_PAGE_FAULT | EXC_CAUSE_STORE_PAGE_FAULT
  | EXC_CAUSE_NONE

fun exc_cause_value :: "exc_cause_e \<Rightarrow> nat" where
  "exc_cause_value EXC_CAUSE_IRQ_SOFTWARE_S = 17"
| "exc_cause_value EXC_CAUSE_IRQ_SOFTWARE_M = 19"
| "exc_cause_value EXC_CAUSE_IRQ_TIMER_S = 21"
| "exc_cause_value EXC_CAUSE_IRQ_TIMER_M = 23"
| "exc_cause_value EXC_CAUSE_IRQ_EXTERNAL_S = 25"
| "exc_cause_value EXC_CAUSE_IRQ_EXTERNAL_M = 27"
| "exc_cause_value EXC_CAUSE_INSN_ADDR_MISA = 0"
| "exc_cause_value EXC_CAUSE_INSTR_ACCESS_FAULT = 1"
| "exc_cause_value EXC_CAUSE_ILLEGAL_INSN = 2"
| "exc_cause_value EXC_CAUSE_BREAKPOINT = 3"
| "exc_cause_value EXC_CAUSE_LOAD_MISALIGN = 4"
| "exc_cause_value EXC_CAUSE_LOAD_ACCESS_FAULT = 5"
| "exc_cause_value EXC_CAUSE_STORE_MISALIGN = 6"
| "exc_cause_value EXC_CAUSE_STORE_ACCESS_FAULT = 7"
| "exc_cause_value EXC_CAUSE_ECALL_UMODE = 8"
| "exc_cause_value EXC_CAUSE_ECALL_SMODE = 9"
| "exc_cause_value EXC_CAUSE_ECALL_MMODE = 11"
| "exc_cause_value EXC_CAUSE_INSTR_PAGE_FAULT = 12"
| "exc_cause_value EXC_CAUSE_LOAD_PAGE_FAULT = 13"
| "exc_cause_value EXC_CAUSE_STORE_PAGE_FAULT = 15"
| "exc_cause_value EXC_CAUSE_NONE = 100"

text \<open>
  The values are pairwise distinct, so the causes inherit the linear order of the
  enumeration's integers.
\<close>

lemma exc_cause_value_inject: "exc_cause_value c = exc_cause_value d \<Longrightarrow> c = d"
  by (cases c; cases d) simp_all

instantiation exc_cause_e :: linorder
begin

definition less_eq_exc_cause_e :: "exc_cause_e \<Rightarrow> exc_cause_e \<Rightarrow> bool" where
  "less_eq_exc_cause_e c d \<longleftrightarrow> exc_cause_value c \<le> exc_cause_value d"

definition less_exc_cause_e :: "exc_cause_e \<Rightarrow> exc_cause_e \<Rightarrow> bool" where
  "less_exc_cause_e c d \<longleftrightarrow> exc_cause_value c < exc_cause_value d"

instance
  by standard
    (auto simp: less_eq_exc_cause_e_def less_exc_cause_e_def dest: exc_cause_value_inject)

end

text \<open>Debug information used to track the core's progress.\<close>

record instr_trace_t =
  it_pc :: u64
  it_instr_word :: u32
  it_mode :: int
  it_gpr_written :: bool
  it_gpr :: int
  it_gpr_data :: u64
  it_csr_written :: bool
  it_csr :: int
  it_csr_data :: u64

section \<open>Exception codes\<close>

text \<open>
  Each \<open>get_exception_code\<close> member is a switch over the operation whose default branch
  is a failed assertion.
\<close>

fun AccessFault_get_exception_code :: "MemoryOperation \<Rightarrow> failure + exc_cause_e" where
  "AccessFault_get_exception_code MEM_LOAD = Inr EXC_CAUSE_LOAD_ACCESS_FAULT"
| "AccessFault_get_exception_code MEM_LR = Inr EXC_CAUSE_STORE_ACCESS_FAULT"
| "AccessFault_get_exception_code MEM_STORE = Inr EXC_CAUSE_STORE_ACCESS_FAULT"
| "AccessFault_get_exception_code MEM_SC = Inr EXC_CAUSE_STORE_ACCESS_FAULT"
| "AccessFault_get_exception_code MEM_AMO = Inr EXC_CAUSE_STORE_ACCESS_FAULT"
| "AccessFault_get_exception_code MEM_FETCH = Inr EXC_CAUSE_INSTR_ACCESS_FAULT"
| "AccessFault_get_exception_code (MEM_OTHER n) = Inl Assertion"

fun AlignmentFault_get_exception_code :: "MemoryOperation \<Rightarrow> failure + exc_cause_e" where
  "AlignmentFault_get_exception_code MEM_LOAD = Inr EXC_CAUSE_LOAD_MISALIGN"
| "AlignmentFault_get_exception_code MEM_LR = Inr EXC_CAUSE_STORE_MISALIGN"
| "AlignmentFault_get_exception_code MEM_STORE = Inr EXC_CAUSE_STORE_MISALIGN"
| "AlignmentFault_get_exception_code MEM_SC = Inr EXC_CAUSE_STORE_MISALIGN"
| "AlignmentFault_get_exception_code MEM_AMO = Inr EXC_CAUSE_STORE_MISALIGN"
| "AlignmentFault_get_exception_code MEM_FETCH = Inl Assertion"
| "AlignmentFault_get_exception_code (MEM_OTHER n) = Inl Assertion"

fun PageFault_get_exception_code :: "MemoryOperation \<Rightarrow> failure + exc_cause_e" where
  "PageFault_get_exception_code MEM_LOAD = Inr EXC_CAUSE_LOAD_PAGE_FAULT"
| "PageFault_get_exception_code MEM_LR = Inr EXC_CAUSE_STORE_PAGE_FAULT"
| "PageFault_get_exception_code MEM_STORE = Inr EXC_CAUSE_STORE_PAGE_FAULT"
| "PageFault_get_exception_code MEM_SC = Inr EXC_CAUSE_STORE_PAGE_FAULT"
| "PageFault_get_exception_code MEM_AMO = Inr EXC_CAUSE_STORE_PAGE_FAULT"
| "PageFault_get_exception_code MEM_FETCH = Inr EXC_CAUSE_INSTR_PAGE_FAULT"
| "PageFault_get_exception_code (MEM_OTHER n) = Inl Assertion"

text \<open>
  The text of an exception, as its constructor hands it to the base class, and the members of
  \<open>InvalidArgumentException\<close>. The exceptions of the standard library carry their text.
\<close>

definition AccessFault_message :: "string \<Rightarrow> string" where
  "AccessFault_message description = ''Access fault: '' @ description"

definition AlignmentFault_message :: string where
  "AlignmentFault_message = ''Alignment fault''"

definition PageFault_message :: "string \<Rightarrow> string" where
  "PageFault_message description = ''Page fault: '' @ description"

definition InvalidArgument_message :: "string \<Rightarrow> string" where
  "InvalidArgument_message argument = ''Invalid simulator argument: '' @ argument"

fun what :: "exn \<Rightarrow> string" where
  "what (AccessFault address description) = AccessFault_message description"
| "what (AlignmentFault address) = AlignmentFault_message"
| "what (PageFault address description) = PageFault_message description"
| "what (InvalidArgumentException argument position) = InvalidArgument_message argument"
| "what (RuntimeError message) = message"
| "what (OutOfRange message) = message"
| "what NoAvailableIDException = ''No TileLink IDs''"

fun get_name :: "exn \<Rightarrow> string option" where
  "get_name (InvalidArgumentException name position) = Some name"
| "get_name _ = None"

fun get_position :: "exn \<Rightarrow> int option" where
  "get_position (InvalidArgumentException name position) = Some position"
| "get_position _ = None"

lemma mem_op_of_value: "mem_op_value (mem_op_of n) = n"
  by (simp add: mem_op_of_def)

definition data_operation :: "MemoryOperation \<Rightarrow> bool" where
  "data_operation oper \<longleftrightarrow> oper \<in> {MEM_LOAD, MEM_STORE, MEM_LR, MEM_SC, MEM_AMO}"

lemma data_operation_codes:
  assumes "data_operation oper"
  shows "\<exists>c. AccessFault_get_exception_code oper = Inr c \<and> c \<noteq> EXC_CAUSE_NONE"
    and "\<exists>c. AlignmentFault_get_exception_code oper = Inr c \<and> c \<noteq> EXC_CAUSE_NONE"
    and "\<exists>c. PageFault_get_exception_code oper = Inr c \<and> c \<noteq> EXC_CAUSE_NONE"
  using assms by (auto simp: data_operation_def)

end
