(* ===== verification/Main_Memory.thy ===== *)
theory Main_Memory
  imports Simulator_Types
begin

text \<open>
  The simulated main memory of \<open>main_memory.cc\<close>: a map from page tags to one-megabyte
  buffers that are allocated on first use, byte and word accesses that may span two
  pages, and block transfers. The abstraction \<open>byte_at\<close> reads the paged store as one flat
  byte array; the locale \<open>ram\<close> states what the word accesses promise over it.
\<close>

section \<open>State\<close>

text \<open>
  A page pointer is modelled by the tag under which the page is stored, so a store
  through the pointer is an update of the map. \<open>garbage\<close> is what \<open>new char[PAGE_SIZE]\<close>
  leaves in the page that will be allocated under a tag: C++ does not initialise it. The
  field \<open>host\<close> is the state reached through the external functions \<open>is_system_call\<close>
  and \<open>system_call\<close>, which each harness defines.
\<close>

type_synonym page = "nat \<Rightarrow> u8"

record 'h main_memory =
  pages :: "MemoryAddress \<rightharpoonup> page"
  garbage :: "MemoryAddress \<Rightarrow> page"
  host :: 'h

record 'h sys_calls =
  sc_is_system_call :: "'h \<Rightarrow> MemoryAddress \<Rightarrow> u64 \<Rightarrow> bool"
  sc_system_call :: "'h \<Rightarrow> MemoryAddress \<Rightarrow> u64 \<Rightarrow> failure + 'h"

text \<open>A contiguous block of data: its target address, its size and its buffer.\<close>

record data_block =
  db_address :: MemoryAddress
  db_num_bytes :: u64
  db_data :: "u8 list"

definition new_data_block :: "MemoryAddress \<Rightarrow> u64 \<Rightarrow> u8 list \<Rightarrow> data_block" where
  [simp]: "new_data_block address num_bytes ptr = \<lparr>db_address = address, db_num_bytes = num_bytes, db_data = ptr\<rparr>"

definition LOG2_PAGE_SIZE :: nat where
  "LOG2_PAGE_SIZE = 20"

definition PAGE_SIZE :: u64 where
  "PAGE_SIZE = 2 ^ LOG2_PAGE_SIZE"

text \<open>The maximum physical memory address allowed by the Sv39 specification.\<close>

definition MAX_PHYSICAL_ADDRESS :: MemoryAddress where
  "MAX_PHYSICAL_ADDRESS = push_bit 56 1 - 1"

section \<open>Paging\<close>

definition get_tag :: "MemoryAddress \<Rightarrow> MemoryAddress" where
  "get_tag address = address AND NOT (PAGE_SIZE - 1)"

definition get_offset :: "MemoryAddress \<Rightarrow> MemoryAddress" where
  "get_offset address = address AND (PAGE_SIZE - 1)"

definition new_main_memory :: "(MemoryAddress \<Rightarrow> page) \<Rightarrow> 'h \<Rightarrow> 'h main_memory" where
  "new_main_memory g h = \<lparr>pages = Map.empty, garbage = g, host = h\<rparr>"

definition check_access :: "MemoryAddress \<Rightarrow> ('h main_memory, unit) prog" where
  "check_access address =
     (if address > MAX_PHYSICAL_ADDRESS
      then fail (Throw (AccessFault address ''Physical address exceeds Sv39 limit''))
      else ret ())"

definition allocate_new_page :: "MemoryAddress \<Rightarrow> ('h main_memory, MemoryAddress) prog" where
  "allocate_new_page address =
     (let tag = get_tag address in
      bindM (gets pages) (\<lambda>ps.
      bindM (assertM (ps tag = None)) (\<lambda>_.
      bindM (modify (\<lambda>m. m\<lparr>pages := (pages m)(tag \<mapsto> garbage m tag)\<rparr>)) (\<lambda>_.
      ret tag))))"

definition get_page :: "MemoryAddress \<Rightarrow> ('h main_memory, MemoryAddress) prog" where
  "get_page address =
     (let tag = get_tag address in
      bindM (gets pages) (\<lambda>ps.
      if ps tag = None then allocate_new_page tag else ret tag))"

section \<open>Buffer accesses\<close>

text \<open>
  \<open>memcpy\<close> between a page and a buffer of the caller. Reading or writing outside the
  \<open>PAGE_SIZE\<close> bytes of the page, or through a pointer to no page, is undefined.
\<close>

definition page_load :: "MemoryAddress \<Rightarrow> u64 \<Rightarrow> u64 \<Rightarrow> ('h main_memory, u8 list) prog" where
  "page_load p off n =
     bindM (gets pages) (\<lambda>ps. case ps p of
       None \<Rightarrow> fail Undefined
     | Some pg \<Rightarrow>
         if unat off + unat n \<le> unat PAGE_SIZE
         then ret (map (\<lambda>i. pg (unat off + i)) [0..<unat n]) else fail Undefined)"

definition page_update :: "page \<Rightarrow> nat \<Rightarrow> u8 list \<Rightarrow> page" where
  "page_update pg off bs =
     (\<lambda>i. if off \<le> i \<and> i < off + length bs then bs ! (i - off) else pg i)"

definition page_store :: "MemoryAddress \<Rightarrow> u64 \<Rightarrow> u8 list \<Rightarrow> ('h main_memory, unit) prog" where
  "page_store p off bs =
     bindM (gets pages) (\<lambda>ps. case ps p of
       None \<Rightarrow> fail Undefined
     | Some pg \<Rightarrow>
         if unat off + length bs \<le> unat PAGE_SIZE
         then modify (\<lambda>m. m\<lparr>pages := (pages m)(p \<mapsto> page_update pg (unat off) bs)\<rparr>)
         else fail Undefined)"

section \<open>Word accesses\<close>

definition read8 :: "MemoryAddress \<Rightarrow> ('h main_memory, u8) prog" where
  "read8 address =
     bindM (check_access (address + 1 - 1)) (\<lambda>_.
     bindM (get_page address) (\<lambda>page.
     bindM (page_load page (get_offset address) 1) (\<lambda>bs.
     ret (hd bs))))"

text \<open>
  \<open>read16\<close>, \<open>read32\<close> and \<open>read64\<close> have one body, written out here for a value of
  \<open>k\<close> bytes: one load where the value lies in one page, two copies where it spans two.
\<close>

definition read_value :: "u64 \<Rightarrow> MemoryAddress \<Rightarrow> ('h main_memory, 'w::len word) prog" where
  "read_value k address =
     bindM (check_access (address + k - 1)) (\<lambda>_.
     bindM (get_page address) (\<lambda>page.
     let offset = get_offset address in
     if offset \<le> PAGE_SIZE - k then
       bindM (page_load page offset k) (\<lambda>bs. ret (le_word bs))
     else
       bindM (get_page (address + PAGE_SIZE)) (\<lambda>next_page.
       bindM (page_load page offset (PAGE_SIZE - offset)) (\<lambda>lo.
       bindM (page_load next_page 0 (offset + k - PAGE_SIZE)) (\<lambda>hi.
       ret (le_word (lo @ hi)))))))"

definition read16 :: "MemoryAddress \<Rightarrow> ('h main_memory, u16) prog" where
  "read16 = read_value 2"

definition read32 :: "MemoryAddress \<Rightarrow> ('h main_memory, u32) prog" where
  "read32 = read_value 4"

definition read64 :: "MemoryAddress \<Rightarrow> ('h main_memory, u64) prog" where
  "read64 = read_value 8"

text \<open>
  Every write first offers itself to the harness as a system call; \<open>system_call_or\<close> is that
  common prologue.
\<close>

definition system_call_or ::
  "'h sys_calls \<Rightarrow> MemoryAddress \<Rightarrow> u64 \<Rightarrow> ('h main_memory, unit) prog \<Rightarrow>
     ('h main_memory, unit) prog" where
  "system_call_or env address data body =
     bindM (gets host) (\<lambda>h.
     if sc_is_system_call env h address data then
       (case sc_system_call env h address data of
          Inl e \<Rightarrow> fail e
        | Inr h' \<Rightarrow> modify (\<lambda>m. m\<lparr>host := h'\<rparr>))
     else body)"

definition write8 :: "'h sys_calls \<Rightarrow> MemoryAddress \<Rightarrow> u8 \<Rightarrow> ('h main_memory, unit) prog" where
  "write8 env address data =
     system_call_or env address (ucast data)
      (bindM (check_access (address + 1 - 1)) (\<lambda>_.
       bindM (get_page address) (\<lambda>page.
       page_store page (get_offset address) [data])))"

definition write_value ::
  "u64 \<Rightarrow> 'h sys_calls \<Rightarrow> MemoryAddress \<Rightarrow> 'w::len word \<Rightarrow> ('h main_memory, unit) prog" where
  "write_value k env address data =
     system_call_or env address (ucast data)
      (bindM (check_access (address + k - 1)) (\<lambda>_.
       bindM (get_page address) (\<lambda>page.
       let offset = get_offset address; result = le_bytes (unat k) data in
       if offset \<le> PAGE_SIZE - k then page_store page offset result
       else
         bindM (get_page (address + PAGE_SIZE)) (\<lambda>next_page.
         bindM (page_store page offset (take (unat (PAGE_SIZE - offset)) result)) (\<lambda>_.
         page_store next_page 0 (drop (unat (PAGE_SIZE - offset)) result))))))"

definition write16 :: "'h sys_calls \<Rightarrow> MemoryAddress \<Rightarrow> u16 \<Rightarrow> ('h main_memory, unit) prog" where
  "write16 = write_value 2"

definition write32 :: "'h sys_calls \<Rightarrow> MemoryAddress \<Rightarrow> u32 \<Rightarrow> ('h main_memory, unit) prog" where
  "write32 = write_value 4"

definition write64 :: "'h sys_calls \<Rightarrow> MemoryAddress \<Rightarrow> u64 \<Rightarrow> ('h main_memory, unit) prog" where
  "write64 = write_value 8"

section \<open>Block transfers\<close>

text \<open>
  The copying loop of \<open>MainMemory::read\<close>. The chunk is limited to \<open>PAGE_SIZE\<close> but not
  to what is left of the page after \<open>offset\<close>.
\<close>

definition read_chunk :: "u64 \<Rightarrow> u64 \<Rightarrow> u64" where
  "read_chunk num_bytes bytes_copied =
     (let n = num_bytes - bytes_copied in if n > PAGE_SIZE then PAGE_SIZE else n)"

lemma read_chunk_progress:
  assumes "bytes_copied < num_bytes"
  shows "unat num_bytes - unat (bytes_copied + read_chunk num_bytes bytes_copied)
           < unat num_bytes - unat bytes_copied"
proof -
  let ?c = "read_chunk num_bytes bytes_copied"
  have pos: "0 < unat ?c" and le: "unat ?c \<le> unat (num_bytes - bytes_copied)"
    using assms by (auto simp: read_chunk_def PAGE_SIZE_def LOG2_PAGE_SIZE_def Let_def
        word_less_nat_alt unat_sub less_imp_le)
  have diff: "unat (num_bytes - bytes_copied) = unat num_bytes - unat bytes_copied"
    using assms by (simp add: unat_sub less_imp_le)
  have "unat bytes_copied + unat ?c \<le> unat num_bytes"
    using le assms by (simp add: diff word_less_nat_alt)
  then have "unat (bytes_copied + ?c) = unat bytes_copied + unat ?c"
    by (rule unat_plus_bounded)
  with pos assms show ?thesis by (simp add: word_less_nat_alt)
qed

function read_loop ::
  "MemoryAddress \<Rightarrow> u64 \<Rightarrow> u64 \<Rightarrow> u8 list \<Rightarrow> ('h main_memory, u8 list) prog" where
  "read_loop address num_bytes bytes_copied data =
     (if bytes_copied < num_bytes then
        bindM (get_page (address + bytes_copied)) (\<lambda>page.
        let offset = get_offset (address + bytes_copied);
            bytes_to_copy = read_chunk num_bytes bytes_copied in
        bindM (page_load page offset bytes_to_copy) (\<lambda>bs.
        read_loop address num_bytes (bytes_copied + bytes_to_copy) (data @ bs)))
      else ret data)"
  by pat_completeness auto
termination
  by (relation "measure (\<lambda>(address, num_bytes, bytes_copied, data).
        unat num_bytes - unat bytes_copied)")
    (simp_all add: read_chunk_progress)

declare read_loop.simps [simp del]

definition MainMemory_read :: "MemoryAddress \<Rightarrow> u64 \<Rightarrow> ('h main_memory, data_block) prog" where
  "MainMemory_read address num_bytes =
     bindM (check_access (address + num_bytes - 1)) (\<lambda>_.
     bindM
      (if get_offset address + num_bytes \<le> PAGE_SIZE then
         bindM (get_page address) (\<lambda>page. page_load page (get_offset address) num_bytes)
       else read_loop address num_bytes 0 [])
      (\<lambda>data. ret (new_data_block address num_bytes data)))"

definition write_chunk :: "u64 \<Rightarrow> u64 \<Rightarrow> u64 \<Rightarrow> u64" where
  "write_chunk offset num_bytes bytes_copied =
     (let n = num_bytes - bytes_copied
      in if offset + n > PAGE_SIZE then PAGE_SIZE - offset else n)"

text \<open>The bytes \<open>memcpy\<close> takes from the caller's buffer; undefined past its end.\<close>

definition buffer_slice :: "u8 list \<Rightarrow> u64 \<Rightarrow> u64 \<Rightarrow> ('h main_memory, u8 list) prog" where
  "buffer_slice data from n =
     (if unat from + unat n \<le> length data then ret (take (unat n) (drop (unat from) data))
      else fail Undefined)"

lemma get_offset_less: "get_offset a < PAGE_SIZE"
proof -
  have "get_offset a \<le> PAGE_SIZE - 1"
    by (simp add: get_offset_def word_and_le1)
  also have "PAGE_SIZE - 1 < PAGE_SIZE"
    by (simp add: PAGE_SIZE_def LOG2_PAGE_SIZE_def)
  finally show ?thesis .
qed

lemma write_chunk_bounds:
  assumes "bytes_copied < num_bytes" "offset < PAGE_SIZE"
  shows "0 < unat (write_chunk offset num_bytes bytes_copied)"
    and "unat bytes_copied + unat (write_chunk offset num_bytes bytes_copied) \<le> unat num_bytes"
proof -
  let ?n = "num_bytes - bytes_copied"
  have n: "unat ?n = unat num_bytes - unat bytes_copied"
    using assms(1) by (simp add: unat_sub less_imp_le)
  have o: "unat (PAGE_SIZE - offset) = unat PAGE_SIZE - unat offset"
    using assms(2) by (simp add: unat_sub less_imp_le)
  have lt: "unat bytes_copied < unat num_bytes" "unat offset < unat PAGE_SIZE"
    using assms by (simp_all add: word_less_nat_alt)
  have short: "unat (PAGE_SIZE - offset) \<le> unat ?n" if "offset + ?n > PAGE_SIZE"
  proof -
    have "unat PAGE_SIZE < unat (offset + ?n)"
      using that by (simp add: word_less_nat_alt)
    also have "unat (offset + ?n) \<le> unat offset + unat ?n"
      by (rule unat_plus_upper)
    finally show ?thesis using o by linarith
  qed
  show "0 < unat (write_chunk offset num_bytes bytes_copied)"
    using n o lt by (simp add: write_chunk_def Let_def)
  show "unat bytes_copied + unat (write_chunk offset num_bytes bytes_copied) \<le> unat num_bytes"
    using n lt short by (auto simp: write_chunk_def Let_def)
qed

function write_loop :: "data_block \<Rightarrow> u64 \<Rightarrow> ('h main_memory, unit) prog" where
  "write_loop data bytes_copied =
     (if bytes_copied < db_num_bytes data then
        bindM (get_page (db_address data + bytes_copied)) (\<lambda>page.
        let offset = get_offset (db_address data + bytes_copied);
            bytes_to_copy = write_chunk offset (db_num_bytes data) bytes_copied in
        bindM (buffer_slice (db_data data) bytes_copied bytes_to_copy) (\<lambda>bs.
        bindM (page_store page offset bs) (\<lambda>_.
        write_loop data (bytes_copied + bytes_to_copy))))
      else ret ())"
  by pat_completeness auto
termination
proof (relation "measure (\<lambda>(data, bytes_copied). unat (db_num_bytes data) - unat bytes_copied)")
  fix data :: data_block and bytes_copied x xa xb xc xd
  assume lt: "bytes_copied < db_num_bytes data"
    and xa: "xa = get_offset (db_address data + bytes_copied)"
    and xb: "xb = write_chunk xa (db_num_bytes data) bytes_copied"
  have "xa < PAGE_SIZE" by (simp add: xa get_offset_less)
  note b = write_chunk_bounds [OF lt this, folded xb]
  show "((data, bytes_copied + xb), data, bytes_copied)
          \<in> measure (\<lambda>(data, bytes_copied). unat (db_num_bytes data) - unat bytes_copied)"
    using b lt by (simp add: unat_plus_bounded [OF b(2)] word_less_nat_alt)
qed simp

declare write_loop.simps [simp del]

definition MainMemory_write :: "data_block \<Rightarrow> ('h main_memory, unit) prog" where
  "MainMemory_write data =
     bindM (check_access (db_address data + db_num_bytes data - 1)) (\<lambda>_. write_loop data 0)"

section \<open>The flat view of memory\<close>

text \<open>
  What the byte at an address reads as, whether or not its page exists yet, and the
  effect of storing a sequence of bytes into a flat byte array. Addresses wrap around at
  \<open>2 ^ 64\<close> in both.
\<close>

definition byte_at :: "'h main_memory \<Rightarrow> MemoryAddress \<Rightarrow> u8" where
  "byte_at m a =
     (case pages m (get_tag a) of
        None \<Rightarrow> garbage m (get_tag a) (unat (get_offset a))
      | Some pg \<Rightarrow> pg (unat (get_offset a)))"

definition peek :: "(MemoryAddress \<Rightarrow> u8) \<Rightarrow> MemoryAddress \<Rightarrow> nat \<Rightarrow> u8 list" where
  "peek f a n = map (\<lambda>i. f (a + of_nat i)) [0..<n]"

definition poke :: "(MemoryAddress \<Rightarrow> u8) \<Rightarrow> MemoryAddress \<Rightarrow> u8 list \<Rightarrow> MemoryAddress \<Rightarrow> u8" where
  "poke f a bs = (\<lambda>x. if unat (x - a) < length bs then bs ! unat (x - a) else f x)"

text \<open>Every page is stored under its own tag.\<close>

definition wf_memory :: "'h main_memory \<Rightarrow> bool" where
  "wf_memory m \<longleftrightarrow> (\<forall>t \<in> dom (pages m). get_tag t = t)"

text \<open>The page of an address exists after a lookup.\<close>

definition touch :: "MemoryAddress \<Rightarrow> 'h main_memory \<Rightarrow> 'h main_memory" where
  "touch a m =
     (let t = get_tag a in
      if pages m t = None then m\<lparr>pages := (pages m)(t \<mapsto> garbage m t)\<rparr> else m)"

subsection \<open>Tags and offsets\<close>

lemma PAGE_SIZE_value: "PAGE_SIZE = 1048576"
  by (simp add: PAGE_SIZE_def LOG2_PAGE_SIZE_def)

lemma unat_PAGE_SIZE [simp]: "unat PAGE_SIZE = 1048576"
  by (simp add: PAGE_SIZE_value)

lemma get_offset_take_bit: "get_offset a = take_bit 20 a"
proof -
  have "PAGE_SIZE - 1 = mask 20"
    by (simp add: PAGE_SIZE_def LOG2_PAGE_SIZE_def mask_eq_exp_minus_1)
  then show ?thesis by (simp add: get_offset_def take_bit_eq_mask)
qed

lemma unat_get_offset: "unat (get_offset a) = unat a mod 1048576"
  by (simp add: get_offset_take_bit take_bit_eq_mod unat_mod)

lemma unat_get_offset_less: "unat (get_offset a) < 1048576"
  by (simp add: unat_get_offset)

lemma get_tag_eq: "get_tag a = a - get_offset a"
proof -
  have "get_tag a + get_offset a = get_tag a OR get_offset a"
    by (rule disjunctive_add) (auto simp: get_tag_def get_offset_def bit_simps)
  also have "\<dots> = a"
    by (rule bit_word_eqI) (auto simp: get_tag_def get_offset_def bit_simps)
  finally show ?thesis by (simp add: eq_diff_eq)
qed

lemma unat_get_tag: "unat (get_tag a) = unat a div 1048576 * 1048576"
proof -
  have "get_offset a \<le> a"
    by (simp add: word_le_nat_alt unat_get_offset)
  then have "unat (get_tag a) = unat a - unat a mod 1048576"
    by (simp add: get_tag_eq unat_sub unat_get_offset)
  then show ?thesis by (simp add: minus_mod_eq_div_mult)
qed

lemma get_tag_idem [simp]: "get_tag (get_tag a) = get_tag a"
  by (rule bit_word_eqI) (auto simp: get_tag_def bit_simps)

lemma unat_get_offset_plus:
  "unat (get_offset (a + b)) = (unat (get_offset a) + unat b) mod 1048576"
proof -
  have "unat (a + b) mod 1048576 = (unat a + unat b) mod 1048576"
    by (simp add: unat_word_ariths mod_mod_cancel)
  then show ?thesis by (simp add: unat_get_offset mod_add_left_eq)
qed

lemma offset_same_page:
  assumes "unat (get_offset a) + i < 1048576"
  shows "unat (get_offset (a + of_nat i)) = unat (get_offset a) + i"
    and "get_tag (a + of_nat i) = get_tag a"
proof -
  have i: "unat (of_nat i :: u64) = i"
    using assms by (simp add: unat_of_nat_u64)
  show o: "unat (get_offset (a + of_nat i)) = unat (get_offset a) + i"
    using assms by (simp add: unat_get_offset_plus i)
  have "unat (get_offset a + of_nat i) = unat (get_offset a) + i"
    using assms by (simp add: unat_word_ariths i)
  with o have "get_offset (a + of_nat i) = get_offset a + of_nat i"
    by (simp add: word_unat_eq_iff)
  then show "get_tag (a + of_nat i) = get_tag a"
    by (simp add: get_tag_eq)
qed

lemma get_offset_next: "get_offset (a + PAGE_SIZE) = get_offset a"
  using unat_get_offset_less [of a] by (simp add: word_unat_eq_iff unat_get_offset_plus)

lemma get_tag_next: "get_tag (a + PAGE_SIZE) = get_tag a + PAGE_SIZE"
  by (simp add: get_tag_eq get_offset_next)

subsection \<open>Peeking and poking\<close>

lemma length_peek [simp]: "length (peek f a n) = n"
  by (simp add: peek_def)

lemma nth_peek: "i < n \<Longrightarrow> peek f a n ! i = f (a + of_nat i)"
  by (simp add: peek_def)

lemma peek_append: "peek f a (i + j) = peek f a i @ peek f (a + of_nat i) j"
  by (rule nth_equalityI) (auto simp: nth_peek nth_append algebra_simps)

lemma peek_0 [simp]: "peek f a 0 = []"
  by (simp add: peek_def)

lemma peek_poke_same:
  assumes "length bs \<le> 2 ^ 64"
  shows "peek (poke f a bs) a (length bs) = bs"
  by (rule nth_equalityI) (use assms in \<open>auto simp: nth_peek poke_def unat_of_nat_u64\<close>)

lemma peek_poke_disjoint:
  assumes "\<And>i. i < n \<Longrightarrow> length bs \<le> unat (b + of_nat i - a)"
  shows "peek (poke f a bs) b n = peek f b n"
  by (rule nth_equalityI) (use assms in \<open>fastforce simp: nth_peek poke_def\<close>)+

lemma poke_append:
  assumes "length xs + length ys \<le> 2 ^ 64"
  shows "poke (poke f a xs) (a + of_nat (length xs)) ys = poke f a (xs @ ys)"
proof (rule ext)
  fix x
  let ?d = "unat (x - a)"
  have d: "x - (a + of_nat (length xs)) = (x - a) - of_nat (length xs)" by simp
  show "poke (poke f a xs) (a + of_nat (length xs)) ys x = poke f a (xs @ ys) x"
  proof (cases "length xs \<le> ?d")
    case True
    then have n: "length xs < 2 ^ 64"
      using unat_u64_less [of "x - a"] by linarith
    then have "unat ((x - a) - of_nat (length xs)) = ?d - length xs"
      using True by (simp add: unat_sub word_le_nat_alt unat_of_nat_u64)
    with True show ?thesis
      by (auto simp: poke_def nth_append d)
  next
    case False
    have "length ys \<le> unat ((x - a) - of_nat (length xs))"
    proof (cases "ys = []")
      case nonempty: False
      then have n: "length xs < 2 ^ 64" using assms by (cases ys) auto
      then have "unat (of_nat (length xs) :: u64) = length xs" by (rule unat_of_nat_u64)
      with False have "unat ((x - a) - of_nat (length xs)) = 2 ^ 64 + ?d - length xs"
        using n by (simp add: unat_sub_if_size word_size)
      with assms show ?thesis by linarith
    qed simp
    with False show ?thesis
      by (auto simp: poke_def nth_append d)
  qed
qed

subsection \<open>Page lookup\<close>

lemma get_page_eq: "get_page a m = (Inr (get_tag a), touch a m)"
  by (simp add: get_page_def allocate_new_page_def touch_def Let_def prog_simps)

lemma byte_at_touch [simp]: "byte_at (touch a m) = byte_at m"
  by (rule ext) (simp add: byte_at_def touch_def Let_def split: option.split)

lemma touch_fields [simp]: "host (touch a m) = host m" "garbage (touch a m) = garbage m"
  by (simp_all add: touch_def Let_def)

lemma touch_page: "\<exists>pg. pages (touch a m) (get_tag a) = Some pg"
  by (auto simp: touch_def Let_def)

lemma touch_keeps: "pages m t = Some pg \<Longrightarrow> pages (touch a m) t = Some pg"
  by (auto simp: touch_def Let_def)

lemma wf_memory_touch [simp]: "wf_memory m \<Longrightarrow> wf_memory (touch a m)"
  by (auto simp: wf_memory_def touch_def Let_def)

lemma wf_memory_new: "wf_memory (new_main_memory g h)"
  by (simp add: wf_memory_def new_main_memory_def)

subsection \<open>Loads and stores within one page\<close>

lemma page_load_eq:
  assumes "pages m (get_tag a) = Some pg"
    and "unat (get_offset a) + unat n \<le> 1048576"
  shows "page_load (get_tag a) (get_offset a) n m = (Inr (peek (byte_at m) a (unat n)), m)"
proof -
  have "pg (unat (get_offset a) + i) = byte_at m (a + of_nat i)" if "i < unat n" for i
    using assms that by (simp add: byte_at_def offset_same_page)
  then have "map (\<lambda>i. pg (unat (get_offset a) + i)) [0..<unat n] = peek (byte_at m) a (unat n)"
    by (simp add: peek_def)
  with assms show ?thesis by (simp add: page_load_def prog_simps)
qed

definition page_put :: "MemoryAddress \<Rightarrow> u8 list \<Rightarrow> 'h main_memory \<Rightarrow> 'h main_memory" where
  "page_put a bs m =
     (case pages m (get_tag a) of
        None \<Rightarrow> m
      | Some pg \<Rightarrow>
          m\<lparr>pages := (pages m)(get_tag a \<mapsto> page_update pg (unat (get_offset a)) bs)\<rparr>)"

lemma page_put_fields [simp]: "host (page_put a bs m) = host m" "garbage (page_put a bs m) = garbage m"
  by (simp_all add: page_put_def split: option.splits)

lemma page_put_keeps: "pages m t \<noteq> None \<Longrightarrow> pages (page_put a bs m) t \<noteq> None"
  by (auto simp: page_put_def split: option.splits)

lemma wf_memory_page_put [simp]: "wf_memory m \<Longrightarrow> wf_memory (page_put a bs m)"
  by (auto simp: page_put_def wf_memory_def split: option.splits)

lemma page_store_eq:
  assumes "pages m (get_tag a) = Some pg"
    and "unat (get_offset a) + length bs \<le> 1048576"
  shows "page_store (get_tag a) (get_offset a) bs m = (Inr (), page_put a bs m)"
  using assms by (simp add: page_store_def page_put_def prog_simps)

lemma diff_same_page:
  assumes "get_tag x = get_tag a" "unat (get_offset a) \<le> unat (get_offset x)"
  shows "unat (x - a) = unat (get_offset x) - unat (get_offset a)"
proof -
  have "x - a = get_offset x - get_offset a"
    using assms(1) by (simp add: get_tag_eq algebra_simps)
  with assms(2) show ?thesis by (simp add: unat_sub word_le_nat_alt)
qed

lemma diff_in_page:
  assumes "unat (x - a) < n" "unat (get_offset a) + n \<le> 1048576"
  shows "get_tag x = get_tag a" "unat (get_offset x) = unat (get_offset a) + unat (x - a)"
proof -
  have "x = a + of_nat (unat (x - a))" by simp
  with offset_same_page [of a "unat (x - a)"] assms
  show "get_tag x = get_tag a" "unat (get_offset x) = unat (get_offset a) + unat (x - a)"
    by simp_all
qed

lemma byte_at_page_put:
  assumes "pages m (get_tag a) = Some pg"
    and "unat (get_offset a) + length bs \<le> 1048576"
  shows "byte_at (page_put a bs m) = poke (byte_at m) a bs"
proof (rule ext)
  fix x
  show "byte_at (page_put a bs m) x = poke (byte_at m) a bs x"
  proof (cases "unat (x - a) < length bs")
    case True
    with assms diff_in_page [OF True assms(2)] show ?thesis
      by (simp add: byte_at_def page_put_def poke_def page_update_def)
  next
    case False
    have "\<not> (unat (get_offset a) \<le> unat (get_offset x) \<and>
             unat (get_offset x) < unat (get_offset a) + length bs)" if "get_tag x = get_tag a"
      using that False diff_same_page [OF that] by auto
    with assms False show ?thesis
      by (auto simp: byte_at_def page_put_def poke_def page_update_def split: option.split)
  qed
qed

section \<open>Correctness of the word accesses\<close>

text \<open>The test made by \<open>check_access\<close> for an access of \<open>k\<close> bytes, and its failure.\<close>

definition access_ok :: "u64 \<Rightarrow> MemoryAddress \<Rightarrow> bool" where
  "access_ok k a \<longleftrightarrow> a + k - 1 \<le> MAX_PHYSICAL_ADDRESS"

definition limit_fault :: "MemoryAddress \<Rightarrow> failure" where
  "limit_fault a = Throw (AccessFault a ''Physical address exceeds Sv39 limit'')"

lemma check_access_eq:
  "check_access (a + k - 1) m =
     (if access_ok k a then (Inr (), m) else (Inl (limit_fault (a + k - 1)), m))"
  by (simp add: check_access_def access_ok_def limit_fault_def prog_simps linorder_not_le)

text \<open>The pages a \<open>k\<close>-byte access at \<open>a\<close> brings into existence.\<close>

definition touch_span :: "u64 \<Rightarrow> MemoryAddress \<Rightarrow> 'h main_memory \<Rightarrow> 'h main_memory" where
  "touch_span k a m =
     (if get_offset a \<le> PAGE_SIZE - k then touch a m else touch (a + PAGE_SIZE) (touch a m))"

lemma touch_span_simps [simp]:
  "byte_at (touch_span k a m) = byte_at m" "host (touch_span k a m) = host m"
  "garbage (touch_span k a m) = garbage m"
  by (simp_all add: touch_span_def)

lemma wf_memory_touch_span [simp]: "wf_memory m \<Longrightarrow> wf_memory (touch_span k a m)"
  by (simp add: touch_span_def)

lemma in_one_page:
  assumes "unat k \<le> 1048576"
  shows "get_offset a \<le> PAGE_SIZE - k \<longleftrightarrow> unat (get_offset a) + unat k \<le> 1048576"
proof -
  have "k \<le> PAGE_SIZE" using assms by (simp add: word_le_nat_alt)
  then show ?thesis using assms by (auto simp: word_le_nat_alt unat_sub)
qed

lemma unat_page_rest: "unat (PAGE_SIZE - get_offset a) = 1048576 - unat (get_offset a)"
  using get_offset_less [of a] by (simp add: unat_sub less_imp_le)

lemma next_page_start:
  "get_offset (a + (PAGE_SIZE - get_offset a)) = 0"
  "get_tag (a + (PAGE_SIZE - get_offset a)) = get_tag (a + PAGE_SIZE)"
proof -
  show o: "get_offset (a + (PAGE_SIZE - get_offset a)) = 0"
    using unat_get_offset_less [of a]
    by (simp add: word_unat_eq_iff unat_get_offset_plus unat_page_rest)
  show "get_tag (a + (PAGE_SIZE - get_offset a)) = get_tag (a + PAGE_SIZE)"
    by (simp add: get_tag_eq o get_offset_next)
qed

lemma unat_spill:
  assumes "unat k \<le> 1048576" "\<not> get_offset a \<le> PAGE_SIZE - k"
  shows "unat (get_offset a + k - PAGE_SIZE) = unat (get_offset a) + unat k - 1048576"
proof -
  have "unat (get_offset a + k) = unat (get_offset a) + unat k"
    using assms(1) unat_get_offset_less [of a] by (simp add: unat_word_ariths)
  moreover from this assms have "PAGE_SIZE \<le> get_offset a + k"
    unfolding in_one_page [OF assms(1)] by (simp add: word_le_nat_alt)
  ultimately show ?thesis by (simp add: unat_sub)
qed

lemma page_span:
  assumes "unat k \<le> 1048576" "\<not> get_offset a \<le> PAGE_SIZE - k"
  shows "unat k = unat (PAGE_SIZE - get_offset a) + unat (get_offset a + k - PAGE_SIZE)"
  using assms unat_get_offset_less [of a] by (simp add: unat_spill unat_page_rest in_one_page)

lemma read_value_eq:
  assumes "unat k \<le> 1048576"
  shows "read_value k a m =
     (if access_ok k a then (Inr (le_word (peek (byte_at m) a (unat k))), touch_span k a m)
      else (Inl (limit_fault (a + k - 1)), m))"
proof (cases "get_offset a \<le> PAGE_SIZE - k")
  case True
  obtain pg where "pages (touch a m) (get_tag a) = Some pg" using touch_page by blast
  with True assms show ?thesis
    by (simp add: read_value_def prog_simps check_access_eq get_page_eq page_load_eq
        in_one_page touch_span_def Let_def)
next
  case False
  let ?b = "a + (PAGE_SIZE - get_offset a)"
  let ?m = "touch (a + PAGE_SIZE) (touch a m)"
  obtain pg where "pages (touch a m) (get_tag a) = Some pg" using touch_page by blast
  then have lo: "page_load (get_tag a) (get_offset a) (PAGE_SIZE - get_offset a) ?m
      = (Inr (peek (byte_at m) a (unat (PAGE_SIZE - get_offset a))), ?m)"
    using unat_get_offset_less [of a]
    by (subst page_load_eq [OF touch_keeps]) (auto simp: unat_page_rest)
  obtain qg where "pages ?m (get_tag ?b) = Some qg"
    using touch_page [of "a + PAGE_SIZE"] by (auto simp: next_page_start)
  then have hi: "page_load (get_tag (a + PAGE_SIZE)) 0 (get_offset a + k - PAGE_SIZE) ?m
      = (Inr (peek (byte_at m) ?b (unat (get_offset a + k - PAGE_SIZE))), ?m)"
    using page_load_eq [of ?m ?b qg "get_offset a + k - PAGE_SIZE"] assms False
      unat_get_offset_less [of a]
    by (simp add: next_page_start unat_spill)
  have "peek (byte_at m) a (unat k) = peek (byte_at m) a (unat (PAGE_SIZE - get_offset a))
      @ peek (byte_at m) ?b (unat (get_offset a + k - PAGE_SIZE))"
    using page_span [OF assms False] by (simp add: peek_append)
  with False lo hi show ?thesis
    by (simp add: read_value_def prog_simps check_access_eq get_page_eq touch_span_def Let_def)
qed

lemma read8_eq:
  "read8 a m =
     (if access_ok 1 a then (Inr (byte_at m a), touch_span 1 a m)
      else (Inl (limit_fault a), m))"
proof -
  obtain pg where p: "pages (touch a m) (get_tag a) = Some pg" using touch_page by blast
  have o: "unat (get_offset a) + unat (1 :: u64) \<le> 1048576"
    using unat_get_offset_less [of a] by simp
  then have "get_offset a \<le> PAGE_SIZE - 1"
    by (simp add: get_offset_def word_and_le1)
  then show ?thesis
    unfolding read8_def bindM_apply check_access_eq
    by (simp add: prog_simps get_page_eq page_load_eq [OF p o] peek_def touch_span_def)
qed

text \<open>The store made by a \<open>k\<close>-byte write at \<open>a\<close>.\<close>

definition put_span :: "u64 \<Rightarrow> MemoryAddress \<Rightarrow> u8 list \<Rightarrow> 'h main_memory \<Rightarrow> 'h main_memory" where
  "put_span k a bs m =
     (if get_offset a \<le> PAGE_SIZE - k then page_put a bs (touch_span k a m)
      else page_put (a + (PAGE_SIZE - get_offset a)) (drop (unat (PAGE_SIZE - get_offset a)) bs)
            (page_put a (take (unat (PAGE_SIZE - get_offset a)) bs) (touch_span k a m)))"

lemma put_span_simps [simp]:
  "host (put_span k a bs m) = host m" "garbage (put_span k a bs m) = garbage m"
  by (simp_all add: put_span_def)

lemma wf_memory_put_span [simp]: "wf_memory m \<Longrightarrow> wf_memory (put_span k a bs m)"
  by (simp add: put_span_def)

text \<open>Where the pages of a span are once they have been touched.\<close>

lemma touch_span_pages:
  obtains pg where "pages (touch_span k a m) (get_tag a) = Some pg"
  using touch_page [of a m] touch_keeps by (fastforce simp: touch_span_def)

lemma touch_span_next:
  assumes "\<not> get_offset a \<le> PAGE_SIZE - k"
  obtains pg where
    "pages (touch_span k a m) (get_tag (a + (PAGE_SIZE - get_offset a))) = Some pg"
  using touch_page [of "a + PAGE_SIZE" "touch a m"] assms
  by (auto simp: touch_span_def next_page_start)

lemma byte_at_put_span:
  assumes k: "unat k \<le> 1048576" and bs: "length bs = unat k"
  shows "byte_at (put_span k a bs m) = poke (byte_at m) a bs"
proof (cases "get_offset a \<le> PAGE_SIZE - k")
  case True
  obtain pg where "pages (touch_span k a m) (get_tag a) = Some pg" by (rule touch_span_pages)
  with True assms show ?thesis by (simp add: put_span_def byte_at_page_put in_one_page)
next
  case False
  let ?r = "unat (PAGE_SIZE - get_offset a)"
  let ?b = "a + (PAGE_SIZE - get_offset a)"
  let ?m = "page_put a (take ?r bs) (touch_span k a m)"
  obtain pg where pg: "pages (touch_span k a m) (get_tag a) = Some pg" by (rule touch_span_pages)
  obtain qg where "pages (touch_span k a m) (get_tag ?b) = Some qg"
    using False by (rule touch_span_next)
  then obtain rg where rg: "pages ?m (get_tag ?b) = Some rg"
    using page_put_keeps by (metis not_Some_eq)
  have fst: "byte_at ?m = poke (byte_at m) a (take ?r bs)"
    using unat_get_offset_less [of a]
    by (subst byte_at_page_put [OF pg]) (auto simp: unat_page_rest)
  have len: "length (take ?r bs) = ?r"
    using page_span [OF k False] by (simp add: bs)
  have "byte_at (page_put ?b (drop ?r bs) ?m) = poke (byte_at ?m) ?b (drop ?r bs)"
    using rg by (rule byte_at_page_put) (use k bs in \<open>simp add: next_page_start\<close>)
  also have "\<dots> = poke (byte_at m) a (take ?r bs @ drop ?r bs)"
    using poke_append [of "take ?r bs" "drop ?r bs" "byte_at m" a] k bs len fst by simp
  finally show ?thesis using False by (simp add: put_span_def)
qed

text \<open>A write the harness does not take for a system call.\<close>

definition plain_write :: "'h sys_calls \<Rightarrow> 'h main_memory \<Rightarrow> MemoryAddress \<Rightarrow> u64 \<Rightarrow> bool" where
  "plain_write env m a d \<longleftrightarrow> \<not> sc_is_system_call env (host m) a d"

lemma write_value_eq:
  assumes k: "unat k \<le> 1048576" and plain: "plain_write env m a (ucast d)"
  shows "write_value k env a d m =
     (if access_ok k a then (Inr (), put_span k a (le_bytes (unat k) d) m)
      else (Inl (limit_fault (a + k - 1)), m))"
proof (cases "get_offset a \<le> PAGE_SIZE - k")
  case True
  obtain pg where "pages (touch a m) (get_tag a) = Some pg" using touch_page by blast
  with True plain k show ?thesis
    by (simp add: write_value_def system_call_or_def plain_write_def prog_simps check_access_eq
        get_page_eq page_store_eq in_one_page put_span_def touch_span_def Let_def)
next
  case False
  let ?bs = "le_bytes (unat k) d"
  let ?r = "unat (PAGE_SIZE - get_offset a)"
  let ?b = "a + (PAGE_SIZE - get_offset a)"
  let ?m = "touch_span k a m"
  obtain pg where pg: "pages ?m (get_tag a) = Some pg" by (rule touch_span_pages)
  have lo: "page_store (get_tag a) (get_offset a) (take ?r ?bs) ?m
      = (Inr (), page_put a (take ?r ?bs) ?m)"
    using unat_get_offset_less [of a]
    by (subst page_store_eq [OF pg]) (auto simp: unat_page_rest)
  obtain qg where "pages ?m (get_tag ?b) = Some qg" using False by (rule touch_span_next)
  then obtain rg where rg: "pages (page_put a (take ?r ?bs) ?m) (get_tag ?b) = Some rg"
    using page_put_keeps by (metis not_Some_eq)
  have hi: "page_store (get_tag (a + PAGE_SIZE)) 0 (drop ?r ?bs) (page_put a (take ?r ?bs) ?m)
      = (Inr (), page_put ?b (drop ?r ?bs) (page_put a (take ?r ?bs) ?m))"
    using page_store_eq [OF rg, of "drop ?r ?bs"] k by (simp add: next_page_start)
  have m: "touch (a + PAGE_SIZE) (touch a m) = ?m" using False by (simp add: touch_span_def)
  show ?thesis
    using False plain lo hi
    by (simp add: write_value_def system_call_or_def plain_write_def prog_simps check_access_eq
        get_page_eq put_span_def Let_def m)
qed

lemma write8_eq:
  assumes "plain_write env m a (ucast d)"
  shows "write8 env a d m =
     (if access_ok 1 a then (Inr (), put_span 1 a [d] m) else (Inl (limit_fault a), m))"
proof -
  obtain pg where p: "pages (touch a m) (get_tag a) = Some pg" using touch_page by blast
  have o: "unat (get_offset a) + length [d] \<le> 1048576"
    using unat_get_offset_less [of a] by simp
  have s: "get_offset a \<le> PAGE_SIZE - 1"
    by (simp add: get_offset_def word_and_le1)
  show ?thesis
    using assms s check_access_eq [of a 1 m]
    by (simp add: write8_def system_call_or_def plain_write_def prog_simps get_page_eq
        page_store_eq [OF p o] put_span_def touch_span_def)
qed

lemma write_system_call:
  assumes "sc_is_system_call env (host m) a (ucast d)"
  shows "write_value k env a d m =
     (case sc_system_call env (host m) a (ucast d) of
        Inl e \<Rightarrow> (Inl e, m) | Inr h \<Rightarrow> (Inr (), m\<lparr>host := h\<rparr>))"
  using assms by (simp add: write_value_def system_call_or_def prog_simps split: sum.split)

text \<open>
  System calls as a simulation has them: the address alone says what is one, and a write that is
  one returns.
\<close>

definition hosted :: "'h sys_calls \<Rightarrow> bool" where
  "hosted env \<longleftrightarrow> (\<forall>h a d. sc_is_system_call env h a d = sc_is_system_call env h a 0 \<and>
     (sc_is_system_call env h a d \<longrightarrow> \<not> isl (sc_system_call env h a d)))"

lemma hosted_call:
  assumes "hosted env" "\<not> plain_write env m a d"
  shows "\<exists>h. sc_system_call env (host m) a e = Inr h" "sc_is_system_call env (host m) a e"
proof -
  show "sc_is_system_call env (host m) a e" using assms unfolding hosted_def plain_write_def by blast
  with assms(1) have "\<not> isl (sc_system_call env (host m) a e)" unfolding hosted_def by blast
  then show "\<exists>h. sc_system_call env (host m) a e = Inr h" by (cases "sc_system_call env (host m) a e") simp_all
qed

lemma writes_call:
  assumes "hosted env" "\<not> plain_write env m a d"
  shows "\<exists>h. write_value k env a e m = (Inr (), m\<lparr>host := h\<rparr>)" "\<exists>h. write8 env a b m = (Inr (), m\<lparr>host := h\<rparr>)"
  using hosted_call(1) [OF assms, of "ucast e"] hosted_call(2) [OF assms, of "ucast e"]
    hosted_call(1) [OF assms, of "ucast b"] hosted_call(2) [OF assms, of "ucast b"]
  by (auto simp: write_system_call write8_def system_call_or_def prog_simps)

section \<open>The interface of a word-addressed memory\<close>

text \<open>
  What the clients of main memory rely on, for one access width of \<open>k\<close> bytes: a read
  returns the little-endian value of the bytes in view and leaves the view alone, a
  write that is not a system call replaces exactly its \<open>k\<close> bytes, and an address the
  memory refuses changes nothing.
\<close>

locale ram =
  fixes rd :: "MemoryAddress \<Rightarrow> ('s, 'w::len word) prog"
    and wr :: "MemoryAddress \<Rightarrow> 'w word \<Rightarrow> ('s, unit) prog"
    and view :: "'s \<Rightarrow> MemoryAddress \<Rightarrow> u8"
    and inv :: "'s \<Rightarrow> bool"
    and ok :: "MemoryAddress \<Rightarrow> bool"
    and plain :: "'s \<Rightarrow> MemoryAddress \<Rightarrow> 'w word \<Rightarrow> bool"
    and k :: nat
  assumes width: "LENGTH('w) = 8 * k" "k \<le> 8"
    and rd_ok: "ok a \<Longrightarrow>
      \<exists>s'. rd a s = (Inr (le_word (peek (view s) a k)), s') \<and> view s' = view s
        \<and> (inv s \<longrightarrow> inv s') \<and> plain s' = plain s"
    and wr_ok: "ok a \<Longrightarrow> plain s a d \<Longrightarrow>
      \<exists>s'. wr a d s = (Inr (), s') \<and> view s' = poke (view s) a (le_bytes k d)
        \<and> (inv s \<longrightarrow> inv s') \<and> plain s' = plain s"
    and rd_refused: "\<not> ok a \<Longrightarrow> \<exists>e. rd a s = (Inl (Throw e), s)"
    and wr_refused: "\<not> ok a \<Longrightarrow> plain s a d \<Longrightarrow> \<exists>e. wr a d s = (Inl (Throw e), s)"
begin

lemma rd_after_wr:
  assumes "ok a" "plain s a d"
  shows "fst (bindM (wr a d) (\<lambda>_. rd a) s) = Inr d"
proof -
  from wr_ok [OF assms] obtain s' where w: "wr a d s = (Inr (), s')"
    and v: "view s' = poke (view s) a (le_bytes k d)" by blast
  from rd_ok [OF assms(1), of s'] obtain s'' where
    r: "rd a s' = (Inr (le_word (peek (view s') a k)), s'')" by blast
  have "peek (view s') a k = le_bytes k d"
    using peek_poke_same [of "le_bytes k d" "view s" a] width(2) by (simp add: v)
  then have "le_word (peek (view s') a k) = d"
    using width(1) by (simp add: le_word_le_bytes)
  with w r show ?thesis by (simp add: bindM_apply)
qed

lemma rd_after_disjoint_wr:
  assumes "ok a" "ok b" "plain s a d"
    and "\<And>i. i < k \<Longrightarrow> k \<le> unat (b + of_nat i - a)"
  shows "fst (bindM (wr a d) (\<lambda>_. rd b) s) = fst (rd b s)"
proof -
  from wr_ok [OF assms(1,3)] obtain s' where w: "wr a d s = (Inr (), s')"
    and v: "view s' = poke (view s) a (le_bytes k d)" by blast
  have "peek (view s') b k = peek (view s) b k"
    using assms(4) by (simp add: v peek_poke_disjoint)
  with rd_ok [OF assms(2), of s] rd_ok [OF assms(2), of s'] w show ?thesis
    by (auto simp: bindM_apply)
qed

lemma rd_keeps_view: "view (snd (rd a s)) = view s"
  using rd_ok [of a s] rd_refused [of a s] by (cases "ok a") auto

lemma rd_inv: "inv s \<Longrightarrow> inv (snd (rd a s))"
  using rd_ok [of a s] rd_refused [of a s] by (cases "ok a") auto

lemma wr_inv: "inv s \<Longrightarrow> plain s a d \<Longrightarrow> inv (snd (wr a d s))"
  using wr_ok [of a s d] wr_refused [of a s d] by (cases "ok a") auto

end

lemma plain_write_host: "host m = host m' \<Longrightarrow> plain_write env m = plain_write env m'"
  by (intro ext) (simp add: plain_write_def)

lemmas value_access_eqs =
  read8_eq read16_def read32_def read64_def read_value_eq
  write8_eq write16_def write32_def write64_def write_value_eq
  byte_at_put_span limit_fault_def plain_write_host [OF touch_span_simps(2)]
  plain_write_host [OF put_span_simps(1)]

interpretation m8: ram read8 "write8 env" byte_at wf_memory "access_ok 1"
    "\<lambda>m a d. plain_write env m a (ucast d)" 1 for env
proof unfold_locales
  show "\<exists>s'. read8 a s = (Inr (le_word (peek (byte_at s) a 1)), s') \<and> byte_at s' = byte_at s \<and>
      (wf_memory s \<longrightarrow> wf_memory s') \<and>
      (\<lambda>a d. plain_write env s' a (ucast d)) = (\<lambda>a d. plain_write env s a (ucast d))"
    if "access_ok 1 a" for a and s :: "'a main_memory"
    using that by (simp add: value_access_eqs peek_def)
  show "\<exists>s'. write8 env a d s = (Inr (), s') \<and>
      byte_at s' = poke (byte_at s) a (le_bytes 1 d) \<and> (wf_memory s \<longrightarrow> wf_memory s') \<and>
      (\<lambda>a d. plain_write env s' a (ucast d)) = (\<lambda>a d. plain_write env s a (ucast d))"
    if "access_ok 1 a" "plain_write env s a (ucast d)" for a d s
    using that by (simp add: value_access_eqs le_bytes_def)
qed (auto simp: value_access_eqs)

interpretation m16: ram read16 "write16 env" byte_at wf_memory "access_ok 2"
    "\<lambda>m a d. plain_write env m a (ucast d)" 2 for env
  by unfold_locales (auto simp: value_access_eqs)

interpretation m32: ram read32 "write32 env" byte_at wf_memory "access_ok 4"
    "\<lambda>m a d. plain_write env m a (ucast d)" 4 for env
  by unfold_locales (auto simp: value_access_eqs)

interpretation m64: ram read64 "write64 env" byte_at wf_memory "access_ok 8"
    "\<lambda>m a d. plain_write env m a (ucast d)" 8 for env
  by unfold_locales (auto simp: value_access_eqs)

section \<open>Correctness of the block transfers\<close>

definition wf_block :: "data_block \<Rightarrow> bool" where
  "wf_block d \<longleftrightarrow> length (db_data d) = unat (db_num_bytes d) \<and> unat (db_num_bytes d) \<le> 2 ^ 63"

lemma unat_offset_plus:
  "unat n \<le> 2 ^ 63 \<Longrightarrow> unat (get_offset a + n) = unat (get_offset a) + unat n"
  using unat_get_offset_less [of a] by (simp add: unat_word_ariths)

lemma write_chunk_in_page:
  assumes "c < n" "unat n \<le> 2 ^ 63"
  shows "unat (get_offset a) + unat (write_chunk (get_offset a) n c) \<le> 1048576"
proof -
  have "unat (n - c) \<le> 2 ^ 63"
    using assms by (simp add: unat_sub less_imp_le)
  then show ?thesis
    using unat_get_offset_less [of a]
    by (auto simp: write_chunk_def Let_def unat_page_rest unat_offset_plus word_less_nat_alt)
qed

lemma write_loop_correct:
  assumes "wf_block d" "c \<le> db_num_bytes d"
  shows "\<exists>m'. write_loop d c m = (Inr (), m') \<and> host m' = host m \<and>
      byte_at m' = poke (byte_at m) (db_address d + c) (drop (unat c) (db_data d))"
  using assms
proof (induction d c arbitrary: m rule: write_loop.induct)
  case (1 d c)
  show ?case
  proof (cases "c < db_num_bytes d")
    case False
    with "1.prems" have "drop (unat c) (db_data d) = []"
      by (simp add: wf_block_def word_less_nat_alt)
    with False show ?thesis
      by (subst write_loop.simps) (simp add: prog_simps poke_def)
  next
    case True
    define a where "a = db_address d + c"
    define n where "n = write_chunk (get_offset a) (db_num_bytes d) c"
    define bs where "bs = take (unat n) (drop (unat c) (db_data d))"
    from "1.prems" have len: "length (db_data d) = unat (db_num_bytes d)"
      and big: "unat (db_num_bytes d) \<le> 2 ^ 63" by (auto simp: wf_block_def)
    have cn: "unat c + unat n \<le> unat (db_num_bytes d)"
      unfolding n_def using True get_offset_less by (rule write_chunk_bounds)
    then have cn': "unat (c + n) = unat c + unat n" by (rule unat_plus_bounded)
    have lbs: "length bs = unat n" using cn by (simp add: bs_def len)
    obtain pg where pg: "pages (touch a m) (get_tag a) = Some pg" using touch_page by blast
    have inpage: "unat (get_offset a) + length bs \<le> 1048576"
      using write_chunk_in_page [OF True big, of a] by (simp add: lbs n_def)
    let ?m = "page_put a bs (touch a m)"
    have "c + n \<le> db_num_bytes d" using cn by (simp add: word_le_nat_alt cn')
    from "1.IH" [OF True refl refl, folded a_def, folded n_def, OF "1.prems"(1) this, of ?m]
    obtain m' where
      m': "write_loop d (c + n) ?m = (Inr (), m')" "host m' = host m"
      "byte_at m' = poke (byte_at ?m) (db_address d + (c + n)) (drop (unat (c + n)) (db_data d))"
      by auto
    have "write_loop d c m = (Inr (), m')"
      using True m'(1) cn
      by (subst write_loop.simps)
        (simp add: prog_simps get_page_eq buffer_slice_def Let_def len
          page_store_eq [OF pg inpage] flip: a_def n_def bs_def)
    moreover have "byte_at m' = poke (byte_at m) a (drop (unat c) (db_data d))"
    proof -
      have "db_address d + (c + n) = a + of_nat (length bs)"
        by (simp add: lbs a_def)
      moreover have "bs @ drop (unat (c + n)) (db_data d) = drop (unat c) (db_data d)"
        using append_take_drop_id [of "unat n" "drop (unat c) (db_data d)"]
        by (simp add: bs_def cn' add.commute)
      moreover have "length bs + length (drop (unat (c + n)) (db_data d)) \<le> 2 ^ 64"
        using big cn by (simp add: lbs len cn')
      ultimately show ?thesis
        using m'(3) poke_append [of bs "drop (unat (c + n)) (db_data d)" "byte_at m" a]
        by (simp add: byte_at_page_put [OF pg inpage])
    qed
    ultimately show ?thesis using m'(2) by (simp add: a_def)
  qed
qed

lemma MainMemory_write_eq:
  assumes "wf_block d"
  shows "\<exists>m'. MainMemory_write d m =
      (if access_ok (db_num_bytes d) (db_address d) then (Inr (), m')
       else (Inl (limit_fault (db_address d + db_num_bytes d - 1)), m))
    \<and> host m' = host m \<and> byte_at m' = poke (byte_at m) (db_address d) (db_data d)"
  using write_loop_correct [OF assms, of 0 m]
  by (auto simp: MainMemory_write_def bindM_apply check_access_eq)

lemma read_loop_aligned:
  assumes "c \<le> n" "c = n \<or> get_offset (a + c) = 0"
  shows "\<exists>m'. read_loop a n c acc m = (Inr (acc @ peek (byte_at m) (a + c) (unat n - unat c)), m')
      \<and> byte_at m' = byte_at m"
  using assms
proof (induction a n c acc arbitrary: m rule: read_loop.induct)
  case (1 a n c acc)
  show ?case
  proof (cases "c < n")
    case False
    with "1.prems" show ?thesis
      by (subst read_loop.simps) (simp add: prog_simps)
  next
    case True
    define j where "j = read_chunk n c"
    from True "1.prems" have o: "get_offset (a + c) = 0" by auto
    have nc: "unat (n - c) = unat n - unat c" using True by (simp add: unat_sub less_imp_le)
    have j: "unat j \<le> unat n - unat c" "unat j \<le> 1048576" "j = n - c \<or> j = PAGE_SIZE"
      by (auto simp: j_def read_chunk_def Let_def nc word_less_nat_alt simp flip: nc)
    have cj: "unat (c + j) = unat c + unat j"
      using j(1) True by (intro unat_plus_bounded [of _ _ n]) (simp add: word_less_nat_alt)
    have lt: "unat c < unat n" using True by (simp add: word_less_nat_alt)
    have step: "c + j \<le> n" "c + j = n \<or> get_offset (a + (c + j)) = 0"
    proof -
      show "c + j \<le> n" using j(1) lt by (simp add: word_le_nat_alt cj)
      show "c + j = n \<or> get_offset (a + (c + j)) = 0"
        using j(3) o get_offset_next [of "a + c"] by (auto simp: add.assoc)
    qed
    obtain pg where pg: "pages (touch (a + c) m) (get_tag (a + c)) = Some pg"
      using touch_page by blast
    let ?bs = "peek (byte_at m) (a + c) (unat j)"
    have load: "page_load (get_tag (a + c)) (get_offset (a + c)) j (touch (a + c) m)
        = (Inr ?bs, touch (a + c) m)"
      using page_load_eq [OF pg, of j] j(2) o by simp
    note IH = "1.IH" [OF True refl refl, folded j_def, OF step, of ?bs "touch (a + c) m"]
    from IH obtain m' where
      m': "read_loop a n (c + j) (acc @ ?bs) (touch (a + c) m) =
         (Inr ((acc @ ?bs) @ peek (byte_at m) (a + (c + j)) (unat n - unat (c + j))), m')"
      "byte_at m' = byte_at m"
      by auto
    have "unat n - unat c = unat j + (unat n - unat (c + j))"
      using j(1) by (simp add: cj)
    then have "?bs @ peek (byte_at m) (a + (c + j)) (unat n - unat (c + j))
        = peek (byte_at m) (a + c) (unat n - unat c)"
      by (simp add: peek_append add.assoc)
    with True load m' show ?thesis
      by (subst read_loop.simps)
        (simp add: prog_simps get_page_eq Let_def flip: j_def)
  qed
qed

text \<open>
  A block read is right when the block lies in one page or starts at a page boundary; in
  every other case the first copy runs past the end of its page.
\<close>

lemma MainMemory_read_overrun:
  assumes "unat n \<le> 2 ^ 63" "access_ok n a"
    and "get_offset a \<noteq> 0" "1048576 < unat (get_offset a) + unat n"
  shows "MainMemory_read a n m = (Inl Undefined, touch a m)"
proof -
  have "\<not> get_offset a + n \<le> PAGE_SIZE"
    using assms(1,4) by (simp add: word_le_nat_alt unat_offset_plus)
  moreover have "0 < n"
    using assms(4) unat_get_offset_less [of a] by (cases "n = 0") (auto simp: word_neq_0_conv)
  moreover have "1048576 < unat (get_offset a) + unat (read_chunk n 0)"
    using assms(3,4) by (auto simp: read_chunk_def word_neq_0_conv word_less_nat_alt)
  moreover obtain pg where "pages (touch a m) (get_tag a) = Some pg" using touch_page by blast
  ultimately show ?thesis
    using assms(2)
    by (simp add: MainMemory_read_def read_loop.simps [of a n 0] bindM_apply check_access_eq
        get_page_eq page_load_def prog_simps Let_def not_le)
qed

lemma MainMemory_read_in_page:
  assumes "unat n \<le> 2 ^ 63" "access_ok n a" "unat (get_offset a) + unat n \<le> 1048576"
  shows "MainMemory_read a n m =
     (Inr \<lparr>db_address = a, db_num_bytes = n, db_data = peek (byte_at m) a (unat n)\<rparr>, touch a m)"
proof -
  have "get_offset a + n \<le> PAGE_SIZE"
    using assms(1,3) by (simp add: word_le_nat_alt unat_offset_plus)
  moreover obtain pg where "pages (touch a m) (get_tag a) = Some pg" using touch_page by blast
  ultimately show ?thesis
    using assms(2,3)
    by (simp add: MainMemory_read_def bindM_apply check_access_eq get_page_eq page_load_eq
        prog_simps)
qed

lemma MainMemory_read_aligned:
  assumes "unat n \<le> 2 ^ 63" "access_ok n a" "get_offset a = 0"
  shows "fst (MainMemory_read a n m) =
     Inr \<lparr>db_address = a, db_num_bytes = n, db_data = peek (byte_at m) a (unat n)\<rparr>"
proof (cases "unat n \<le> 1048576")
  case True
  with assms show ?thesis by (simp add: MainMemory_read_in_page)
next
  case False
  then have "\<not> get_offset a + n \<le> PAGE_SIZE"
    using assms(3) by (simp add: word_le_nat_alt)
  with read_loop_aligned [of 0 n a "[]" m] assms show ?thesis
    by (auto simp: MainMemory_read_def bindM_apply check_access_eq prog_simps)
qed

section \<open>Properties\<close>

text \<open>
  C1: At every width, a value written to an accessible address (and not taken for a system
  call) is the value the next read of that address returns, also when it spans two pages.
\<close>

theorem write_then_read:
  "(access_ok 1 a \<and> plain_write env m a (ucast d8) \<longrightarrow>
      fst (bindM (write8 env a d8) (\<lambda>_. read8 a) m) = Inr d8) \<and>
   (access_ok 2 a \<and> plain_write env m a (ucast d16) \<longrightarrow>
      fst (bindM (write16 env a d16) (\<lambda>_. read16 a) m) = Inr d16) \<and>
   (access_ok 4 a \<and> plain_write env m a (ucast d32) \<longrightarrow>
      fst (bindM (write32 env a d32) (\<lambda>_. read32 a) m) = Inr d32) \<and>
   (access_ok 8 a \<and> plain_write env m a d64 \<longrightarrow>
      fst (bindM (write64 env a d64) (\<lambda>_. read64 a) m) = Inr d64)"
  using m8.rd_after_wr [of a env m d8] m16.rd_after_wr [of a env m d16]
    m32.rd_after_wr [of a env m d32] m64.rd_after_wr [of a env m d64]
  by simp

definition no_system_calls :: "'h sys_calls" where
  "no_system_calls = \<lparr>sc_is_system_call = \<lambda>_ _ _. False, sc_system_call = \<lambda>h _ _. Inr h\<rparr>"

definition zeroed_memory :: "unit main_memory" where
  "zeroed_memory = new_main_memory (\<lambda>_ _. 0) ()"

lemmas small_world = access_ok_def MAX_PHYSICAL_ADDRESS_def plain_write_def no_system_calls_def

theorem write_then_read_witness:
  "access_ok 8 0xFFFFC \<and> plain_write no_system_calls zeroed_memory 0xFFFFC 0x1122334455667788 \<and>
   fst (bindM (write64 no_system_calls 0xFFFFC 0x1122334455667788) (\<lambda>_. read64 0xFFFFC)
     zeroed_memory) = Inr 0x1122334455667788"
  using write_then_read [of "0xFFFFC" no_system_calls zeroed_memory 0 0 0 "0x1122334455667788"]
  by (simp add: small_world)

text \<open>
  C2: The paged store behaves as one flat byte array: a 64-bit read returns the eight bytes
  in view at its address and leaves every byte as it was, and a 64-bit write replaces those
  eight bytes and no other byte, whichever pages exist before.
\<close>

theorem word_access_refines_flat_memory:
  assumes "access_ok 8 a" "plain_write env m a d"
  shows "fst (read64 a m) = Inr (le_word (peek (byte_at m) a 8)) \<and>
    byte_at (snd (read64 a m)) = byte_at m \<and>
    fst (write64 env a d m) = Inr () \<and>
    byte_at (snd (write64 env a d m)) = poke (byte_at m) a (le_bytes 8 d)"
  using m64.rd_ok [OF assms(1), where env = env and s = m] m64.wr_ok [of a env m d] assms
  by auto

theorem word_access_refines_flat_memory_witness:
  "fst (write64 no_system_calls 0xFFFFC 0xFF zeroed_memory) = Inr () \<and>
   byte_at (snd (write64 no_system_calls 0xFFFFC 0xFF zeroed_memory))
     = poke (byte_at zeroed_memory) 0xFFFFC (le_bytes 8 (0xFF :: u64))"
  using word_access_refines_flat_memory [of "0xFFFFC" no_system_calls zeroed_memory "0xFF"]
  by (simp add: small_world)

text \<open>
  C3: Exactly which addresses a 64-bit read refuses: those above the last eight bytes of the
  physical address space, except the top seven of the 64-bit range. There the sum
  \<open>address + sizeof(uint64_t) - 1\<close> wraps to a small number and passes the check. A
  refused access raises an access fault and leaves the memory as it was.
\<close>

lemma unat_MAX_PHYSICAL_ADDRESS: "unat MAX_PHYSICAL_ADDRESS = 2 ^ 56 - 1"
proof -
  have v: "MAX_PHYSICAL_ADDRESS = 72057594037927935" by (simp add: MAX_PHYSICAL_ADDRESS_def)
  show ?thesis unfolding v by simp
qed

lemma access_ok_8_iff: "access_ok 8 a \<longleftrightarrow> unat a \<le> 2 ^ 56 - 8 \<or> 2 ^ 64 - 7 \<le> unat a"
proof -
  have "unat (a + 7) = (unat a + 7) mod 2 ^ 64" by (simp add: unat_word_ariths)
  then have "access_ok 8 a \<longleftrightarrow> (unat a + 7) mod 2 ^ 64 \<le> 2 ^ 56 - 1"
    by (simp add: access_ok_def unat_MAX_PHYSICAL_ADDRESS word_le_nat_alt add.commute [of 7])
  then show ?thesis
    using unat_u64_less [of a] by (auto simp: mod_if split: if_splits)
qed

theorem read64_fault_range:
  "(if 2 ^ 56 - 8 < unat a \<and> unat a < 2 ^ 64 - 7
    then read64 a m =
      (Inl (Throw (AccessFault (a + 7) ''Physical address exceeds Sv39 limit'')), m)
    else \<exists>v. fst (read64 a m) = Inr v)"
  by (simp add: read64_def read_value_eq access_ok_8_iff limit_fault_def
      add.commute [of 7 a])

text \<open>
  C4: Writing a block stores its whole buffer at consecutive addresses, across any number of
  pages, and nothing else; the loop always finishes.
\<close>

theorem MainMemory_write_correct:
  assumes "wf_block d" "access_ok (db_num_bytes d) (db_address d)"
  shows "fst (MainMemory_write d m) = Inr () \<and>
    byte_at (snd (MainMemory_write d m)) = poke (byte_at m) (db_address d) (db_data d)"
  using MainMemory_write_eq [OF assms(1), of m] assms(2) by auto

theorem MainMemory_write_correct_witness:
  "fst (MainMemory_write \<lparr>db_address = 0xFFFFF, db_num_bytes = 2, db_data = [1, 2]\<rparr>
     zeroed_memory) = Inr () \<and>
   byte_at (snd (MainMemory_write \<lparr>db_address = 0xFFFFF, db_num_bytes = 2, db_data = [1, 2]\<rparr>
     zeroed_memory)) = poke (byte_at zeroed_memory) 0xFFFFF [1, 2]"
  using MainMemory_write_correct
    [of "\<lparr>db_address = 0xFFFFF, db_num_bytes = 2, db_data = [1, 2]\<rparr>" zeroed_memory]
  by (simp add: wf_block_def small_world)

text \<open>
  C5: A block read returns the block exactly when the block lies within one page or starts
  at a page boundary; every other block makes the copying loop read past the end of a page
  buffer, which is undefined.
\<close>

theorem MainMemory_read_defined_iff:
  assumes "unat n \<le> 2 ^ 63" "access_ok n a"
  shows "fst (MainMemory_read a n m) =
    (if get_offset a = 0 \<or> unat (get_offset a) + unat n \<le> unat PAGE_SIZE
     then Inr \<lparr>db_address = a, db_num_bytes = n, db_data = peek (byte_at m) a (unat n)\<rparr>
     else Inl Undefined)"
  using MainMemory_read_in_page [OF assms, of m] MainMemory_read_aligned [OF assms, of m]
    MainMemory_read_overrun [OF assms, of m]
  by (auto simp: not_le)

theorem MainMemory_read_defined_iff_witness:
  "fst (MainMemory_read 0xFFFFF 2 zeroed_memory) = Inl Undefined"
  using MainMemory_read_defined_iff [of 2 "0xFFFFF" zeroed_memory]
  by (simp add: small_world get_offset_def PAGE_SIZE_value)

text \<open>
  C6: Page allocation is sound: looking up the page of any address succeeds (the assertion
  that no page is allocated twice under one tag never fails), changes no byte in view, and
  every access keeps each page under its own tag.
\<close>

theorem page_table_invariant:
  assumes "wf_memory m"
  shows "(\<exists>m'. get_page a m = (Inr (get_tag a), m') \<and> byte_at m' = byte_at m \<and> wf_memory m') \<and>
    wf_memory (snd (read64 a m)) \<and> wf_memory (snd (read8 a m)) \<and>
    (plain_write env m a d \<longrightarrow> wf_memory (snd (write64 env a d m)))"
  using assms m64.rd_inv [of m a] m8.rd_inv [of m a] m64.wr_inv [of m env a d]
  by (simp add: get_page_eq)

theorem page_table_invariant_witness:
  "wf_memory zeroed_memory \<and> wf_memory (snd (write64 no_system_calls 0x100000 5 zeroed_memory))"
  using page_table_invariant [of zeroed_memory "0x100000" no_system_calls 5]
    wf_memory_new [of "\<lambda>_ _. 0" "()"]
  by (simp add: zeroed_memory_def small_world)

end
