(* ===== verification/Memory_Port.thy ===== *)
theory Memory_Port
  imports Main_Memory
begin

text \<open>
  The base class of every port in \<open>memory_port.h\<close> and \<open>memory_port.cc\<close>: a queue of
  responses, each with the cycle from which it may be sent. The pure virtual methods of
  the class are a record of operations; the locale \<open>memory_port\<close> states what the base
  class relies on of them, and the timing results are proved from these laws once for
  all ports.
\<close>

section \<open>State\<close>

record 't MemoryResponse =
  resp_time :: u64
  resp_data :: 't
  resp_exception :: exc_cause_e
  resp_all_sent :: bool

record 't memory_port =
  current_cycle :: u64
  latency :: u32
  responses :: "'t MemoryResponse list"

text \<open>
  A port holds references to the design under test and to main memory, so its
  operations act on all three. Subclasses extend the record of the port.
\<close>

record ('p, 'd, 'h) port_world =
  port :: 'p
  dut :: 'd
  memory :: "'h main_memory"

text \<open>
  The virtual methods. \<open>send_response\<close> takes its response by reference, so it returns the
  response it leaves behind.
\<close>

record ('w, 't) port_methods =
  can_receive_request :: "'w \<Rightarrow> bool"
  get_request :: "('w, unit) prog"
  can_send_response :: "'w \<Rightarrow> bool"
  send_response :: "'t MemoryResponse \<Rightarrow> ('w, 't MemoryResponse) prog"
  clear_response :: "('w, unit) prog"

type_synonym ('t, 'z, 'd, 'h) base_world = "(('t, 'z) memory_port_scheme, 'd, 'h) port_world"

text \<open>The constructor leaves \<open>current_cycle\<close> uninitialised: its first value is a parameter.\<close>

definition new_memory_port :: "u64 \<Rightarrow> u32 \<Rightarrow> 't memory_port" where
  "new_memory_port c l = \<lparr>current_cycle = c, latency = l, responses = []\<rparr>"

section \<open>Operations\<close>

text \<open>An access to the main memory that the port refers to.\<close>

definition on_memory :: "('h main_memory, 'a) prog \<Rightarrow> (('p, 'd, 'h) port_world, 'a) prog" where
  "on_memory = zoom memory (\<lambda>m w. w\<lparr>memory := m\<rparr>)"

lemma on_memory_apply [prog_simps]:
  "on_memory p w = (case p (memory w) of (r, m') \<Rightarrow> (r, w\<lparr>memory := m'\<rparr>))"
  by (simp add: on_memory_def zoom_apply)

definition set_cycle :: "u64 \<Rightarrow> (('t, 'z, 'd, 'h) base_world, unit) prog" where
  "set_cycle t = modify (\<lambda>w. w\<lparr>port := (port w)\<lparr>current_cycle := t\<rparr>\<rparr>)"

definition queue_response ::
  "'t \<Rightarrow> exc_cause_e \<Rightarrow> (('t, 'z, 'd, 'h) base_world, unit) prog" where
  "queue_response d e =
     modify (\<lambda>w. w\<lparr>port := (port w)\<lparr>responses := responses (port w) @
       [\<lparr>resp_time = current_cycle (port w) + ucast (latency (port w)), resp_data = d,
         resp_exception = e, resp_all_sent = False\<rparr>]\<rparr>\<rparr>)"

definition set_front :: "'t MemoryResponse \<Rightarrow> (('t, 'z, 'd, 'h) base_world, unit) prog" where
  "set_front r = modify (\<lambda>w. w\<lparr>port := (port w)\<lparr>responses := r # tl (responses (port w))\<rparr>\<rparr>)"

definition pop_response :: "(('t, 'z, 'd, 'h) base_world, unit) prog" where
  "pop_response = modify (\<lambda>w. w\<lparr>port := (port w)\<lparr>responses := tl (responses (port w))\<rparr>\<rparr>)"

definition MemoryPort_get_inputs ::
  "(('t, 'z, 'd, 'h) base_world, 't) port_methods \<Rightarrow> u64 \<Rightarrow>
     (('t, 'z, 'd, 'h) base_world, unit) prog" where
  "MemoryPort_get_inputs methods t =
     bindM (set_cycle t) (\<lambda>_.
     bindM (gets (can_receive_request methods)) (\<lambda>ready.
     if ready then get_request methods else ret ()))"

definition MemoryPort_set_outputs ::
  "(('t, 'z, 'd, 'h) base_world, 't) port_methods \<Rightarrow> u64 \<Rightarrow>
     (('t, 'z, 'd, 'h) base_world, unit) prog" where
  "MemoryPort_set_outputs methods t =
     bindM (set_cycle t) (\<lambda>_.
     bindM (clear_response methods) (\<lambda>_.
     bindM (gets (\<lambda>w. responses (port w))) (\<lambda>rs.
     bindM (gets (can_send_response methods)) (\<lambda>can_send.
     if rs \<noteq> [] \<and> resp_time (hd rs) \<le> t \<and> can_send then
       bindM (send_response methods (hd rs)) (\<lambda>front.
       bindM (set_front front) (\<lambda>_.
       if resp_all_sent front then pop_response else ret ()))
     else ret ()))))"

section \<open>The contract of the virtual methods\<close>

text \<open>
  What the base class relies on: a request adds one response due \<open>latency\<close> cycles after
  the current one at the end of the queue, sending a response sends all of it and is always
  possible, and neither sending nor clearing touches the queue or fails.
\<close>

definition response_due :: "('t, 'z) memory_port_scheme \<Rightarrow> 't \<Rightarrow> exc_cause_e \<Rightarrow> 't MemoryResponse" where
  "response_due p d e =
     \<lparr>resp_time = current_cycle p + ucast (latency p), resp_data = d,
      resp_exception = e, resp_all_sent = False\<rparr>"

lemma response_due_inject [simp]: "response_due p d e = response_due p d' e' \<longleftrightarrow> d = d' \<and> e = e'"
  by (simp add: response_due_def)

definition queued ::
  "('t, 'z) memory_port_scheme \<Rightarrow> 't \<Rightarrow> exc_cause_e \<Rightarrow> ('t, 'z) memory_port_scheme" where
  "queued p d e = p\<lparr>responses := responses p @ [response_due p d e]\<rparr>"

lemma queued_simps [simp]:
  "current_cycle (queued p d e) = current_cycle p" "latency (queued p d e) = latency p"
  "responses (queued p d e) = responses p @ [response_due p d e]"
  by (simp_all add: queued_def)

text \<open>The port has taken one more request, and nothing else of its queue changed.\<close>

definition answers ::
  "('t, 'z) memory_port_scheme \<Rightarrow> ('t, 'z) memory_port_scheme \<Rightarrow> bool" where
  "answers p q \<longleftrightarrow> current_cycle q = current_cycle p \<and> latency q = latency p \<and>
     (\<exists>d e. responses q = responses p @ [response_due p d e])"

lemma answers_queued [simp]: "answers p (queued p d e)"
  by (auto simp: answers_def)

lemma queue_response_apply [prog_simps]:
  "queue_response d e w = (Inr (), w\<lparr>port := queued (port w) d e\<rparr>)"
  by (simp add: queue_response_def modify_apply queued_def response_due_def)

definition same_queue ::
  "('t, 'z) memory_port_scheme \<Rightarrow> ('t, 'z) memory_port_scheme \<Rightarrow> bool" where
  "same_queue p q \<longleftrightarrow> current_cycle q = current_cycle p \<and> latency q = latency p \<and>
     responses q = responses p"

text \<open>Programs that leave the queue alone, and programs that answer a request if they return.\<close>

lemma same_queue_refl [simp]: "same_queue p p"
  by (simp add: same_queue_def)

lemma same_queue_trans: "same_queue p q \<Longrightarrow> same_queue q r \<Longrightarrow> same_queue p r"
  by (simp add: same_queue_def)

lemma answers_after_same_queue: "same_queue p q \<Longrightarrow> answers q r \<Longrightarrow> answers p r"
  by (auto simp: same_queue_def answers_def response_due_def)

definition quiet :: "(('t, 'z, 'd, 'h) base_world, 'a) prog \<Rightarrow> bool" where
  "quiet m \<longleftrightarrow> (\<forall>w. same_queue (port w) (port (snd (m w))))"

lemma quietD: "quiet m \<Longrightarrow> m w = (r, w') \<Longrightarrow> same_queue (port w) (port w')"
  unfolding quiet_def by (metis snd_conv)

named_theorems quiet_intros \<open>programs that leave the queue of the port alone\<close>

lemma quiet_ret [quiet_intros]: "quiet (ret x)"
  and quiet_fail [quiet_intros]: "quiet (fail e)"
  and quiet_gets [quiet_intros]: "quiet (gets f)"
  and quiet_of_sum [quiet_intros]: "quiet (of_sum r)"
  and quiet_assertM [quiet_intros]: "quiet (assertM b)"
  by (simp_all add: quiet_def prog_simps)

lemma quiet_on_memory [quiet_intros]: "quiet (on_memory m)"
  by (simp add: quiet_def prog_simps split: prod.split)

lemma quiet_bindM [quiet_intros]: "quiet m \<Longrightarrow> (\<And>x. quiet (k x)) \<Longrightarrow> quiet (bindM m k)"
  unfolding quiet_def
  by (auto simp: bindM_apply split: prod.splits sum.splits) (metis same_queue_trans snd_conv)+

lemma quiet_tryM [quiet_intros]: "quiet m \<Longrightarrow> quiet (tryM m)"
  by (simp add: quiet_def prog_simps split_beta)

lemma quiet_if [quiet_intros]: "(b \<Longrightarrow> quiet m) \<Longrightarrow> (\<not> b \<Longrightarrow> quiet n) \<Longrightarrow> quiet (if b then m else n)"
  by simp

locale memory_port =
  fixes methods :: "(('t, 'z, 'd, 'h) base_world, 't) port_methods"
  assumes request_queues_one:
      "get_request methods w = (Inr (), w') \<Longrightarrow> answers (port w) (port w')"
    and always_can_send: "can_send_response methods w"
    and sends_all: "\<exists>w'. send_response methods r w = (Inr (r\<lparr>resp_all_sent := True\<rparr>), w') \<and>
       port w' = port w \<and> memory w' = memory w"
    and clear_keeps_queue: "\<exists>w'. clear_response methods w = (Inr (), w') \<and>
       same_queue (port w) (port w') \<and> memory w' = memory w"
begin

lemma set_outputs_effect:
  "\<exists>w'. MemoryPort_set_outputs methods t w = (Inr (), w') \<and> memory w' = memory w \<and>
     current_cycle (port w') = t \<and> latency (port w') = latency (port w) \<and>
     responses (port w') =
       (if responses (port w) \<noteq> [] \<and> resp_time (hd (responses (port w))) \<le> t
        then tl (responses (port w)) else responses (port w))"
proof -
  let ?w1 = "w\<lparr>port := (port w)\<lparr>current_cycle := t\<rparr>\<rparr>"
  obtain w2 where w2: "clear_response methods ?w1 = (Inr (), w2)"
    "same_queue (port ?w1) (port w2)" "memory w2 = memory w"
    using clear_keeps_queue [of ?w1] by auto
  obtain w3 where w3: "send_response methods (hd (responses (port w))) w2 =
      (Inr ((hd (responses (port w)))\<lparr>resp_all_sent := True\<rparr>), w3)"
    "port w3 = port w2" "memory w3 = memory w2"
    using sends_all [of "hd (responses (port w))" w2] by auto
  show ?thesis
    using w2 w3 always_can_send
    by (simp add: MemoryPort_set_outputs_def set_cycle_def set_front_def pop_response_def
        prog_simps same_queue_def)
qed

lemma set_outputs_sends_front:
  assumes "responses (port w) = r # rs" "resp_time r \<le> t"
  shows "\<exists>w1 w2. clear_response methods (w\<lparr>port := (port w)\<lparr>current_cycle := t\<rparr>\<rparr>) = (Inr (), w1) \<and>
     send_response methods r w1 = (Inr (r\<lparr>resp_all_sent := True\<rparr>), w2) \<and>
     dut (snd (MemoryPort_set_outputs methods t w)) = dut w2"
proof -
  let ?w1 = "w\<lparr>port := (port w)\<lparr>current_cycle := t\<rparr>\<rparr>"
  obtain w2 where w2: "clear_response methods ?w1 = (Inr (), w2)"
    "same_queue (port ?w1) (port w2)" "memory w2 = memory w"
    using clear_keeps_queue [of ?w1] by auto
  obtain w3 where w3: "send_response methods r w2 = (Inr (r\<lparr>resp_all_sent := True\<rparr>), w3)"
    "port w3 = port w2" "memory w3 = memory w2"
    using sends_all [of r w2] by auto
  show ?thesis
    using w2 w3 always_can_send assms
    by (simp add: MemoryPort_set_outputs_def set_cycle_def set_front_def pop_response_def
        prog_simps same_queue_def)
qed

lemma get_inputs_effect:
  assumes "MemoryPort_get_inputs methods t w = (Inr (), w')"
  shows "current_cycle (port w') = t \<and> latency (port w') = latency (port w) \<and>
    (responses (port w') = responses (port w) \<or>
     (\<exists>r. resp_time r = t + ucast (latency (port w)) \<and> responses (port w') = responses (port w) @ [r]))"
proof -
  let ?w1 = "w\<lparr>port := (port w)\<lparr>current_cycle := t\<rparr>\<rparr>"
  have "w' = ?w1 \<or> get_request methods ?w1 = (Inr (), w')"
    using assms by (auto simp: MemoryPort_get_inputs_def set_cycle_def prog_simps split: if_splits)
  then show ?thesis
    using request_queues_one [of ?w1 w'] by (fastforce simp: response_due_def answers_def)
qed

end

section \<open>The schedule of a port\<close>

text \<open>
  How a harness drives a port: requests are taken once at time 0 before the first cycle,
  and then cycle \<open>c\<close> sends outputs and takes requests at time \<open>c\<close>. Between these calls the
  design is evaluated and other ports run, which may change everything but the port.
  \<open>port_run methods l c w\<close> says that \<open>w\<close> can be reached just before cycle \<open>c\<close>.
\<close>

inductive port_run ::
  "(('t, 'z, 'd, 'h) base_world, 't) port_methods \<Rightarrow> u32 \<Rightarrow> nat \<Rightarrow> ('t, 'z, 'd, 'h) base_world \<Rightarrow> bool"
  for methods l where
  start: "responses (port w) = [] \<Longrightarrow> latency (port w) = l \<Longrightarrow>
     MemoryPort_get_inputs methods 0 w = (Inr (), w') \<Longrightarrow> port_run methods l 0 w'"
| cycle: "port_run methods l c w \<Longrightarrow> port w1 = port w \<Longrightarrow>
     MemoryPort_set_outputs methods (of_nat c) w1 = (Inr (), w2) \<Longrightarrow> port w3 = port w2 \<Longrightarrow>
     MemoryPort_get_inputs methods (of_nat c) w3 = (Inr (), w4) \<Longrightarrow> port_run methods l (Suc c) w4"

text \<open>
  The invariant of the queue before cycle \<open>c\<close>, over the due times \<open>ts\<close> and the latency
  \<open>l\<close>: times grow along the queue with at most one repetition, entry \<open>i\<close> can still leave
  by the cycle after it is due, and no time is further away than the latency.
\<close>

definition on_schedule :: "nat \<Rightarrow> nat \<Rightarrow> nat list \<Rightarrow> bool" where
  "on_schedule l c ts \<longleftrightarrow>
     (\<forall>i j. i < j \<and> j < length ts \<longrightarrow> ts ! i + (j - i) \<le> ts ! j + 1) \<and>
     (\<forall>i < length ts. c + i \<le> ts ! i + 1 \<and> ts ! i < max 1 c + l) \<and>
     (c = 0 \<longrightarrow> length ts \<le> 1)"

lemma on_schedule_start: "on_schedule l 0 []" "on_schedule l 0 [l]"
  by (auto simp: on_schedule_def)

lemma on_schedule_send:
  assumes "on_schedule l c ts"
  defines "ts' \<equiv> if ts \<noteq> [] \<and> hd ts \<le> c then tl ts else ts"
  shows "\<forall>i j. i < j \<and> j < length ts' \<longrightarrow> ts' ! i + (j - i) \<le> ts' ! j + 1"
    and "\<forall>i < length ts'. Suc c + i \<le> ts' ! i + 1 \<and> ts' ! i < max 1 c + l"
    and "c = 0 \<longrightarrow> length ts' \<le> min 1 l"
proof -
  have sorted: "ts ! i + (j - i) \<le> ts ! j + 1" if "i < j" "j < length ts" for i j
    using assms(1) that by (auto simp: on_schedule_def)
  have bounds: "c + i \<le> ts ! i + 1" "ts ! i < max 1 c + l" if "i < length ts" for i
    using assms(1) that by (auto simp: on_schedule_def)
  have shift: "tl ts ! i = ts ! Suc i" if "Suc i < length ts" for i
    using that by (simp add: nth_tl)
  show "\<forall>i j. i < j \<and> j < length ts' \<longrightarrow> ts' ! i + (j - i) \<le> ts' ! j + 1"
    using sorted sorted [of "Suc _" "Suc _"] by (auto simp: ts'_def shift)
  show "\<forall>i < length ts'. Suc c + i \<le> ts' ! i + 1 \<and> ts' ! i < max 1 c + l"
  proof (intro allI impI)
    fix i
    assume i: "i < length ts'"
    show "Suc c + i \<le> ts' ! i + 1 \<and> ts' ! i < max 1 c + l"
    proof (cases "ts \<noteq> [] \<and> hd ts \<le> c")
      case True
      then have "ts' = tl ts" unfolding ts'_def by simp
      with i have "Suc i < length ts" by simp
      with bounds [of "Suc i"] \<open>ts' = tl ts\<close> shift [of i] show ?thesis by simp
    next
      case False
      then have ts': "ts' = ts" unfolding ts'_def by auto
      with i False have "c < ts ! 0" by (cases ts) auto
      moreover have "ts ! 0 + i \<le> ts ! i + 1"
        using sorted [of 0 i] i ts' by (cases "i = 0") auto
      ultimately show ?thesis using bounds [of i] i ts' by simp
    qed
  qed
  show "c = 0 \<longrightarrow> length ts' \<le> min 1 l"
    using assms(1) by (cases ts) (auto simp: on_schedule_def ts'_def)
qed

lemma on_schedule_cycle:
  assumes "on_schedule l c ts"
  defines "ts' \<equiv> if ts \<noteq> [] \<and> hd ts \<le> c then tl ts else ts"
  shows "on_schedule l (Suc c) ts'" and "on_schedule l (Suc c) (ts' @ [c + l])"
proof -
  note send = on_schedule_send [OF assms(1), folded ts'_def]
  show "on_schedule l (Suc c) ts'"
    using send(1,2) by (fastforce simp: on_schedule_def)
  let ?n = "length ts'"
  have new: "ts' ! i + (?n - i) \<le> c + l + 1" if "i < ?n" for i
  proof (cases "c = 0")
    case True
    with send(3) that have "i = 0" "?n = 1" by auto
    then show ?thesis using send(2) that True by auto
  next
    case False
    then have "ts' ! (?n - 1) < c + l" using send(2) that by (auto simp: max_def)
    moreover have "ts' ! i + (?n - 1 - i) \<le> ts' ! (?n - 1) + 1"
    proof (cases "i = ?n - 1")
      case False
      with that have "i < ?n - 1 \<and> ?n - 1 < ?n" by arith
      with send(1) show ?thesis by blast
    qed simp
    ultimately show ?thesis using that by arith
  qed
  have "?n \<le> l"
  proof (cases "c = 0 \<or> ?n = 0")
    case False
    then have "?n - 1 < ?n" by simp
    with send(2) have "Suc c + (?n - 1) \<le> ts' ! (?n - 1) + 1 \<and> ts' ! (?n - 1) < max 1 c + l" by blast
    moreover have "max 1 c = c" "0 < ?n" using False by auto
    ultimately show ?thesis by linarith
  qed (use send(3) in auto)
  then show "on_schedule l (Suc c) (ts' @ [c + l])"
    using send(1,2) new unfolding on_schedule_def
    by (fastforce simp: nth_append less_Suc_eq)
qed

text \<open>The due times of a queue, and the schedule invariant of every reachable state.\<close>

definition due_times :: "('t, 'z) memory_port_scheme \<Rightarrow> nat list" where
  "due_times p = map (\<lambda>r. unat (resp_time r)) (responses p)"

lemma of_nat_le_iff_u64: "c < 2 ^ 64 \<Longrightarrow> (w :: u64) \<le> of_nat c \<longleftrightarrow> unat w \<le> c"
  by (simp add: word_le_nat_alt unat_of_nat_u64)

lemma unat_due_time:
  assumes "c < 2 ^ 63"
  shows "unat (of_nat c + ucast (l :: u32) :: u64) = c + unat l"
proof -
  have l: "unat (ucast l :: u64) = unat l" "unat l < 2 ^ 32"
    using unsigned_less [of l, where ?'a = nat] by (simp_all add: unsigned_ucast_eq take_bit_nat_eq_self)
  have c: "unat (of_nat c :: u64) = c" using assms by (simp add: unat_of_nat_u64)
  show ?thesis
    using l c assms by (simp add: unat_word_ariths)
qed

context memory_port
begin

lemma get_inputs_due_times:
  assumes "MemoryPort_get_inputs methods (of_nat c) w = (Inr (), w')" "c < 2 ^ 63"
  shows "latency (port w') = latency (port w) \<and>
    (due_times (port w') = due_times (port w) \<or>
     due_times (port w') = due_times (port w) @ [c + unat (latency (port w))])"
  using get_inputs_effect [OF assms(1)] assms(2)
  by (auto simp: due_times_def unat_due_time simp del: of_nat_numeral)

lemma set_outputs_due_times:
  assumes "MemoryPort_set_outputs methods (of_nat c) w = (Inr (), w')" "c < 2 ^ 63"
  shows "latency (port w') = latency (port w) \<and>
    due_times (port w') =
      (if due_times (port w) \<noteq> [] \<and> hd (due_times (port w)) \<le> c
       then tl (due_times (port w)) else due_times (port w))"
proof -
  have "c < 2 ^ 64" using assms(2) by simp
  then show ?thesis
    using set_outputs_effect [of "of_nat c" w] assms(1)
    by (auto simp: due_times_def of_nat_le_iff_u64 map_tl hd_map)
qed

theorem run_on_schedule:
  assumes "port_run methods l c w" "c < 2 ^ 63"
  shows "latency (port w) = l \<and> on_schedule (unat l) c (due_times (port w))"
  using assms
proof (induction rule: port_run.induct)
  case (start w w')
  then show ?case
    using get_inputs_due_times [of 0 w w'] on_schedule_start by (auto simp: due_times_def)
next
  case (cycle c w w1 w2 w3 w4)
  then have IH: "latency (port w) = l" "on_schedule (unat l) c (due_times (port w))" and c: "c < 2 ^ 63"
    by simp_all
  have out: "latency (port w2) = l" "due_times (port w2) =
      (if due_times (port w) \<noteq> [] \<and> hd (due_times (port w)) \<le> c
       then tl (due_times (port w)) else due_times (port w))"
    using set_outputs_due_times [OF cycle.hyps(3) c] cycle.hyps(2) IH(1) by simp_all
  show ?case
    using get_inputs_due_times [OF cycle.hyps(5) c] cycle.hyps(4) out on_schedule_cycle [OF IH(2)]
    by auto
qed

text \<open>
  Consequences of the schedule: the queue never holds more than one response beyond the
  latency, and the response at position \<open>i\<close> can be sent by the cycle after the one it is
  due in.
\<close>

lemma run_queue_bounds:
  assumes "port_run methods l c w" "c < 2 ^ 63"
  shows "length (responses (port w)) \<le> unat l + 1 \<and>
    (\<forall>i < length (responses (port w)).
       c + i \<le> unat (resp_time (responses (port w) ! i)) + 1 \<and>
       unat (resp_time (responses (port w) ! i)) \<le> c + unat l)"
proof -
  let ?n = "length (responses (port w))"
  have s: "on_schedule (unat l) c (due_times (port w))"
    using run_on_schedule [OF assms] by simp
  have e: "c + i \<le> unat (resp_time (responses (port w) ! i)) + 1"
    "unat (resp_time (responses (port w) ! i)) < max 1 c + unat l" if "i < ?n" for i
    using s that by (auto simp: on_schedule_def due_times_def)
  have "?n \<le> unat l + 1"
  proof (cases "c = 0 \<or> ?n = 0")
    case True
    then show ?thesis using s by (auto simp: on_schedule_def due_times_def)
  next
    case False
    then show ?thesis using e [of "?n - 1"] by (simp add: max_def)
  qed
  then show ?thesis using e by (fastforce simp: max_def split: if_splits)
qed

end

end
