(* ===== verification/Virtual_Addressing.thy ===== *)
theory Virtual_Addressing
  imports Simulator_Types
begin

text \<open>
  The value classes of \<open>virtual_addressing.h\<close> and \<open>page_table_entry.h\<close>: the address
  translation register, Sv39 addresses and Sv39 page table entries. Each class wraps one
  64-bit \<open>value\<close>, which its accessors take apart with shifts and masks; the lemmas
  give the bits each accessor selects.
\<close>

section \<open>Address translation register\<close>

datatype atp_mode_e =
    ATP_MODE_BARE | ATP_MODE_SV32 | ATP_MODE_SV39 | ATP_MODE_SV48 | ATP_MODE_OTHER nat

definition atp_mode_of :: "nat \<Rightarrow> atp_mode_e" where
  "atp_mode_of n =
     (if n = 0 then ATP_MODE_BARE else if n = 1 then ATP_MODE_SV32
      else if n = 8 then ATP_MODE_SV39 else if n = 9 then ATP_MODE_SV48
      else ATP_MODE_OTHER n)"

definition atp_mode :: "u64 \<Rightarrow> atp_mode_e" where
  "atp_mode value = atp_mode_of (unat (drop_bit 60 value AND 0xF))"

definition atp_address_space_id :: "u64 \<Rightarrow> u32" where
  "atp_address_space_id value = ucast (drop_bit 44 value AND 0xFFFF)"

definition atp_physical_page_number :: "u64 \<Rightarrow> u64" where
  "atp_physical_page_number value = drop_bit 0 value AND 0xFFFFFFFFFFF"

section \<open>Sv39 addresses\<close>

definition Sv39_VALEN :: nat where "Sv39_VALEN = 39"

definition Sv39_PAGESIZE :: u64 where "Sv39_PAGESIZE = 4096"

definition Sv39_PTESIZE :: u64 where "Sv39_PTESIZE = 8"

definition Sv39_LEVELS :: nat where "Sv39_LEVELS = 3"

definition Sv39_ATP_MODE :: atp_mode_e where "Sv39_ATP_MODE = ATP_MODE_SV39"

text \<open>
  The constructor from an offset and three page numbers takes \<open>uint\<close> arguments, so the
  shifts and the sum are carried out in 32 bits before the result is widened.
\<close>

definition Sv39_of_fields :: "u32 \<Rightarrow> u32 \<Rightarrow> u32 \<Rightarrow> u32 \<Rightarrow> u64" where
  "Sv39_of_fields offset ppn0 ppn1 ppn2 =
     ucast (offset
          + push_bit 12 (ppn0 AND 0x1FF)
          + push_bit 21 (ppn1 AND 0x1FF)
          + push_bit 30 (ppn2 AND 0x3FFFFFF) :: u32)"

definition Sv39_offset :: "u64 \<Rightarrow> u32" where
  "Sv39_offset value = ucast (drop_bit 0 value AND 0xFFF)"

definition virtual_page_number :: "u64 \<Rightarrow> int \<Rightarrow> u64" where
  "virtual_page_number value index =
     (if index = 0 then drop_bit 12 value AND 0x1FF
      else if index = 1 then drop_bit 21 value AND 0x1FF
      else if index = 2 then drop_bit 30 value AND 0x1FF
      else drop_bit 12 value AND 0x7FFFFFF)"

section \<open>Page table entries\<close>

definition pte_valid :: "u64 \<Rightarrow> bool" where
  "pte_valid value \<longleftrightarrow> drop_bit 0 value AND 1 \<noteq> 0"

definition pte_readable :: "u64 \<Rightarrow> bool" where
  "pte_readable value \<longleftrightarrow> drop_bit 1 value AND 1 \<noteq> 0"

definition pte_writable :: "u64 \<Rightarrow> bool" where
  "pte_writable value \<longleftrightarrow> drop_bit 2 value AND 1 \<noteq> 0"

definition pte_executable :: "u64 \<Rightarrow> bool" where
  "pte_executable value \<longleftrightarrow> drop_bit 3 value AND 1 \<noteq> 0"

definition pte_user_mode_accessible :: "u64 \<Rightarrow> bool" where
  "pte_user_mode_accessible value \<longleftrightarrow> drop_bit 4 value AND 1 \<noteq> 0"

definition pte_global :: "u64 \<Rightarrow> bool" where
  "pte_global value \<longleftrightarrow> drop_bit 5 value AND 1 \<noteq> 0"

definition pte_accessed :: "u64 \<Rightarrow> bool" where
  "pte_accessed value \<longleftrightarrow> drop_bit 6 value AND 1 \<noteq> 0"

definition pte_dirty :: "u64 \<Rightarrow> bool" where
  "pte_dirty value \<longleftrightarrow> drop_bit 7 value AND 1 \<noteq> 0"

definition physical_page_number :: "u64 \<Rightarrow> int \<Rightarrow> u64" where
  "physical_page_number value index =
     (if index = 0 then drop_bit 10 value AND 0x1FF
      else if index = 1 then drop_bit 19 value AND 0x1FF
      else if index = 2 then drop_bit 28 value AND 0x3FFFFFF
      else drop_bit 10 value AND 0xFFFFFFFFFFF)"

definition pte_set_accessed :: "u64 \<Rightarrow> u64" where
  "pte_set_accessed value = value OR push_bit 6 1"

definition pte_set_dirty :: "u64 \<Rightarrow> u64" where
  "pte_set_dirty value = value OR push_bit 7 1"

section \<open>The bits selected by the accessors\<close>

named_theorems field_simps_sv39 \<open>accessors as bit selections\<close>

lemma test_bit_and_1: "drop_bit n (w :: u64) AND 1 \<noteq> 0 \<longleftrightarrow> bit w n"
  by (metis bit_iff_odd_drop_bit and_one_eq odd_iff_mod_2_eq_one even_iff_mod_2_eq_zero zero_neq_one)

lemma pte_flags [field_simps_sv39]:
  "pte_valid w \<longleftrightarrow> bit w 0" "pte_readable w \<longleftrightarrow> bit w 1" "pte_writable w \<longleftrightarrow> bit w 2"
  "pte_executable w \<longleftrightarrow> bit w 3" "pte_user_mode_accessible w \<longleftrightarrow> bit w 4"
  "pte_global w \<longleftrightarrow> bit w 5" "pte_accessed w \<longleftrightarrow> bit w 6" "pte_dirty w \<longleftrightarrow> bit w 7"
  unfolding pte_valid_def pte_readable_def pte_writable_def pte_executable_def
    pte_user_mode_accessible_def pte_global_def pte_accessed_def pte_dirty_def
  by (rule test_bit_and_1)+

lemma mask_numerals:
  "(0x1FF :: 'a::len word) = mask 9" "(0xFFF :: 'a::len word) = mask 12"
  "(0x3FFFFFF :: 'a::len word) = mask 26" "(0x7FFFFFF :: 'a::len word) = mask 27"
  "(0xFFFFFFFFFFF :: 'a::len word) = mask 44"
  by (simp_all add: mask_eq_exp_minus_1)

lemma and_mask_take_bit: "w AND mask n = take_bit n (w :: 'a::len word)"
  by (simp add: take_bit_eq_mask)

lemmas fields_as_take_bit = mask_numerals and_mask_take_bit

lemma virtual_page_number_take_bit:
  "j < 3 \<Longrightarrow> virtual_page_number v (int j) = take_bit 9 (drop_bit (12 + 9 * j) v)"
  by (auto simp: virtual_page_number_def fields_as_take_bit less_Suc_eq numeral_3_eq_3)

lemma physical_page_number_take_bit:
  "physical_page_number w (- 1) = take_bit 44 (drop_bit 10 w)"
  "physical_page_number w 0 = take_bit 9 (drop_bit 10 w)"
  "physical_page_number w 1 = take_bit 9 (drop_bit 19 w)"
  "physical_page_number w 2 = take_bit 26 (drop_bit 28 w)"
  by (simp_all add: physical_page_number_def fields_as_take_bit)

lemma Sv39_offset_take_bit: "Sv39_offset v = ucast (take_bit 12 v)"
  by (simp add: Sv39_offset_def fields_as_take_bit)

lemma bit_push_one: "k < 64 \<Longrightarrow> bit (push_bit k (1 :: u64)) n \<longleftrightarrow> n = k"
  by (auto simp: bit_exp_iff)

lemma bit_pte_set:
  "bit (pte_set_accessed w) n \<longleftrightarrow> bit w n \<or> n = 6"
  "bit (pte_set_dirty w) n \<longleftrightarrow> bit w n \<or> n = 7"
  unfolding pte_set_accessed_def pte_set_dirty_def bit_or_iff
  using bit_push_one [of 6 n] bit_push_one [of 7 n] by simp_all

text \<open>
  The fields of a constructed address sit side by side, so the 32-bit sum is a disjoint
  union of bits; what does not fit below bit 32 is lost.
\<close>

lemma bit_Sv39_of_fields:
  assumes "take_bit 12 off = off"
  shows "bit (Sv39_of_fields off p0 p1 p2) n \<longleftrightarrow> n < 32 \<and>
    (if n < 12 then bit off n else if n < 21 then bit p0 (n - 12)
     else if n < 30 then bit p1 (n - 21) else bit p2 (n - 30))"
proof -
  have off: "bit off i \<Longrightarrow> i < 12" for i
    using assms by (metis bit_take_bit_iff)
  let ?a = "off OR push_bit 12 (take_bit 9 p0)"
  let ?b = "?a OR push_bit 21 (take_bit 9 p1)"
  let ?c = "?b OR push_bit 30 (take_bit 26 p2)"
  have "off + push_bit 12 (take_bit 9 p0) = ?a"
    by (rule disjunctive_add) (auto simp: bit_simps dest: off)
  moreover have "?a + push_bit 21 (take_bit 9 p1) = ?b"
    by (rule disjunctive_add) (auto simp: bit_simps dest: off)
  moreover have "?b + push_bit 30 (take_bit 26 p2) = ?c"
    by (rule disjunctive_add) (auto simp: bit_simps dest: off)
  ultimately have "Sv39_of_fields off p0 p1 p2 = ucast ?c"
    by (simp add: Sv39_of_fields_def fields_as_take_bit)
  then show ?thesis
    by (auto simp: bit_simps dest: off)
qed

end
