(* ===== verification/Page_Table_Walker.thy ===== *)
theory Page_Table_Walker
  imports Main_Memory Virtual_Addressing
begin

text \<open>
  The Sv39 page table walk of \<open>page_table_walker.cc\<close>. The first part follows
  \<open>PageTableWalkerSv39::translate\<close> step by step; the second states what the algorithm in
  its comment asks for, over the flat view of memory, and proves that the walk finds
  exactly the translations it describes, up to the width of the address it returns.
\<close>

section \<open>The walk\<close>

text \<open>Step 1: the upper bits of the virtual address must match its most significant bit.\<close>

definition invalid_upper_bits :: "MemoryAddress \<Rightarrow> bool" where
  "invalid_upper_bits virtual_address =
     (let msb = (drop_bit (Sv39_VALEN - 1) virtual_address AND 1 \<noteq> 0);
          upper = signed_drop_bit Sv39_VALEN virtual_address
      in (msb \<and> upper \<noteq> - 1) \<or> (\<not> msb \<and> upper \<noteq> 0))"

text \<open>Steps 3 to 5: descend from level \<open>i\<close>, whose table starts at \<open>a\<close>, to a leaf entry.\<close>

fun walk ::
  "MemoryAddress \<Rightarrow> nat \<Rightarrow> MemoryAddress \<Rightarrow> ('h main_memory, nat \<times> MemoryAddress \<times> u64) prog" where
  "walk virtual_address i a =
     (let pte_address = a + virtual_page_number virtual_address (int i) * Sv39_PTESIZE in
      bindM (read64 pte_address) (\<lambda>pte.
      if \<not> pte_valid pte \<or> (\<not> pte_readable pte \<and> pte_writable pte) then
        fail (Throw (PageFault virtual_address ''Invalid page table entry''))
      else if pte_readable pte \<or> pte_executable pte then ret (i, pte_address, pte)
      else (case i of
          0 \<Rightarrow> fail (Throw (PageFault virtual_address ''Didn't find leaf page''))
        | Suc i' \<Rightarrow> walk virtual_address i' (physical_page_number pte (- 1) * Sv39_PAGESIZE))))"

declare walk.simps [simp del]

definition op_reads :: "MemoryOperation \<Rightarrow> bool" where
  "op_reads oper \<longleftrightarrow> oper = MEM_LOAD \<or> oper = MEM_LR \<or> oper = MEM_AMO"

definition op_writes :: "MemoryOperation \<Rightarrow> bool" where
  "op_writes oper \<longleftrightarrow> oper = MEM_STORE \<or> oper = MEM_SC \<or> oper = MEM_AMO"

definition op_executes :: "MemoryOperation \<Rightarrow> bool" where
  "op_executes oper \<longleftrightarrow> oper = MEM_FETCH"

text \<open>Step 6: the condition under which permissions are insufficient.\<close>

definition insufficient_permissions ::
  "u64 \<Rightarrow> MemoryOperation \<Rightarrow> bool \<Rightarrow> bool \<Rightarrow> bool \<Rightarrow> bool" where
  "insufficient_permissions pte oper supervisor sum_bit mxr \<longleftrightarrow>
     (op_reads oper \<and> \<not> (pte_readable pte \<or> (mxr \<and> pte_executable pte))) \<or>
     (op_writes oper \<and> \<not> pte_writable pte) \<or>
     (op_executes oper \<and> \<not> pte_executable pte) \<or>
     (supervisor \<and> pte_user_mode_accessible pte \<and>
        (\<not> sum_bit \<or> (op_executes oper \<and> pte_executable pte))) \<or>
     (\<not> supervisor \<and> \<not> pte_user_mode_accessible pte)"

text \<open>Step 7: some page number below level \<open>i\<close> is not zero.\<close>

definition misaligned_superpage :: "u64 \<Rightarrow> nat \<Rightarrow> bool" where
  "misaligned_superpage pte i = list_ex (\<lambda>j. physical_page_number pte (int j) \<noteq> 0) [0..<i]"

text \<open>Step 8: write the entry back when its accessed or dirty bit has to change.\<close>

definition update_accessed_dirty ::
  "'h sys_calls \<Rightarrow> MemoryOperation \<Rightarrow> MemoryAddress \<Rightarrow> u64 \<Rightarrow> ('h main_memory, u64) prog" where
  "update_accessed_dirty env oper pte_address pte =
     (if \<not> pte_accessed pte \<or> (op_writes oper \<and> \<not> pte_dirty pte) then
        let pte1 = (if \<not> pte_accessed pte then pte_set_accessed pte else pte);
            pte2 = (if op_writes oper \<and> \<not> pte_dirty pte1 then pte_set_dirty pte1 else pte1)
        in bindM (write64 env pte_address pte2) (\<lambda>_. ret pte2)
      else ret pte)"

text \<open>Step 9: the physical address; the page numbers pass through variables of type \<open>uint\<close>.\<close>

definition physical_address :: "MemoryAddress \<Rightarrow> nat \<Rightarrow> u64 \<Rightarrow> MemoryAddress" where
  "physical_address va i pte =
     (let offset = Sv39_offset va;
          ppn0 = ucast (if i > 0 then virtual_page_number va 0 else physical_page_number pte 0);
          ppn1 = ucast (if i > 1 then virtual_page_number va 1 else physical_page_number pte 1);
          ppn2 = ucast (if i > 2 then virtual_page_number va 2 else physical_page_number pte 2)
      in Sv39_of_fields offset ppn0 ppn1 ppn2)"

definition translate ::
  "'h sys_calls \<Rightarrow> MemoryAddress \<Rightarrow> MemoryOperation \<Rightarrow> bool \<Rightarrow> bool \<Rightarrow> bool \<Rightarrow> u64 \<Rightarrow>
     ('h main_memory, MemoryAddress) prog" where
  "translate env virtual_address oper supervisor sum_bit mxr atp =
     bindM (assertM (atp_mode atp = Sv39_ATP_MODE)) (\<lambda>_.
     if invalid_upper_bits virtual_address then
       fail (Throw (PageFault virtual_address ''Invalid upper bits of virtual address''))
     else
       bindM (walk virtual_address (Sv39_LEVELS - 1)
               (atp_physical_page_number atp * Sv39_PAGESIZE)) (\<lambda>(i, pte_address, pte).
       if insufficient_permissions pte oper supervisor sum_bit mxr then
         fail (Throw (PageFault virtual_address ''Insufficient permissions''))
       else if i > 0 \<and> misaligned_superpage pte i then
         fail (Throw (PageFault virtual_address ''Misaligned superpage''))
       else
         bindM (update_accessed_dirty env oper pte_address pte) (\<lambda>pte'.
         ret (physical_address virtual_address i pte'))))"

section \<open>What the algorithm asks for\<close>

text \<open>
  The entry at an address of the flat memory, and the leaf entries that a walk from
  level \<open>i\<close> with table \<open>a\<close> leads to: \<open>leaf_entry f va i a j pa pte\<close> says that the leaf is
  \<open>pte\<close>, found at level \<open>j\<close> and address \<open>pa\<close>. Reading an entry beyond the
  physical address space is an access fault, so it is a side condition of both rules.
\<close>

definition entry_at :: "(MemoryAddress \<Rightarrow> u8) \<Rightarrow> MemoryAddress \<Rightarrow> u64" where
  "entry_at f a = le_word (peek f a 8)"

definition entry_address :: "MemoryAddress \<Rightarrow> nat \<Rightarrow> MemoryAddress \<Rightarrow> MemoryAddress" where
  "entry_address va i a = a + 8 * take_bit 9 (drop_bit (12 + 9 * i) va)"

definition entry_ok :: "u64 \<Rightarrow> bool" where
  "entry_ok pte \<longleftrightarrow> bit pte 0 \<and> (bit pte 2 \<longrightarrow> bit pte 1)"

definition entry_leaf :: "u64 \<Rightarrow> bool" where
  "entry_leaf pte \<longleftrightarrow> bit pte 1 \<or> bit pte 3"

inductive leaf_entry ::
  "(MemoryAddress \<Rightarrow> u8) \<Rightarrow> MemoryAddress \<Rightarrow> nat \<Rightarrow> MemoryAddress \<Rightarrow>
     nat \<Rightarrow> MemoryAddress \<Rightarrow> u64 \<Rightarrow> bool"
  for f va where
  leaf: "access_ok 8 (entry_address va i a) \<Longrightarrow> pte = entry_at f (entry_address va i a) \<Longrightarrow>
     entry_ok pte \<Longrightarrow> entry_leaf pte \<Longrightarrow> leaf_entry f va i a i (entry_address va i a) pte"
| pointer: "access_ok 8 (entry_address va (Suc i) a) \<Longrightarrow>
     p = entry_at f (entry_address va (Suc i) a) \<Longrightarrow> entry_ok p \<Longrightarrow> \<not> entry_leaf p \<Longrightarrow>
     leaf_entry f va i (push_bit 12 (take_bit 44 (drop_bit 10 p))) j pa pte \<Longrightarrow>
     leaf_entry f va (Suc i) a j pa pte"

inductive_simps leaf_entry_0: "leaf_entry f va 0 a j pa pte"
inductive_simps leaf_entry_Suc: "leaf_entry f va (Suc i) a j pa pte"

definition canonical :: "MemoryAddress \<Rightarrow> bool" where
  "canonical va \<longleftrightarrow> (\<forall>n. 39 \<le> n \<and> n < 64 \<longrightarrow> bit va n = bit va 38)"

text \<open>
  Which accesses a leaf entry permits: the operation's own permission bit, and the user
  bit against the privilege mode, where supervisor mode may use user pages under \<open>sum\<close>
  but never execute from them.
\<close>

definition permitted :: "u64 \<Rightarrow> MemoryOperation \<Rightarrow> bool \<Rightarrow> bool \<Rightarrow> bool \<Rightarrow> bool" where
  "permitted pte oper supervisor sum_bit mxr \<longleftrightarrow>
     (op_reads oper \<longrightarrow> bit pte 1 \<or> (mxr \<and> bit pte 3)) \<and>
     (op_writes oper \<longrightarrow> bit pte 2) \<and> (op_executes oper \<longrightarrow> bit pte 3) \<and>
     (if supervisor then bit pte 4 \<longrightarrow> sum_bit \<and> \<not> op_executes oper else bit pte 4)"

definition sv39_leaf ::
  "(MemoryAddress \<Rightarrow> u8) \<Rightarrow> MemoryAddress \<Rightarrow> MemoryOperation \<Rightarrow> bool \<Rightarrow> bool \<Rightarrow> bool \<Rightarrow> u64 \<Rightarrow>
     nat \<Rightarrow> MemoryAddress \<Rightarrow> u64 \<Rightarrow> bool" where
  "sv39_leaf f va oper supervisor sum_bit mxr atp j pa pte \<longleftrightarrow>
     canonical va \<and> leaf_entry f va 2 (push_bit 12 (take_bit 44 atp)) j pa pte \<and>
     permitted pte oper supervisor sum_bit mxr \<and> take_bit (9 * j) (drop_bit 10 pte) = 0"

text \<open>The physical address of the translation: the page number of the entry above level
  \<open>j\<close>, and the virtual address below it.\<close>

definition sv39_physical :: "MemoryAddress \<Rightarrow> nat \<Rightarrow> u64 \<Rightarrow> MemoryAddress" where
  "sv39_physical va j pte =
     push_bit (12 + 9 * j) (drop_bit (9 * j) (take_bit 44 (drop_bit 10 pte)))
       OR take_bit (12 + 9 * j) va"

definition mark_used :: "MemoryOperation \<Rightarrow> u64 \<Rightarrow> u64" where
  "mark_used oper pte =
     (if op_writes oper then pte_set_dirty (pte_set_accessed pte) else pte_set_accessed pte)"

section \<open>The walk meets the specification\<close>

subsection \<open>Address and entry arithmetic\<close>

lemma times_page_size: "w * Sv39_PAGESIZE = push_bit 12 w"
  by (simp add: Sv39_PAGESIZE_def push_bit_eq_mult)

lemma walk_entry_address:
  "i < 3 \<Longrightarrow> a + virtual_page_number va (int i) * Sv39_PTESIZE = entry_address va i a"
  by (simp add: entry_address_def virtual_page_number_take_bit Sv39_PTESIZE_def mult.commute)

lemma read64_entry:
  "read64 x m =
     (if access_ok 8 x then (Inr (entry_at (byte_at m) x), touch_span 8 x m)
      else (Inl (limit_fault (x + 8 - 1)), m))"
  by (simp add: read64_def read_value_eq entry_at_def)

lemma entry_flags:
  "entry_ok pte \<longleftrightarrow> pte_valid pte \<and> (pte_readable pte \<or> \<not> pte_writable pte)"
  "entry_leaf pte \<longleftrightarrow> pte_readable pte \<or> pte_executable pte"
  by (auto simp: entry_ok_def entry_leaf_def field_simps_sv39)

text \<open>One level of the walk, over the flat view.\<close>

lemma walk_step:
  assumes "i < 3"
  shows "walk va i a m =
    (let x = entry_address va i a; pte = entry_at (byte_at m) x; m' = touch_span 8 x m in
     if \<not> access_ok 8 x then (Inl (limit_fault (x + 8 - 1)), m)
     else if \<not> entry_ok pte then (Inl (Throw (PageFault va ''Invalid page table entry'')), m')
     else if entry_leaf pte then (Inr (i, x, pte), m')
     else case i of
         0 \<Rightarrow> (Inl (Throw (PageFault va ''Didn't find leaf page'')), m')
       | Suc i' \<Rightarrow> walk va i' (push_bit 12 (take_bit 44 (drop_bit 10 pte))) m')"
  using assms
  by (subst walk.simps)
    (auto simp: walk_entry_address bindM_apply read64_entry entry_flags fail_apply ret_apply
      Let_def times_page_size physical_page_number_take_bit split: nat.split)

lemma walk_frame:
  "i < 3 \<Longrightarrow> byte_at (snd (walk va i a m)) = byte_at m \<and> host (snd (walk va i a m)) = host m"
proof (induction i arbitrary: a m)
  case 0
  then show ?case by (simp add: walk_step Let_def)
next
  case (Suc i)
  then show ?case by (simp add: walk_step [of "Suc i"] Let_def)
qed

lemma walk_iff_leaf_entry:
  "i < 3 \<Longrightarrow>
     fst (walk va i a m) = Inr (j, pa, pte) \<longleftrightarrow> leaf_entry (byte_at m) va i a j pa pte"
proof (induction i arbitrary: a m)
  case 0
  then show ?case by (auto simp: walk_step Let_def leaf_entry_0)
next
  case (Suc i)
  have "fst (walk va (Suc i) a m) = Inr (j, pa, pte) \<longleftrightarrow>
     (let x = entry_address va (Suc i) a; p = entry_at (byte_at m) x in
      access_ok 8 x \<and> entry_ok p \<and>
      (if entry_leaf p then j = Suc i \<and> pa = x \<and> pte = p
       else leaf_entry (byte_at m) va i (push_bit 12 (take_bit 44 (drop_bit 10 p))) j pa pte))"
    using Suc by (auto simp: walk_step [of "Suc i"] Let_def)
  then show ?case by (auto simp: leaf_entry_Suc Let_def)
qed

lemma walk_failure:
  "i < 3 \<Longrightarrow> fst (walk va i a m) = Inl e \<Longrightarrow>
     (\<exists>msg. e = Throw (PageFault va msg)) \<or> (\<exists>x. e = limit_fault x)"
proof (induction i arbitrary: a m)
  case 0
  then show ?case by (auto simp: walk_step Let_def split: if_splits)
next
  case (Suc i)
  from Suc.prems(2) show ?case
    using Suc.prems(1) Suc.IH
    by (fastforce simp: walk_step [of "Suc i"] Let_def split: if_splits)
qed

lemma leaf_entry_facts:
  "leaf_entry f va i a j pa pte \<Longrightarrow> j \<le> i \<and> access_ok 8 pa \<and> pte = entry_at f pa"
  by (induction rule: leaf_entry.induct) auto

subsection \<open>Checks\<close>

lemma word_all_bits:
  "w = (if b then - 1 else 0) \<longleftrightarrow> (\<forall>n < 64. bit w n = b)" for w :: u64
  by (auto simp: bit_eq_iff dest: bit_imp_le_length)

lemma invalid_upper_bits_iff: "invalid_upper_bits va \<longleftrightarrow> \<not> canonical va"
proof -
  have s: "bit (signed_drop_bit 39 va) n \<longleftrightarrow> bit va (if n < 25 then 39 + n else 63)"
    if "n < 64" for n
    using that by (auto simp: bit_simps min_def)
  have *: "signed_drop_bit 39 va = (if b then - 1 else 0) \<longleftrightarrow> (\<forall>n. 39 \<le> n \<and> n < 64 \<longrightarrow> bit va n = b)"
    for b
  proof -
    have "signed_drop_bit 39 va = (if b then - 1 else 0) \<longleftrightarrow>
        (\<forall>n < 64. bit va (if n < 25 then 39 + n else 63) = b)"
      unfolding word_all_bits by (simp only: s cong: imp_cong)
    also have "\<dots> \<longleftrightarrow> (\<forall>n. 39 \<le> n \<and> n < 64 \<longrightarrow> bit va n = b)"
    proof
      assume h: "\<forall>n < 64. bit va (if n < 25 then 39 + n else 63) = b"
      show "\<forall>n. 39 \<le> n \<and> n < 64 \<longrightarrow> bit va n = b"
      proof (rule allI, rule impI)
        fix n :: nat
        assume "39 \<le> n \<and> n < 64"
        then have "n - 39 < 64" "n - 39 < 25" "39 + (n - 39) = n" by auto
        with h show "bit va n = b" by metis
      qed
    qed auto
    finally show ?thesis .
  qed
  have "drop_bit (Sv39_VALEN - 1) va AND 1 \<noteq> 0 \<longleftrightarrow> bit va 38"
    by (simp add: Sv39_VALEN_def test_bit_and_1)
  then show ?thesis
    using *[of True] *[of False]
    by (auto simp: invalid_upper_bits_def Let_def canonical_def Sv39_VALEN_def)
qed

lemma insufficient_permissions_iff:
  "insufficient_permissions pte oper supervisor sum_bit mxr \<longleftrightarrow>
     \<not> permitted pte oper supervisor sum_bit mxr"
  by (auto simp: insufficient_permissions_def permitted_def field_simps_sv39)

lemma misaligned_superpage_iff:
  assumes "j < 3"
  shows "misaligned_superpage pte j \<longleftrightarrow> take_bit (9 * j) (drop_bit 10 pte) \<noteq> 0"
proof -
  have two: "take_bit 18 w = 0 \<longleftrightarrow> take_bit 9 w = 0 \<and> take_bit 9 (drop_bit 9 w) = 0" for w :: u64
  proof -
    have "take_bit 18 w = 0 \<longleftrightarrow> (\<forall>n < 18. \<not> bit w n)"
      by (auto simp: bit_eq_iff bit_simps)
    moreover have "take_bit 9 w = 0 \<longleftrightarrow> (\<forall>n < 9. \<not> bit w n)"
      by (auto simp: bit_eq_iff bit_simps)
    moreover have "take_bit 9 (drop_bit 9 w) = 0 \<longleftrightarrow> (\<forall>n < 9. \<not> bit w (n + 9))"
      by (auto simp: bit_eq_iff bit_simps add.commute)
    moreover have "(\<forall>n < 18. \<not> bit w n) \<longleftrightarrow> (\<forall>n < 9. \<not> bit w n) \<and> (\<forall>n < 9. \<not> bit w (n + 9))"
    proof (intro iffI conjI allI impI)
      fix n :: nat
      assume h: "(\<forall>n < 9. \<not> bit w n) \<and> (\<forall>n < 9. \<not> bit w (n + 9))" and "n < 18"
      then show "\<not> bit w n" by (cases "n < 9") (auto dest: spec [of _ "n - 9"])
    qed auto
    ultimately show ?thesis by blast
  qed
  from assms consider "j = 0" | "j = 1" | "j = 2" by linarith
  then show ?thesis
    by cases
      (simp_all add: misaligned_superpage_def physical_page_number_take_bit two
        upt_rec numeral_2_eq_2)
qed

subsection \<open>The translated address\<close>

lemma bit_sv39_physical:
  assumes "j < 3" "n < 32"
  shows "bit (sv39_physical va j pte) n \<longleftrightarrow>
    (if n < 12 + 9 * j then bit va n else bit pte (n - 2))"
proof -
  have "n - (12 + 9 * j) + 9 * j + 10 = n - 2" if "12 + 9 * j \<le> n"
    using that by simp
  then show ?thesis
    using assms by (auto simp: sv39_physical_def bit_simps algebra_simps)
qed

lemma physical_address_eq:
  assumes "j < 3"
  shows "physical_address va j pte = take_bit 32 (sv39_physical va j pte)"
proof (rule bit_word_eqI)
  fix n
  assume "n < LENGTH(64)"
  then have n: "n < 64" by simp
  have o: "take_bit 12 (Sv39_offset va) = Sv39_offset va"
    by (simp add: Sv39_offset_take_bit unsigned_take_bit_eq)
  have vpn: "virtual_page_number va 0 = take_bit 9 (drop_bit 12 va)"
    "virtual_page_number va 1 = take_bit 9 (drop_bit 21 va)"
    using virtual_page_number_take_bit [of 0 va] virtual_page_number_take_bit [of 1 va] by simp_all
  have j: "j = 0 \<or> j = 1 \<or> j = 2" using assms by linarith
  have "bit (physical_address va j pte) n \<longleftrightarrow>
      n < 32 \<and> (if n < 12 + 9 * j then bit va n else bit pte (n - 2))"
    unfolding physical_address_def Let_def bit_Sv39_of_fields [OF o]
    using j n
    by (auto simp: vpn physical_page_number_take_bit Sv39_offset_take_bit bit_simps)
  then show "bit (physical_address va j pte) n = bit (take_bit 32 (sv39_physical va j pte)) n"
    using bit_sv39_physical [OF assms, of n va pte] by (auto simp: bit_take_bit_iff)
qed

lemma bit_mark_used: "bit (mark_used oper pte) n \<longleftrightarrow> bit pte n \<or> n = 6 \<or> (op_writes oper \<and> n = 7)"
  by (auto simp: mark_used_def bit_pte_set)

lemma sv39_physical_mark_used: "j < 3 \<Longrightarrow> sv39_physical va j (mark_used oper pte) = sv39_physical va j pte"
proof -
  have "drop_bit 10 (mark_used oper pte) = drop_bit 10 pte"
  proof (rule bit_word_eqI)
    fix n
    assume "n < LENGTH(64)"
    show "bit (drop_bit 10 (mark_used oper pte)) n = bit (drop_bit 10 pte) n"
      by (simp add: bit_drop_bit_eq bit_mark_used)
  qed
  then show ?thesis by (simp add: sv39_physical_def)
qed

subsection \<open>Accessed and dirty bits\<close>

lemma poke_same: "poke f a (le_bytes 8 (entry_at f a)) = f"
proof -
  have "le_bytes 8 (entry_at f a) = peek f a 8"
    using le_bytes_le_word [of "peek f a 8", where 'a = 64] by (simp add: entry_at_def)
  then show ?thesis by (intro ext) (simp add: poke_def nth_peek)
qed

lemma mark_used_set:
  "mark_used oper pte =
     (let pte1 = (if \<not> pte_accessed pte then pte_set_accessed pte else pte)
      in if op_writes oper \<and> \<not> pte_dirty pte1 then pte_set_dirty pte1 else pte1)"
proof (rule bit_word_eqI)
  fix n
  assume "n < LENGTH(64)"
  show "bit (mark_used oper pte) n = bit (let pte1 = (if \<not> pte_accessed pte then pte_set_accessed pte else pte)
      in if op_writes oper \<and> \<not> pte_dirty pte1 then pte_set_dirty pte1 else pte1) n"
    by (auto simp: bit_mark_used Let_def field_simps_sv39 bit_pte_set)
qed

lemma update_accessed_dirty_eq:
  assumes "access_ok 8 pa" "pte = entry_at (byte_at m) pa"
    and "plain_write env m pa (mark_used oper pte)"
  shows "\<exists>m'. update_accessed_dirty env oper pa pte m = (Inr (mark_used oper pte), m') \<and>
     byte_at m' = poke (byte_at m) pa (le_bytes 8 (mark_used oper pte)) \<and> host m' = host m"
proof (cases "\<not> pte_accessed pte \<or> (op_writes oper \<and> \<not> pte_dirty pte)")
  case True
  then show ?thesis
    using assms
    by (simp add: update_accessed_dirty_def mark_used_set [symmetric, unfolded Let_def] Let_def
        bindM_apply write64_def write_value_eq byte_at_put_span ret_apply)
next
  case False
  then have "mark_used oper pte = pte" by (auto simp: mark_used_set Let_def)
  moreover from False have "update_accessed_dirty env oper pa pte m = ret pte m"
    unfolding update_accessed_dirty_def by (simp only: if_False)
  ultimately show ?thesis
    using assms(2) by (simp add: ret_apply poke_same)
qed

subsection \<open>Translation\<close>

lemma leaf_entry_unique:
  assumes "leaf_entry f va i a j pa pte" "leaf_entry f va i a j' pa' pte'"
  shows "j' = j \<and> pa' = pa \<and> pte' = pte"
  using assms
proof (induction rule: leaf_entry.induct)
  case (leaf i a pte)
  then show ?case by (auto elim: leaf_entry.cases)
next
  case (pointer i a p j pa pte)
  then show ?case by (auto simp: leaf_entry_Suc)
qed

lemma sv39_leaf_unique:
  assumes "sv39_leaf f va oper sv sm mx atp j pa pte" "sv39_leaf f va oper sv sm mx atp j' pa' pte'"
  shows "j' = j \<and> pa' = pa \<and> pte' = pte"
  using assms leaf_entry_unique unfolding sv39_leaf_def by blast

lemma walk_result:
  assumes "leaf_entry (byte_at m) va 2 a j pa pte"
  obtains m' where "walk va 2 a m = (Inr (j, pa, pte), m')" "byte_at m' = byte_at m" "host m' = host m"
proof -
  have "fst (walk va 2 a m) = Inr (j, pa, pte)"
    using assms by (simp add: walk_iff_leaf_entry)
  then show ?thesis
    using walk_frame [of 2 va a m] that by (cases "walk va 2 a m") auto
qed

lemma atp_root: "atp_physical_page_number atp * Sv39_PAGESIZE = push_bit 12 (take_bit 44 atp)"
  by (simp add: atp_physical_page_number_def fields_as_take_bit times_page_size)

lemma translate_success:
  assumes leaf: "sv39_leaf (byte_at m) va oper sv sm mx atp j pa pte"
    and mode: "atp_mode atp = ATP_MODE_SV39"
    and plain: "plain_write env m pa (mark_used oper pte)"
  shows "\<exists>m'. translate env va oper sv sm mx atp m = (Inr (take_bit 32 (sv39_physical va j pte)), m')
     \<and> byte_at m' = poke (byte_at m) pa (le_bytes 8 (mark_used oper pte)) \<and> host m' = host m"
proof -
  from leaf have can: "canonical va" and perm: "permitted pte oper sv sm mx"
    and entry: "leaf_entry (byte_at m) va 2 (push_bit 12 (take_bit 44 atp)) j pa pte"
    and super: "take_bit (9 * j) (drop_bit 10 pte) = 0" by (auto simp: sv39_leaf_def)
  from leaf_entry_facts [OF entry] have j: "j < 3" and ok: "access_ok 8 pa"
    and pte: "pte = entry_at (byte_at m) pa" by auto
  from entry obtain m1 where w: "walk va 2 (push_bit 12 (take_bit 44 atp)) m = (Inr (j, pa, pte), m1)"
    and m1: "byte_at m1 = byte_at m" "host m1 = host m" by (rule walk_result)
  have "plain_write env m1 pa (mark_used oper pte)"
    using plain m1 by (simp add: plain_write_def)
  with update_accessed_dirty_eq [of pa pte m1 env oper] ok pte m1 obtain m' where
    u: "update_accessed_dirty env oper pa pte m1 = (Inr (mark_used oper pte), m')"
    and m': "byte_at m' = poke (byte_at m) pa (le_bytes 8 (mark_used oper pte))" "host m' = host m"
    by auto
  have "translate env va oper sv sm mx atp m =
      (Inr (physical_address va j (mark_used oper pte)), m')"
    using can perm super w u mode j
    by (simp add: translate_def bindM_apply assertM_apply Sv39_ATP_MODE_def invalid_upper_bits_iff
        insufficient_permissions_iff misaligned_superpage_iff atp_root Sv39_LEVELS_def ret_apply)
  then show ?thesis
    using m' j by (simp add: physical_address_eq sv39_physical_mark_used)
qed

text \<open>The walk ends at the same address if the entry is not memory but a system call.\<close>

lemma update_accessed_dirty_call:
  assumes "hosted env" "\<not> plain_write env m pa d"
  shows "\<exists>m'. update_accessed_dirty env oper pa pte m = (Inr (mark_used oper pte), m')"
proof (cases "\<not> pte_accessed pte \<or> (op_writes oper \<and> \<not> pte_dirty pte)")
  case True
  then show ?thesis
    using writes_call(1) [OF assms, of 8 "mark_used oper pte"]
    by (auto simp: update_accessed_dirty_def mark_used_set [symmetric, unfolded Let_def] Let_def bindM_apply write64_def ret_apply)
next
  case False
  then have "mark_used oper pte = pte" by (auto simp: mark_used_set Let_def)
  moreover from False have "update_accessed_dirty env oper pa pte m = ret pte m"
    unfolding update_accessed_dirty_def by (simp only: if_False)
  ultimately show ?thesis by (simp add: ret_apply)
qed

lemma translate_returns:
  assumes leaf: "sv39_leaf (byte_at m) va oper sv sm mx atp j pa pte"
    and mode: "atp_mode atp = ATP_MODE_SV39" and env: "hosted env"
  shows "\<exists>m'. translate env va oper sv sm mx atp m = (Inr (take_bit 32 (sv39_physical va j pte)), m')"
proof (cases "plain_write env m pa (mark_used oper pte)")
  case True
  then show ?thesis using translate_success [OF leaf mode True] by blast
next
  case False
  from leaf have can: "canonical va" and perm: "permitted pte oper sv sm mx"
    and entry: "leaf_entry (byte_at m) va 2 (push_bit 12 (take_bit 44 atp)) j pa pte"
    and super: "take_bit (9 * j) (drop_bit 10 pte) = 0" by (auto simp: sv39_leaf_def)
  from leaf_entry_facts [OF entry] have j: "j < 3" by auto
  from entry obtain m1 where w: "walk va 2 (push_bit 12 (take_bit 44 atp)) m = (Inr (j, pa, pte), m1)"
    and m1: "host m1 = host m" by (rule walk_result)
  have "\<not> plain_write env m1 pa (mark_used oper pte)" using False m1 by (simp add: plain_write_def)
  from update_accessed_dirty_call [OF env this, of oper pte] obtain m' where
    u: "update_accessed_dirty env oper pa pte m1 = (Inr (mark_used oper pte), m')" by blast
  have "translate env va oper sv sm mx atp m = (Inr (physical_address va j (mark_used oper pte)), m')"
    using can perm super w u mode j
    by (simp add: translate_def bindM_apply assertM_apply Sv39_ATP_MODE_def invalid_upper_bits_iff
        insufficient_permissions_iff misaligned_superpage_iff atp_root Sv39_LEVELS_def ret_apply)
  then show ?thesis using j by (simp add: physical_address_eq sv39_physical_mark_used)
qed

definition table_fault :: "MemoryAddress \<Rightarrow> failure \<Rightarrow> bool" where
  "table_fault va e \<longleftrightarrow> (\<exists>msg. e = Throw (PageFault va msg)) \<or> (\<exists>x. e = limit_fault x)"

lemma translate_failure:
  assumes noleaf: "\<And>j pa pte. \<not> sv39_leaf (byte_at m) va oper sv sm mx atp j pa pte"
    and mode: "atp_mode atp = ATP_MODE_SV39"
  shows "\<exists>e m'. translate env va oper sv sm mx atp m = (Inl e, m') \<and> table_fault va e
     \<and> byte_at m' = byte_at m \<and> host m' = host m"
proof (cases "canonical va")
  case False
  then show ?thesis
    using mode by (simp add: translate_def bindM_apply assertM_apply Sv39_ATP_MODE_def
        invalid_upper_bits_iff fail_apply table_fault_def)
next
  case True
  let ?a = "push_bit 12 (take_bit 44 atp)"
  obtain r m1 where w: "walk va 2 ?a m = (r, m1)" by fastforce
  with walk_frame [of 2 va ?a m] have m1: "byte_at m1 = byte_at m" "host m1 = host m" by auto
  show ?thesis
  proof (cases r)
    case (Inl e)
    with w walk_failure [of 2 va ?a m e] have "table_fault va e" by (auto simp: table_fault_def)
    with Inl w m1 True mode show ?thesis
      by (simp add: translate_def bindM_apply assertM_apply Sv39_ATP_MODE_def
          invalid_upper_bits_iff atp_root Sv39_LEVELS_def)
  next
    case (Inr x)
    then obtain j pa pte where x: "x = (j, pa, pte)" by (cases x) auto
    with Inr w have entry: "leaf_entry (byte_at m) va 2 ?a j pa pte"
      using walk_iff_leaf_entry [of 2 va ?a m j pa pte] by simp
    then have j: "j < 3" using leaf_entry_facts by fastforce
    have "\<not> (permitted pte oper sv sm mx \<and> take_bit (9 * j) (drop_bit 10 pte) = 0)"
      using noleaf [of j pa pte] True entry by (auto simp: sv39_leaf_def)
    then have bad: "insufficient_permissions pte oper sv sm mx \<or> (0 < j \<and> misaligned_superpage pte j)"
      using j by (cases "j = 0") (auto simp: insufficient_permissions_iff misaligned_superpage_iff)
    show ?thesis
      using Inr x w m1 True mode bad
      by (auto simp: translate_def bindM_apply assertM_apply Sv39_ATP_MODE_def
          invalid_upper_bits_iff atp_root Sv39_LEVELS_def fail_apply table_fault_def)
  qed
qed

section \<open>Properties\<close>

text \<open>
  C7: The walk finds exactly the translations of the algorithm in the comment: it returns an
  address if and only if the flat memory holds a leaf entry that the algorithm accepts for
  this access, and the address is the algorithm's physical address reduced to 32 bits.
\<close>

theorem translate_refines_sv39:
  assumes "atp_mode atp = ATP_MODE_SV39"
    and "\<And>j pa pte. sv39_leaf (byte_at m) va oper sv sm mx atp j pa pte \<Longrightarrow>
           plain_write env m pa (mark_used oper pte)"
  shows "fst (translate env va oper sv sm mx atp m) = Inr x \<longleftrightarrow>
    (\<exists>j pa pte. sv39_leaf (byte_at m) va oper sv sm mx atp j pa pte \<and>
       x = take_bit 32 (sv39_physical va j pte))"
proof (cases "\<exists>j pa pte. sv39_leaf (byte_at m) va oper sv sm mx atp j pa pte")
  case True
  then obtain j pa pte where leaf: "sv39_leaf (byte_at m) va oper sv sm mx atp j pa pte" by blast
  from translate_success [OF leaf assms(1) assms(2) [OF leaf]]
  have "fst (translate env va oper sv sm mx atp m) = Inr (take_bit 32 (sv39_physical va j pte))"
    by (metis fst_conv)
  then show ?thesis using leaf sv39_leaf_unique [OF leaf] by (metis sum.inject(2))
next
  case False
  with translate_failure [of m va oper sv sm mx atp env] assms(1) show ?thesis by fastforce
qed

definition one_entry_table :: "u64 \<Rightarrow> unit main_memory" where
  "one_entry_table pte =
     new_main_memory (\<lambda>t i. if t = 0 \<and> 0x1000 \<le> i \<and> i < 0x1008
       then le_bytes 8 pte ! (i - 0x1000) else 0) ()"

lemma one_entry_table_leaf:
  assumes "entry_ok pte" "entry_leaf pte" "permitted pte oper sv sm mx"
    and "take_bit 18 (drop_bit 10 pte) = 0"
  shows "sv39_leaf (byte_at (one_entry_table pte)) 0x2000 oper sv sm mx 0x8000000000000001
     2 0x1000 pte"
proof -
  have b: "byte_at (one_entry_table pte) (0x1000 + of_nat i) = le_bytes 8 pte ! i" if "i < 8" for i
  proof -
    have "unat (get_offset (0x1000 + of_nat i)) = 0x1000 + i"
      and "get_tag (0x1000 + of_nat i) = get_tag 0x1000"
      using offset_same_page [of "0x1000" i] that by (simp_all add: unat_get_offset)
    moreover have "get_tag 0x1000 = 0" by (simp add: get_tag_def PAGE_SIZE_value)
    ultimately show ?thesis
      using that by (simp add: byte_at_def one_entry_table_def new_main_memory_def)
  qed
  have "peek (byte_at (one_entry_table pte)) 0x1000 8 = le_bytes 8 pte"
    by (rule nth_equalityI) (simp_all add: nth_peek b)
  then have e: "entry_at (byte_at (one_entry_table pte)) 0x1000 = pte"
    by (simp add: entry_at_def le_word_le_bytes)
  have a: "entry_address 0x2000 2 0x1000 = 0x1000" by (simp add: entry_address_def)
  have "leaf_entry (byte_at (one_entry_table pte)) 0x2000 2 0x1000 2 0x1000 pte"
    using leaf_entry.leaf [where f = "byte_at (one_entry_table pte)" and va = "0x2000" and i = 2
        and a = "0x1000" and pte = pte] assms(1,2) e a
    by (simp add: access_ok_def MAX_PHYSICAL_ADDRESS_def)
  moreover have "canonical 0x2000"
    unfolding invalid_upper_bits_iff [symmetric, THEN arg_cong [where f = Not], simplified]
    by (simp add: invalid_upper_bits_def Sv39_VALEN_def Let_def)
  ultimately show ?thesis using assms(3,4) by (simp add: sv39_leaf_def)
qed

definition user_rwx_entry :: u64 where "user_rwx_entry = 0x1F"

lemma user_rwx_entry_leaf:
  "sv39_leaf (byte_at (one_entry_table user_rwx_entry)) 0x2000 MEM_LOAD False False False
     0x8000000000000001 2 0x1000 user_rwx_entry"
  by (rule one_entry_table_leaf)
    (simp_all add: user_rwx_entry_def entry_ok_def entry_leaf_def permitted_def op_reads_def
      op_writes_def op_executes_def)

lemma sv39_mode_example: "atp_mode 0x8000000000000001 = ATP_MODE_SV39"
  by (simp add: atp_mode_def atp_mode_of_def)

theorem translate_refines_sv39_witness:
  "fst (translate no_system_calls 0x2000 MEM_LOAD False False False 0x8000000000000001
      (one_entry_table user_rwx_entry)) = Inr 0x2000"
proof -
  have "take_bit 32 (sv39_physical 0x2000 2 user_rwx_entry) = 0x2000"
    by (simp add: sv39_physical_def user_rwx_entry_def)
  then show ?thesis
    using translate_refines_sv39 [of "0x8000000000000001" "one_entry_table user_rwx_entry" "0x2000"
        MEM_LOAD False False False no_system_calls "0x2000"]
      user_rwx_entry_leaf sv39_mode_example
    by (auto simp: plain_write_def no_system_calls_def)
qed

text \<open>
  C8: After a successful translation the leaf entry in memory has its accessed bit set, and
  its dirty bit too if the operation writes; every other bit of the entry and every other
  byte of memory is as before.
\<close>

theorem translate_marks_entry:
  assumes "sv39_leaf (byte_at m) va oper sv sm mx atp j pa pte" "atp_mode atp = ATP_MODE_SV39"
    and "plain_write env m pa (mark_used oper pte)"
  shows "byte_at (snd (translate env va oper sv sm mx atp m)) =
      poke (byte_at m) pa (le_bytes 8 (mark_used oper pte)) \<and>
    entry_at (byte_at (snd (translate env va oper sv sm mx atp m))) pa = mark_used oper pte \<and>
    (\<forall>n. bit (mark_used oper pte) n \<longleftrightarrow> bit pte n \<or> n = 6 \<or> (op_writes oper \<and> n = 7))"
proof -
  have "entry_at (poke (byte_at m) pa (le_bytes 8 (mark_used oper pte))) pa = mark_used oper pte"
    using peek_poke_same [of "le_bytes 8 (mark_used oper pte)" "byte_at m" pa]
    by (simp add: entry_at_def le_word_le_bytes)
  with translate_success [OF assms] show ?thesis by (auto simp: bit_mark_used)
qed

theorem translate_marks_entry_witness:
  "entry_at (byte_at (snd (translate no_system_calls 0x2000 MEM_LOAD False False False
      0x8000000000000001 (one_entry_table user_rwx_entry)))) 0x1000 = 0x5F"
proof -
  have used: "mark_used MEM_LOAD user_rwx_entry = 0x5F"
    by (simp add: mark_used_def op_writes_def user_rwx_entry_def pte_set_accessed_def)
  have plain: "plain_write no_system_calls (one_entry_table user_rwx_entry) 0x1000
      (mark_used MEM_LOAD user_rwx_entry)"
    by (simp add: plain_write_def no_system_calls_def)
  from translate_marks_entry [OF user_rwx_entry_leaf sv39_mode_example plain] show ?thesis
    unfolding used by (elim conjE)
qed

text \<open>
  C9: A translation that fails raises a page fault for the virtual address or the access
  fault of a page table read, never an assertion, and leaves every byte of memory as it was.
\<close>

theorem translate_faults_cleanly:
  assumes "atp_mode atp = ATP_MODE_SV39"
    and "\<And>j pa pte. sv39_leaf (byte_at m) va oper sv sm mx atp j pa pte \<Longrightarrow>
           plain_write env m pa (mark_used oper pte)"
    and "fst (translate env va oper sv sm mx atp m) = Inl e"
  shows "((\<exists>msg. e = Throw (PageFault va msg)) \<or> (\<exists>x msg. e = Throw (AccessFault x msg))) \<and>
    byte_at (snd (translate env va oper sv sm mx atp m)) = byte_at m"
proof -
  have "\<not> sv39_leaf (byte_at m) va oper sv sm mx atp j pa pte" for j pa pte
    using translate_success [OF _ assms(1) assms(2)] assms(3) by fastforce
  from translate_failure [OF this assms(1), of env] assms(3) show ?thesis
    by (auto simp: table_fault_def limit_fault_def)
qed

theorem translate_faults_cleanly_witness:
  "\<exists>e. fst (translate no_system_calls 0x8000000000000000 MEM_LOAD False False False
      0x8000000000000001 zeroed_memory) = Inl e \<and>
    byte_at (snd (translate no_system_calls 0x8000000000000000 MEM_LOAD False False False
      0x8000000000000001 zeroed_memory)) = byte_at zeroed_memory"
proof -
  have "invalid_upper_bits 0x8000000000000000"
    by (simp add: invalid_upper_bits_def Sv39_VALEN_def Let_def)
  then have "fst (translate no_system_calls 0x8000000000000000 MEM_LOAD False False False
      0x8000000000000001 zeroed_memory) =
      Inl (Throw (PageFault 0x8000000000000000 ''Invalid upper bits of virtual address''))"
    by (simp add: translate_def prog_simps Sv39_ATP_MODE_def sv39_mode_example)
  from this translate_faults_cleanly [OF sv39_mode_example _ this] show ?thesis
    by (auto simp: plain_write_def no_system_calls_def)
qed

text \<open>
  C10: The address returned is the one the algorithm describes exactly when that address lies
  in the first four gigabytes; the constructor from page numbers computes in 32 bits.
\<close>

theorem translate_exact_iff_below_4G:
  assumes "sv39_leaf (byte_at m) va oper sv sm mx atp j pa pte" "atp_mode atp = ATP_MODE_SV39"
    and "plain_write env m pa (mark_used oper pte)"
  shows "fst (translate env va oper sv sm mx atp m) = Inr (sv39_physical va j pte) \<longleftrightarrow>
    sv39_physical va j pte < 2 ^ 32"
proof -
  have *: "take_bit 32 w = w \<longleftrightarrow> w < 2 ^ 32" for w :: u64
    using take_bit_nat_eq_self_iff [of 32 "unat w"]
    by (simp add: word_unat_eq_iff unsigned_take_bit_eq word_less_nat_alt)
  from translate_success [OF assms]
  have "fst (translate env va oper sv sm mx atp m) = Inr (take_bit 32 (sv39_physical va j pte))"
    by (metis fst_conv)
  then show ?thesis by (simp only: sum.inject *)
qed

theorem translate_exact_iff_below_4G_witness:
  "fst (translate no_system_calls 0x2000 MEM_LOAD False False False 0x8000000000000001
      (one_entry_table 0x4000001F)) \<noteq> Inr (sv39_physical 0x2000 2 0x4000001F) \<and>
   sv39_physical 0x2000 2 0x4000001F = 0x100002000"
proof -
  have leaf: "sv39_leaf (byte_at (one_entry_table 0x4000001F)) 0x2000 MEM_LOAD False False False
      0x8000000000000001 2 0x1000 0x4000001F"
    by (rule one_entry_table_leaf)
      (simp_all add: entry_ok_def entry_leaf_def permitted_def op_reads_def
        op_writes_def op_executes_def)
  have phys: "sv39_physical 0x2000 2 0x4000001F = 0x100002000"
    by (simp add: sv39_physical_def)
  show ?thesis
    using translate_exact_iff_below_4G [OF leaf sv39_mode_example, of no_system_calls]
    by (simp add: phys plain_write_def no_system_calls_def)
qed

end
