(* ===== verification/Instruction_Cache_Port.thy ===== *)
theory Instruction_Cache_Port
  imports Memory_Port Page_Table_Walker
begin

text \<open>
  The port of \<open>instruction_cache_port.h\<close>: it answers a fetch with the aligned four bytes
  of memory at the program counter, translated if a paging mode is set, or with the
  exception the access raises.
\<close>

section \<open>Signals\<close>

text \<open>
  The signals of the design that the port uses, with the widths of the wrapper module.
  The class is a template over the design, so the record is extensible.
\<close>

record icache_signals =
  icache_req_valid :: bool
  icache_req_pc :: u64
  icache_req_prv :: bool
  icache_req_sum :: bool
  icache_req_atp :: u64
  icache_resp_valid :: bool
  icache_resp_instr :: u32
  icache_resp_exception :: bool
  icache_resp_ex_code :: u8

type_synonym ('d, 'h) icache_world = "(u32 memory_port, 'd icache_signals_scheme, 'h) port_world"

definition new_instruction_cache_port :: "u64 \<Rightarrow> u32 \<Rightarrow> u32 memory_port" where
  "new_instruction_cache_port = new_memory_port"

section \<open>Operations\<close>

definition icache_can_receive_request :: "('d, 'h) icache_world \<Rightarrow> bool" where
  "icache_can_receive_request w = icache_req_valid (dut w)"

text \<open>The translation in the first half of the \<open>try\<close> block.\<close>

definition icache_translate ::
  "'h sys_calls \<Rightarrow> MemoryAddress \<Rightarrow> (('d, 'h) icache_world, MemoryAddress) prog" where
  "icache_translate env address =
     bindM (gets dut) (\<lambda>d.
     let atp = icache_req_atp d in
     if atp_mode atp \<noteq> ATP_MODE_BARE then
       on_memory (translate env address MEM_FETCH (icache_req_prv d) (icache_req_sum d) False atp)
     else ret address)"

text \<open>The \<open>catch\<close> clauses, for the value that \<open>address\<close> has when the exception is raised.\<close>

definition icache_catch ::
  "MemoryAddress \<Rightarrow> failure \<Rightarrow> (('d, 'h) icache_world, unit) prog" where
  "icache_catch address e =
     (case e of
        Throw (PageFault _ _) \<Rightarrow>
          bindM (of_sum (PageFault_get_exception_code MEM_FETCH)) (queue_response (ucast address))
      | Throw (AccessFault _ _) \<Rightarrow>
          bindM (of_sum (AccessFault_get_exception_code MEM_FETCH)) (queue_response (ucast address))
      | _ \<Rightarrow> fail e)"

definition icache_get_request :: "'h sys_calls \<Rightarrow> (('d, 'h) icache_world, unit) prog" where
  "icache_get_request env =
     bindM (gets icache_can_receive_request) (\<lambda>ready.
     bindM (assertM ready) (\<lambda>_.
     bindM (gets (\<lambda>w. icache_req_pc (dut w) AND NOT 3)) (\<lambda>virtual.
     bindM (tryM (icache_translate env virtual)) (\<lambda>translated.
     case translated of
       Inl e \<Rightarrow> icache_catch virtual e
     | Inr address \<Rightarrow>
         bindM (tryM (on_memory (read32 address))) (\<lambda>instruction.
         case instruction of
           Inl e \<Rightarrow> icache_catch address e
         | Inr i \<Rightarrow> queue_response i EXC_CAUSE_NONE)))))"

definition icache_can_send_response :: "('d, 'h) icache_world \<Rightarrow> bool" where
  "icache_can_send_response w = True"

definition icache_send_response ::
  "u32 MemoryResponse \<Rightarrow> (('d, 'h) icache_world, u32 MemoryResponse) prog" where
  "icache_send_response response =
     bindM (modify (\<lambda>w. w\<lparr>dut := (dut w)\<lparr>icache_resp_instr := resp_data response,
         icache_resp_valid := True,
         icache_resp_exception := resp_exception response \<noteq> EXC_CAUSE_NONE\<rparr>\<rparr>)) (\<lambda>_.
     bindM (gets (\<lambda>w. icache_resp_exception (dut w))) (\<lambda>exception.
     bindM (if exception
            then modify (\<lambda>w. w\<lparr>dut := (dut w)\<lparr>icache_resp_ex_code :=
                   of_nat (exc_cause_value (resp_exception response))\<rparr>\<rparr>)
            else ret ()) (\<lambda>_.
     ret (response\<lparr>resp_all_sent := True\<rparr>))))"

definition icache_clear_response :: "(('d, 'h) icache_world, unit) prog" where
  "icache_clear_response =
     modify (\<lambda>w. w\<lparr>dut := (dut w)\<lparr>icache_resp_valid := False, icache_resp_exception := False\<rparr>\<rparr>)"

definition icache_methods :: "'h sys_calls \<Rightarrow> (('d, 'h) icache_world, u32) port_methods" where
  "icache_methods env =
     \<lparr>can_receive_request = icache_can_receive_request,
      get_request = icache_get_request env,
      can_send_response = icache_can_send_response,
      send_response = icache_send_response,
      clear_response = icache_clear_response\<rparr>"

section \<open>The port meets the contract of the base class\<close>

lemma icache_catch_queues:
  "icache_catch address e w = (Inr (), w') \<Longrightarrow>
   \<exists>c. w' = w\<lparr>port := queued (port w) (ucast address) c\<rparr>"
  by (auto simp: icache_catch_def prog_simps split: failure.splits exn.splits)

lemma icache_translate_port:
  "icache_translate env a w = (r, w') \<Longrightarrow> port w' = port w \<and> dut w' = dut w"
  by (auto simp: icache_translate_def prog_simps Let_def split: if_splits prod.splits)

lemma icache_get_request_queues:
  assumes "icache_get_request env w = (Inr (), w')"
  shows "answers (port w) (port w')"
proof -
  obtain r w1 where t: "icache_translate env (icache_req_pc (dut w) AND NOT 3) w = (r, w1)"
    by fastforce
  with icache_translate_port have p: "port w1 = port w" by blast
  show ?thesis
    using assms t p
    by (auto simp: icache_get_request_def prog_simps
        split: if_splits sum.splits prod.splits dest!: icache_catch_queues)
qed

interpretation icache: memory_port "icache_methods env" for env
proof
  fix w w'
  assume "get_request (icache_methods env) w = (Inr (), w')"
  then show "answers (port w) (port w')"
    by (intro icache_get_request_queues) (simp add: icache_methods_def)
qed (auto simp: icache_methods_def icache_can_send_response_def icache_send_response_def
    icache_clear_response_def prog_simps same_queue_def)

section \<open>Properties\<close>

lemma read32_eq:
  "read32 a m =
     (if access_ok 4 a then (Inr (le_word (peek (byte_at m) a 4)), touch_span 4 a m)
      else (Inl (limit_fault (a + 4 - 1)), m))"
  by (simp add: read32_def read_value_eq)

text \<open>The fetch address of a request.\<close>

definition fetch_address :: "('d, 'h) icache_world \<Rightarrow> MemoryAddress" where
  "fetch_address w = icache_req_pc (dut w) AND NOT 3"

text \<open>
  Without address translation a fetch queues the four bytes of memory at the program
  counter with its low two bits cleared, or an instruction access fault when they are
  beyond the physical limit; memory keeps its contents.
\<close>

lemma icache_fetch_bare:
  assumes "icache_req_valid (dut w)" "atp_mode (icache_req_atp (dut w)) = ATP_MODE_BARE"
  shows "\<exists>w'. icache_get_request env w = (Inr (), w') \<and> byte_at (memory w') = byte_at (memory w) \<and>
    port w' = (if access_ok 4 (fetch_address w)
      then queued (port w) (le_word (peek (byte_at (memory w)) (fetch_address w) 4)) EXC_CAUSE_NONE
      else queued (port w) (ucast (fetch_address w)) EXC_CAUSE_INSTR_ACCESS_FAULT)"
  using assms
  by (simp add: icache_get_request_def icache_can_receive_request_def icache_translate_def
      prog_simps read32_eq icache_catch_def limit_fault_def fetch_address_def)

definition fetch_example :: "u64 \<Rightarrow> 'h main_memory \<Rightarrow> (unit, 'h) icache_world" where
  "fetch_example atp m =
     \<lparr>port = new_instruction_cache_port 0 10,
      dut = \<lparr>icache_req_valid = True, icache_req_pc = 0x2002, icache_req_prv = False,
        icache_req_sum = False, icache_req_atp = atp, icache_resp_valid = False,
        icache_resp_instr = 0, icache_resp_exception = False, icache_resp_ex_code = 0\<rparr>,
      memory = m\<rparr>"

lemma fetch_example_simps [simp]:
  "icache_req_valid (dut (fetch_example atp m))" "icache_req_atp (dut (fetch_example atp m)) = atp"
  "icache_req_prv (dut (fetch_example atp m)) = False"
  "icache_req_sum (dut (fetch_example atp m)) = False"
  "memory (fetch_example atp m) = m" "fetch_address (fetch_example atp m) = 0x2000"
  by (simp_all add: fetch_example_def fetch_address_def)

lemma access_ok_low: "access_ok 4 (take_bit 32 x)"
proof -
  have "unat (take_bit 32 x :: u64) < 2 ^ 32"
    using take_bit_nat_less_exp [of 32 "unat x"] by (simp add: unsigned_take_bit_eq)
  then have "unat (take_bit 32 x + 3 :: u64) < 2 ^ 33"
    using unat_plus_upper [of "take_bit 32 x" "3 :: u64"] by simp
  then show ?thesis
    by (simp add: access_ok_def MAX_PHYSICAL_ADDRESS_def word_le_nat_alt add.commute [of 3])
qed

text \<open>A fetch under Sv39, with and without a leaf entry that permits it.\<close>

lemma icache_fetch_leaf:
  assumes "icache_req_valid (dut w)" "icache_req_atp (dut w) = atp" "atp_mode atp = ATP_MODE_SV39"
    and leaf: "sv39_leaf (byte_at (memory w)) (fetch_address w) MEM_FETCH
      (icache_req_prv (dut w)) (icache_req_sum (dut w)) False atp j pa pte"
    and plain: "plain_write env (memory w) pa (mark_used MEM_FETCH pte)"
  shows "\<exists>w'. icache_get_request env w = (Inr (), w') \<and>
    byte_at (memory w') = poke (byte_at (memory w)) pa (le_bytes 8 (mark_used MEM_FETCH pte)) \<and>
    port w' = queued (port w) (le_word (peek (byte_at (memory w'))
      (take_bit 32 (sv39_physical (fetch_address w) j pte)) 4)) EXC_CAUSE_NONE"
proof -
  let ?a = "take_bit 32 (sv39_physical (fetch_address w) j pte)"
  from translate_success [OF leaf assms(3) plain] obtain m' where
    t: "translate env (fetch_address w) MEM_FETCH (icache_req_prv (dut w)) (icache_req_sum (dut w))
        False atp (memory w) = (Inr ?a, m')"
    and m': "byte_at m' = poke (byte_at (memory w)) pa (le_bytes 8 (mark_used MEM_FETCH pte))"
    by blast
  have "icache_get_request env w = (Inr (), w\<lparr>memory := touch_span 4 ?a m',
      port := queued (port w) (le_word (peek (byte_at m') ?a 4)) EXC_CAUSE_NONE\<rparr>)"
    using assms(1-3) t access_ok_low [of "sv39_physical (fetch_address w) j pte"]
    by (simp add: icache_get_request_def icache_can_receive_request_def icache_translate_def
        prog_simps read32_eq fetch_address_def)
  then show ?thesis using m' by simp
qed

lemma icache_fetch_no_leaf:
  assumes "icache_req_valid (dut w)" "icache_req_atp (dut w) = atp" "atp_mode atp = ATP_MODE_SV39"
    and "\<nexists>j pa pte. sv39_leaf (byte_at (memory w)) (fetch_address w) MEM_FETCH
      (icache_req_prv (dut w)) (icache_req_sum (dut w)) False atp j pa pte"
  shows "\<exists>w' e. icache_get_request env w = (Inr (), w') \<and> byte_at (memory w') = byte_at (memory w) \<and>
    (e = EXC_CAUSE_INSTR_PAGE_FAULT \<or> e = EXC_CAUSE_INSTR_ACCESS_FAULT) \<and>
    port w' = queued (port w) (ucast (fetch_address w)) e"
proof -
  from translate_failure [of "memory w" "fetch_address w" MEM_FETCH "icache_req_prv (dut w)"
      "icache_req_sum (dut w)" False atp env] assms(3,4) obtain e m' where
    t: "translate env (fetch_address w) MEM_FETCH (icache_req_prv (dut w)) (icache_req_sum (dut w))
        False atp (memory w) = (Inl e, m')"
    and e: "table_fault (fetch_address w) e" and m': "byte_at m' = byte_at (memory w)"
    by blast
  define c where "c = (case e of Throw (PageFault _ _) \<Rightarrow> EXC_CAUSE_INSTR_PAGE_FAULT
    | _ \<Rightarrow> EXC_CAUSE_INSTR_ACCESS_FAULT)"
  have c: "c = EXC_CAUSE_INSTR_PAGE_FAULT \<or> c = EXC_CAUSE_INSTR_ACCESS_FAULT"
    by (simp add: c_def split: failure.split exn.split)
  have "icache_get_request env w = (Inr (), w\<lparr>memory := m',
        port := queued (port w) (ucast (fetch_address w)) c\<rparr>)"
    using assms(1-3) t e
    by (auto simp: icache_get_request_def icache_can_receive_request_def icache_translate_def
        prog_simps fetch_address_def icache_catch_def table_fault_def limit_fault_def c_def)
  then show ?thesis using m' c by auto
qed

text \<open>
  C11: Under Sv39 a fetch queues the four bytes at the translated address if the page tables
  permit execution there, and otherwise an instruction page fault or access fault without
  changing a byte of memory.
\<close>

theorem icache_fetch_sv39:
  assumes "icache_req_valid (dut w)" "icache_req_atp (dut w) = atp" "atp_mode atp = ATP_MODE_SV39"
    and plain: "\<And>j pa pte. sv39_leaf (byte_at (memory w)) (fetch_address w) MEM_FETCH
        (icache_req_prv (dut w)) (icache_req_sum (dut w)) False atp j pa pte \<Longrightarrow>
      plain_write env (memory w) pa (mark_used MEM_FETCH pte)"
  shows "\<exists>w'. icache_get_request env w = (Inr (), w') \<and>
    (\<forall>j pa pte. sv39_leaf (byte_at (memory w)) (fetch_address w) MEM_FETCH
          (icache_req_prv (dut w)) (icache_req_sum (dut w)) False atp j pa pte \<longrightarrow>
        byte_at (memory w') = poke (byte_at (memory w)) pa (le_bytes 8 (mark_used MEM_FETCH pte)) \<and>
        port w' = queued (port w) (le_word (peek (byte_at (memory w'))
          (take_bit 32 (sv39_physical (fetch_address w) j pte)) 4)) EXC_CAUSE_NONE) \<and>
    ((\<nexists>j pa pte. sv39_leaf (byte_at (memory w)) (fetch_address w) MEM_FETCH
          (icache_req_prv (dut w)) (icache_req_sum (dut w)) False atp j pa pte) \<longrightarrow>
        byte_at (memory w') = byte_at (memory w) \<and>
        (\<exists>e. (e = EXC_CAUSE_INSTR_PAGE_FAULT \<or> e = EXC_CAUSE_INSTR_ACCESS_FAULT) \<and>
          port w' = queued (port w) (ucast (fetch_address w)) e))"
proof (cases "\<exists>j pa pte. sv39_leaf (byte_at (memory w)) (fetch_address w) MEM_FETCH
          (icache_req_prv (dut w)) (icache_req_sum (dut w)) False atp j pa pte")
  case True
  then obtain j pa pte where leaf: "sv39_leaf (byte_at (memory w)) (fetch_address w) MEM_FETCH
      (icache_req_prv (dut w)) (icache_req_sum (dut w)) False atp j pa pte" by blast
  from icache_fetch_leaf [OF assms(1-3) leaf plain [OF leaf]] obtain w' where
    w': "icache_get_request env w = (Inr (), w')"
      "byte_at (memory w') = poke (byte_at (memory w)) pa (le_bytes 8 (mark_used MEM_FETCH pte))"
      "port w' = queued (port w) (le_word (peek (byte_at (memory w'))
        (take_bit 32 (sv39_physical (fetch_address w) j pte)) 4)) EXC_CAUSE_NONE" by blast
  show ?thesis
  proof (intro exI [of _ w'] conjI allI impI)
    fix j' pa' pte'
    assume "sv39_leaf (byte_at (memory w)) (fetch_address w) MEM_FETCH
      (icache_req_prv (dut w)) (icache_req_sum (dut w)) False atp j' pa' pte'"
    from sv39_leaf_unique [OF leaf this] have u: "j' = j" "pa' = pa" "pte' = pte" by auto
    show "byte_at (memory w') = poke (byte_at (memory w)) pa' (le_bytes 8 (mark_used MEM_FETCH pte'))"
      unfolding u by (rule w'(2))
    show "port w' = queued (port w) (le_word (peek (byte_at (memory w'))
          (take_bit 32 (sv39_physical (fetch_address w) j' pte')) 4)) EXC_CAUSE_NONE"
      unfolding u by (rule w'(3))
  qed (use w'(1) True in blast)+
next
  case False
  from icache_fetch_no_leaf [OF assms(1-3) False] obtain w' e where
    w': "icache_get_request env w = (Inr (), w')" "byte_at (memory w') = byte_at (memory w)"
      "e = EXC_CAUSE_INSTR_PAGE_FAULT \<or> e = EXC_CAUSE_INSTR_ACCESS_FAULT"
      "port w' = queued (port w) (ucast (fetch_address w)) e" by blast
  show ?thesis by (intro exI [of _ w'] conjI allI impI, rule w'(1)) (use False w'(2-4) in blast)+
qed

theorem icache_fetch_sv39_witness:
  "\<exists>w'. icache_get_request no_system_calls
       (fetch_example 0x8000000000000001 (one_entry_table user_rwx_entry)) = (Inr (), w') \<and>
     port w' = queued (port (fetch_example 0x8000000000000001 (one_entry_table user_rwx_entry)))
       (le_word (peek (byte_at (memory w')) (take_bit 32 (sv39_physical 0x2000 2 user_rwx_entry)) 4))
       EXC_CAUSE_NONE"
proof -
  let ?w = "fetch_example 0x8000000000000001 (one_entry_table user_rwx_entry)"
  have leaf: "sv39_leaf (byte_at (one_entry_table user_rwx_entry)) 0x2000 MEM_FETCH False False
      False 0x8000000000000001 2 0x1000 user_rwx_entry"
    by (rule one_entry_table_leaf)
      (simp_all add: user_rwx_entry_def entry_ok_def entry_leaf_def permitted_def op_reads_def
        op_writes_def op_executes_def)
  have plain: "plain_write no_system_calls (memory ?w) pa d" for pa d
    by (simp add: plain_write_def no_system_calls_def)
  show ?thesis
    using icache_fetch_sv39 [of ?w "0x8000000000000001" no_system_calls, OF fetch_example_simps(1,2)
        sv39_mode_example plain] leaf unfolding fetch_example_simps by blast
qed

end
