(* ===== verification/Data_Cache_Port.thy ===== *)
theory Data_Cache_Port
  imports Instruction_Cache_Port
begin

text \<open>
  The port of \<open>data_cache_port.h\<close>: loads, stores, atomic updates and the
  load-reserved/store-conditional pair, each with alignment check, address translation
  and size extension, answered by a value or by an exception.
\<close>

section \<open>Signals and state\<close>

record dcache_signals = icache_signals +
  dcache_req_valid :: bool
  dcache_req_address :: u64
  dcache_req_value :: u64
  dcache_req_op :: "3 word"
  dcache_req_size :: "2 word"
  dcache_req_size_ext :: "2 word"
  dcache_req_amo :: "7 word"
  dcache_req_prv :: bool
  dcache_req_sum :: bool
  dcache_req_mxr :: bool
  dcache_req_atp :: u64
  dcache_resp_valid :: bool
  dcache_resp_value :: u64
  dcache_ex_valid :: bool
  dcache_ex_exception :: "u32 \<times> u32 \<times> u32"
  dcache_notif_valid :: bool
  dcache_notif_ready :: bool

text \<open>The three words of \<open>dcache_ex_exception\<close> are listed from index 0 to index 2.\<close>

record dcache_port = "u64 memory_port" +
  reserved :: MemoryAddress
  reservation_valid :: bool
  delayed_notif_ready :: bool

type_synonym ('d, 'h) dcache_world = "(dcache_port, 'd dcache_signals_scheme, 'h) port_world"

text \<open>The constructor leaves \<open>current_cycle\<close> and \<open>reserved\<close> uninitialised.\<close>

definition new_data_cache_port :: "u64 \<Rightarrow> MemoryAddress \<Rightarrow> u32 \<Rightarrow> dcache_port" where
  "new_data_cache_port c r l =
     \<lparr>current_cycle = c, latency = l, responses = [],
      reserved = r, reservation_valid = False, delayed_notif_ready = False\<rparr>"

section \<open>Reservations\<close>

definition make_reservation :: "MemoryAddress \<Rightarrow> (('d, 'h) dcache_world, unit) prog" where
  "make_reservation address =
     modify (\<lambda>w. w\<lparr>port := (port w)\<lparr>reserved := address, reservation_valid := True\<rparr>\<rparr>)"

definition check_reservation :: "MemoryAddress \<Rightarrow> dcache_port \<Rightarrow> bool" where
  "check_reservation address p \<longleftrightarrow> reservation_valid p \<and> reserved p = address"

definition clear_all_reservations :: "(('d, 'h) dcache_world, unit) prog" where
  "clear_all_reservations = modify (\<lambda>w. w\<lparr>port := (port w)\<lparr>reservation_valid := False\<rparr>\<rparr>)"

definition clear_reservation :: "MemoryAddress \<Rightarrow> (('d, 'h) dcache_world, unit) prog" where
  "clear_reservation address = clear_all_reservations"

section \<open>Sizes and atomic operations\<close>

definition aligned :: "MemoryAddress \<Rightarrow> nat \<Rightarrow> failure + bool" where
  "aligned address alignment =
     (if alignment = 0 then Inr True
      else if alignment = 1 then Inr (address AND 1 = 0)
      else if alignment = 2 then Inr (address AND 3 = 0)
      else if alignment = 3 then Inr (address AND 7 = 0)
      else Inl (Exit 1))"

definition zero_extend :: "u64 \<Rightarrow> nat \<Rightarrow> u64" where
  "zero_extend original bytes =
     (let shift = 64 - bytes * 8 in drop_bit shift (push_bit shift original))"

definition one_extend :: "u64 \<Rightarrow> nat \<Rightarrow> u64" where
  "one_extend original bytes = NOT (zero_extend (NOT original) bytes)"

definition sign_extend :: "u64 \<Rightarrow> nat \<Rightarrow> u64" where
  "sign_extend original bytes =
     (let shift = 64 - bytes * 8 in signed_drop_bit shift (push_bit shift original))"

definition size_extend :: "u64 \<Rightarrow> nat \<Rightarrow> SizeExtension \<Rightarrow> failure + u64" where
  "size_extend original bytes size_ext =
     (case size_ext of
        SIZE_EXT_ZERO \<Rightarrow> Inr (zero_extend original bytes)
      | SIZE_EXT_ONE \<Rightarrow> Inr (one_extend original bytes)
      | SIZE_EXT_SIGNED \<Rightarrow> Inr (sign_extend original bytes)
      | SIZE_EXT_OTHER _ \<Rightarrow> Inl Assertion)"

definition atomic_update :: "nat \<Rightarrow> u64 \<Rightarrow> u64 \<Rightarrow> failure + u64" where
  "atomic_update operation original operand =
     (if operation = 0 then Inr (original + operand)
      else if operation = 1 then Inr operand
      else if operation = 4 then Inr (original XOR operand)
      else if operation = 8 then Inr (original OR operand)
      else if operation = 12 then Inr (original AND operand)
      else if operation = 16 then Inr (if original <s operand then original else operand)
      else if operation = 20 then Inr (if original <s operand then operand else original)
      else if operation = 24 then Inr (if original < operand then original else operand)
      else if operation = 28 then Inr (if original < operand then operand else original)
      else Inl (Exit 1))"

section \<open>Memory accesses\<close>

definition read_memory ::
  "MemoryOperation \<Rightarrow> nat \<Rightarrow> MemoryAddress \<Rightarrow> (('p, 'd, 'h) port_world, u64) prog" where
  "read_memory operation log2_size address =
     (if operation = MEM_LOAD \<or> operation = MEM_LR \<or> operation = MEM_AMO then
        if log2_size = 0 then bindM (on_memory (read8 address)) (\<lambda>v. ret (ucast v))
        else if log2_size = 1 then bindM (on_memory (read16 address)) (\<lambda>v. ret (ucast v))
        else if log2_size = 2 then bindM (on_memory (read32 address)) (\<lambda>v. ret (ucast v))
        else if log2_size = 3 then on_memory (read64 address)
        else fail (Exit 1)
      else if operation = MEM_SC \<or> operation = MEM_STORE then ret 0
      else fail (Exit 1))"

text \<open>The store that \<open>MEM_AMO\<close>, \<open>MEM_STORE\<close> and a successful \<open>MEM_SC\<close> share.\<close>

definition write_sized ::
  "'h sys_calls \<Rightarrow> nat \<Rightarrow> MemoryAddress \<Rightarrow> u64 \<Rightarrow> (('d, 'h) dcache_world, unit) prog" where
  "write_sized env log2_size address data =
     bindM
       (if log2_size = 0 then on_memory (write8 env address (ucast data))
        else if log2_size = 1 then on_memory (write16 env address (ucast data))
        else if log2_size = 2 then on_memory (write32 env address (ucast data))
        else if log2_size = 3 then on_memory (write64 env address data)
        else fail (Exit 1))
     (\<lambda>_. clear_reservation address)"

definition write_memory ::
  "'h sys_calls \<Rightarrow> MemoryOperation \<Rightarrow> nat \<Rightarrow> MemoryAddress \<Rightarrow> u64 \<Rightarrow>
     (('d, 'h) dcache_world, unit) prog" where
  "write_memory env operation log2_size address data =
     (if operation = MEM_LOAD \<or> operation = MEM_LR then ret ()
      else if operation = MEM_SC then
        bindM (gets (\<lambda>w. check_reservation address (port w))) (\<lambda>held.
        if \<not> held then ret () else write_sized env log2_size address data)
      else if operation = MEM_AMO \<or> operation = MEM_STORE then
        write_sized env log2_size address data
      else fail (Exit 1))"

section \<open>Requests and responses\<close>

definition dcache_can_receive_request :: "('d, 'h) dcache_world \<Rightarrow> bool" where
  "dcache_can_receive_request w = dcache_req_valid (dut w)"

text \<open>The part of the \<open>try\<close> block up to the translation of the address.\<close>

definition dcache_translate ::
  "'h sys_calls \<Rightarrow> MemoryAddress \<Rightarrow> MemoryOperation \<Rightarrow>
     (('d, 'h) dcache_world, MemoryAddress) prog" where
  "dcache_translate env address operation =
     bindM (gets dut) (\<lambda>d.
     bindM (of_sum (aligned address (unat (dcache_req_size d)))) (\<lambda>is_aligned.
     if \<not> is_aligned then fail (Throw (AlignmentFault address))
     else
       let atp = dcache_req_atp d in
       if atp_mode atp \<noteq> ATP_MODE_BARE then
         on_memory (translate env address operation (dcache_req_prv d) (dcache_req_sum d)
           (dcache_req_mxr d) atp)
       else ret address))"

text \<open>The rest of the \<open>try\<close> block, at the physical address, up to the response.\<close>

definition dcache_access ::
  "'h sys_calls \<Rightarrow> MemoryOperation \<Rightarrow> u64 \<Rightarrow> MemoryAddress \<Rightarrow>
     (('d, 'h) dcache_world, u64) prog" where
  "dcache_access env operation operand address =
     bindM (gets dut) (\<lambda>d.
     let size = unat (dcache_req_size d);
         bytes = 2 ^ size;
         size_ext = size_ext_of (unat (dcache_req_size_ext d)) in
     bindM (read_memory operation size address) (\<lambda>data_read.
     bindM
       (if operation = MEM_LOAD \<or> operation = MEM_AMO \<or> operation = MEM_LR then
          bindM (of_sum (size_extend data_read bytes size_ext)) (\<lambda>r.
          bindM (of_sum (size_extend operand bytes size_ext)) (\<lambda>x. ret (r, x)))
        else ret (data_read, operand)) (\<lambda>(data_read, extended).
     bindM
       (if operation = MEM_AMO
        then of_sum (atomic_update (unat (drop_bit 2 (dcache_req_amo d))) data_read extended)
        else ret operand) (\<lambda>data_write.
     bindM (if operation = MEM_LR then make_reservation address else ret ()) (\<lambda>_.
     bindM
       (if operation = MEM_SC
        then gets (\<lambda>w. if \<not> check_reservation address (port w) then 1 else 0)
        else ret data_read) (\<lambda>data_read.
     bindM (write_memory env operation size address data_write) (\<lambda>_.
     ret data_read)))))))"

definition dcache_catch ::
  "MemoryOperation \<Rightarrow> MemoryAddress \<Rightarrow> failure \<Rightarrow> (('d, 'h) dcache_world, unit) prog" where
  "dcache_catch operation address e =
     (case e of
        Throw (AccessFault _ _) \<Rightarrow>
          bindM (of_sum (AccessFault_get_exception_code operation)) (queue_response address)
      | Throw (AlignmentFault _) \<Rightarrow>
          bindM (of_sum (AlignmentFault_get_exception_code operation)) (queue_response address)
      | Throw (PageFault _ _) \<Rightarrow>
          bindM (of_sum (PageFault_get_exception_code operation)) (queue_response address)
      | _ \<Rightarrow> fail e)"

definition dcache_get_request :: "'h sys_calls \<Rightarrow> (('d, 'h) dcache_world, unit) prog" where
  "dcache_get_request env =
     bindM (gets dcache_can_receive_request) (\<lambda>ready.
     bindM (assertM ready) (\<lambda>_.
     bindM (gets dut) (\<lambda>d.
     let virtual = dcache_req_address d;
         operation = mem_op_of (unat (dcache_req_op d));
         operand = dcache_req_value d in
     bindM (tryM (dcache_translate env virtual operation)) (\<lambda>translated.
     case translated of
       Inl e \<Rightarrow> dcache_catch operation virtual e
     | Inr address \<Rightarrow>
         bindM (tryM (bindM (dcache_access env operation operand address)
           (\<lambda>data_read. queue_response data_read EXC_CAUSE_NONE))) (\<lambda>accessed.
         case accessed of
           Inl e \<Rightarrow> dcache_catch operation address e
         | Inr _ \<Rightarrow> ret ())))))"

definition dcache_can_send_response :: "('d, 'h) dcache_world \<Rightarrow> bool" where
  "dcache_can_send_response w = True"

definition dcache_send_response ::
  "u64 MemoryResponse \<Rightarrow> (('d, 'h) dcache_world, u64 MemoryResponse) prog" where
  "dcache_send_response response =
     bindM (modify (\<lambda>w. w\<lparr>dut := (dut w)\<lparr>dcache_resp_value := resp_data response,
         dcache_resp_valid := True,
         dcache_ex_valid := resp_exception response \<noteq> EXC_CAUSE_NONE\<rparr>\<rparr>)) (\<lambda>_.
     bindM (gets (\<lambda>w. dcache_ex_valid (dut w))) (\<lambda>exception.
     bindM (if exception
            then modify (\<lambda>w. w\<lparr>dut := (dut w)\<lparr>dcache_ex_exception :=
                   (ucast (resp_data response AND 0xFFFFFFFF),
                    ucast (drop_bit 32 (resp_data response)),
                    of_nat (exc_cause_value (resp_exception response))),
                   dcache_resp_valid := False\<rparr>\<rparr>)
            else ret ()) (\<lambda>_.
     ret (response\<lparr>resp_all_sent := True\<rparr>))))"

definition dcache_clear_response :: "(('d, 'h) dcache_world, unit) prog" where
  "dcache_clear_response =
     bindM (modify (\<lambda>w. w\<lparr>dut := (dut w)\<lparr>dcache_resp_valid := False, dcache_ex_valid := False,
         dcache_notif_ready := delayed_notif_ready (port w)\<rparr>,
       port := (port w)\<lparr>delayed_notif_ready := dcache_notif_valid (dut w)\<rparr>\<rparr>)) (\<lambda>_.
     bindM (gets (\<lambda>w. dcache_notif_valid (dut w))) (\<lambda>notif.
     if notif then clear_all_reservations else ret ()))"

definition dcache_methods :: "'h sys_calls \<Rightarrow> (('d, 'h) dcache_world, u64) port_methods" where
  "dcache_methods env =
     \<lparr>can_receive_request = dcache_can_receive_request,
      get_request = dcache_get_request env,
      can_send_response = dcache_can_send_response,
      send_response = dcache_send_response,
      clear_response = dcache_clear_response\<rparr>"

section \<open>The port meets the contract of the base class\<close>

lemma quiet_make_reservation [quiet_intros]: "quiet (make_reservation a)"
  and quiet_clear_all_reservations [quiet_intros]: "quiet clear_all_reservations"
  and quiet_clear_reservation [quiet_intros]: "quiet (clear_reservation a)"
  by (simp_all add: quiet_def make_reservation_def clear_reservation_def clear_all_reservations_def
      prog_simps same_queue_def)

lemma quiet_read_memory [quiet_intros]: "quiet (read_memory oper s a)"
  unfolding read_memory_def by (intro quiet_intros)

lemma quiet_write_sized [quiet_intros]: "quiet (write_sized env s a d)"
  unfolding write_sized_def by (intro quiet_intros)

lemma quiet_write_memory [quiet_intros]: "quiet (write_memory env oper s a d)"
  unfolding write_memory_def by (intro quiet_intros)

lemma quiet_dcache_translate [quiet_intros]: "quiet (dcache_translate env a oper)"
  unfolding dcache_translate_def Let_def by (intro quiet_intros)

lemma quiet_dcache_access [quiet_intros]: "quiet (dcache_access env oper x a)"
  unfolding dcache_access_def Let_def split_beta by (intro quiet_intros)

lemma dcache_catch_answers:
  "dcache_catch oper a e w = (Inr (), w') \<Longrightarrow> answers (port w) (port w')"
  by (auto simp: dcache_catch_def bindM_apply of_sum_apply fail_apply queue_response_apply
      split: failure.splits exn.splits sum.splits)

lemma dcache_get_request_answers:
  assumes "dcache_get_request env w = (Inr (), w')"
  shows "answers (port w) (port w')"
proof -
  let ?oper = "mem_op_of (unat (dcache_req_op (dut w)))"
  obtain r w1 where t: "dcache_translate env (dcache_req_address (dut w)) ?oper w = (r, w1)"
    by fastforce
  with quiet_dcache_translate have q: "same_queue (port w) (port w1)" by (rule quietD)
  show ?thesis
  proof (cases r)
    case (Inl e)
    with assms t have "dcache_catch ?oper (dcache_req_address (dut w)) e w1 = (Inr (), w')"
      by (auto simp: dcache_get_request_def prog_simps Let_def split: if_splits)
    then show ?thesis using q answers_after_same_queue dcache_catch_answers by blast
  next
    case (Inr a)
    obtain r2 w2 where c: "dcache_access env ?oper (dcache_req_value (dut w)) a w1 = (r2, w2)"
      by fastforce
    with quiet_dcache_access have "same_queue (port w1) (port w2)" by (rule quietD)
    with q have q2: "same_queue (port w) (port w2)" by (rule same_queue_trans)
    have "answers (port w2) (port w')"
    proof (cases r2)
      case (Inl e)
      with assms t \<open>r = Inr a\<close> c have "dcache_catch ?oper a e w2 = (Inr (), w')"
        by (simp add: dcache_get_request_def bindM_apply gets_apply assertM_apply tryM_apply Let_def
            split: if_splits)
      then show ?thesis by (rule dcache_catch_answers)
    next
      case (Inr v)
      with assms t \<open>r = Inr a\<close> c have "w' = w2\<lparr>port := queued (port w2) v EXC_CAUSE_NONE\<rparr>"
        by (simp add: dcache_get_request_def bindM_apply gets_apply assertM_apply tryM_apply Let_def
            queue_response_apply ret_apply split: if_splits)
      then show ?thesis by simp
    qed
    with q2 show ?thesis by (rule answers_after_same_queue)
  qed
qed

interpretation dcache: memory_port "dcache_methods env" for env
proof
  fix w w'
  assume "get_request (dcache_methods env) w = (Inr (), w')"
  then show "answers (port w) (port w')"
    by (intro dcache_get_request_answers) (simp add: dcache_methods_def)
qed (auto simp: dcache_methods_def dcache_can_send_response_def dcache_send_response_def
    dcache_clear_response_def clear_all_reservations_def prog_simps same_queue_def)

section \<open>Accesses over the flat memory\<close>

subsection \<open>Loads and stores by size\<close>

definition plain_address :: "'h sys_calls \<Rightarrow> 'h main_memory \<Rightarrow> MemoryAddress \<Rightarrow> bool" where
  "plain_address env m a \<longleftrightarrow> (\<forall>d. plain_write env m a d)"

lemma size_cases: "s < 4 \<Longrightarrow> s = 0 \<or> s = 1 \<or> s = 2 \<or> s = (3 :: nat)"
  by arith

lemma read_memory_eq:
  assumes "s < 4" "oper = MEM_LOAD \<or> oper = MEM_LR \<or> oper = MEM_AMO"
  shows "read_memory oper s a w =
     (if access_ok (2 ^ s) a
      then (Inr (le_word (peek (byte_at (memory w)) a (2 ^ s))),
            w\<lparr>memory := touch_span (2 ^ s) a (memory w)\<rparr>)
      else (Inl (limit_fault (a + 2 ^ s - 1)), w))"
  using size_cases [OF assms(1)] assms(2)
  by (elim disjE)
    (simp_all add: read_memory_def prog_simps read8_eq read16_def read32_def read64_def read_value_eq
      ucast_le_word peek_def)

lemma le_bytes_one: "le_bytes (Suc 0) d = [ucast d]"
  by (simp add: le_bytes_def)

lemma write_sized_eq:
  assumes "s < 4" "plain_address env (memory w) a"
  shows "write_sized env s a d w =
     (if access_ok (2 ^ s) a
      then (Inr (), w\<lparr>memory := put_span (2 ^ s) a (le_bytes (2 ^ s) d) (memory w),
        port := (port w)\<lparr>reservation_valid := False\<rparr>\<rparr>)
      else (Inl (limit_fault (a + 2 ^ s - 1)), w))"
  using size_cases [OF assms(1)] assms(2) unfolding plain_address_def
  by (elim disjE)
    (simp_all add: write_sized_def prog_simps write8_eq write16_def write32_def write64_def
      write_value_eq le_bytes_ucast le_bytes_one clear_reservation_def clear_all_reservations_def)

subsection \<open>Extensions\<close>

lemma zero_extend_eq: "n \<le> 8 \<Longrightarrow> zero_extend w n = take_bit (8 * n) w"
  by (rule bit_word_eqI) (auto simp: zero_extend_def Let_def bit_simps)

lemma one_extend_eq: "n \<le> 8 \<Longrightarrow> one_extend w n = w OR NOT (mask (8 * n))"
  by (rule bit_word_eqI) (auto simp: one_extend_def zero_extend_eq bit_simps)

lemma sign_extend_eq:
  assumes "0 < n" "n \<le> 8"
  shows "sign_extend w n = signed_take_bit (8 * n - 1) w"
proof (rule bit_word_eqI)
  fix m
  assume m: "m < LENGTH(64)"
  have *: "m = 8 * n - 1" if "8 * n - 1 \<le> m" "m < 8 * n" using that by simp
  show "bit (sign_extend w n) m = bit (signed_take_bit (8 * n - 1) w) m"
    using assms m * by (cases "m < 8 * n") (auto simp: sign_extend_def Let_def bit_simps min_def
        mult.commute [of n 8] le_diff_conv)
qed

text \<open>What the extensions mean for a value of \<open>n\<close> bytes.\<close>

definition extended :: "SizeExtension \<Rightarrow> nat \<Rightarrow> u64 \<Rightarrow> u64" where
  "extended ext n w =
     (case ext of
        SIZE_EXT_ONE \<Rightarrow> w OR NOT (mask (8 * n))
      | SIZE_EXT_SIGNED \<Rightarrow> signed_take_bit (8 * n - 1) w
      | _ \<Rightarrow> take_bit (8 * n) w)"

definition valid_ext :: "SizeExtension \<Rightarrow> bool" where
  "valid_ext ext \<longleftrightarrow> ext = SIZE_EXT_ZERO \<or> ext = SIZE_EXT_ONE \<or> ext = SIZE_EXT_SIGNED"

lemma size_extend_eq:
  "valid_ext ext \<Longrightarrow> 0 < n \<Longrightarrow> n \<le> 8 \<Longrightarrow> size_extend w n ext = Inr (extended ext n w)"
  by (auto simp: valid_ext_def size_extend_def extended_def zero_extend_eq one_extend_eq sign_extend_eq)

subsection \<open>Atomic updates\<close>

text \<open>The operations of the RISC-V A extension by their function codes, over integers.\<close>

definition amo_spec :: "nat \<Rightarrow> u64 \<Rightarrow> u64 \<Rightarrow> u64" where
  "amo_spec n a b =
     (if n = 0 then word_of_int (uint a + uint b)
      else if n = 4 then a XOR b
      else if n = 8 then a OR b
      else if n = 12 then a AND b
      else if n = 16 then word_of_int (min (sint a) (sint b))
      else if n = 20 then word_of_int (max (sint a) (sint b))
      else if n = 24 then word_of_int (min (uint a) (uint b))
      else if n = 28 then word_of_int (max (uint a) (uint b))
      else b)"

definition valid_amo :: "nat \<Rightarrow> bool" where
  "valid_amo n \<longleftrightarrow> n \<in> {0, 1, 4, 8, 12, 16, 20, 24, 28}"

lemma atomic_update_eq: "valid_amo n \<Longrightarrow> atomic_update n a b = Inr (amo_spec n a b)"
  by (auto simp: valid_amo_def atomic_update_def amo_spec_def min_def max_def word_sless_alt
      word_less_def word_of_int_2p_len simp flip: word_of_int_hom_syms)

subsection \<open>The abstract data memory\<close>

text \<open>
  A data access over the flat memory and the reservation, if there is one: the value
  returned, the memory and the reservation afterwards.
\<close>

definition reservation :: "dcache_port \<Rightarrow> MemoryAddress option" where
  "reservation p = (if reservation_valid p then Some (reserved p) else None)"

definition data_access_spec ::
  "MemoryOperation \<Rightarrow> nat \<Rightarrow> SizeExtension \<Rightarrow> nat \<Rightarrow> u64 \<Rightarrow> MemoryAddress \<Rightarrow>
     (MemoryAddress \<Rightarrow> u8) \<Rightarrow> MemoryAddress option \<Rightarrow>
     u64 \<times> (MemoryAddress \<Rightarrow> u8) \<times> MemoryAddress option" where
  "data_access_spec oper s ext amo x a f R =
     (let old = extended ext (2 ^ s) (le_word (peek f a (2 ^ s)));
          store = (\<lambda>v. poke f a (le_bytes (2 ^ s) v)) in
      case oper of
        MEM_LOAD \<Rightarrow> (old, f, R)
      | MEM_LR \<Rightarrow> (old, f, Some a)
      | MEM_STORE \<Rightarrow> (0, store x, None)
      | MEM_SC \<Rightarrow> if R = Some a then (0, store x, None) else (1, f, R)
      | MEM_AMO \<Rightarrow> (old, store (amo_spec amo old (extended ext (2 ^ s) x)), None)
      | _ \<Rightarrow> (0, f, R))"

definition req_size :: "('d, 'h) dcache_world \<Rightarrow> nat" where
  "req_size w = unat (dcache_req_size (dut w))"

definition req_ext :: "('d, 'h) dcache_world \<Rightarrow> SizeExtension" where
  "req_ext w = size_ext_of (unat (dcache_req_size_ext (dut w)))"

definition req_amo :: "('d, 'h) dcache_world \<Rightarrow> nat" where
  "req_amo w = unat (drop_bit 2 (dcache_req_amo (dut w)))"

lemma req_size_less: "req_size w < 4"
  using unsigned_less [of "dcache_req_size (dut w)", where ?'a = nat] by (simp add: req_size_def)

lemma size_power: "s < 4 \<Longrightarrow> 0 < (2 :: nat) ^ s \<and> (2 :: nat) ^ s \<le> 8 \<and> unat (2 ^ s :: u64) = 2 ^ s"
  using size_cases by fastforce

lemma byte_at_put_size:
  "s < 4 \<Longrightarrow> byte_at (put_span (2 ^ s) a (le_bytes (2 ^ s) v) m) = poke (byte_at m) a (le_bytes (2 ^ s) v)"
  using size_power [of s] by (intro byte_at_put_span) auto

text \<open>One access at a physical address implements the abstract access.\<close>

lemma access_read_ok:
  assumes "oper = MEM_LOAD \<or> oper = MEM_LR \<or> oper = MEM_AMO" "access_ok (2 ^ req_size w) a"
  shows "read_memory oper (req_size w) a w =
    (Inr (le_word (peek (byte_at (memory w)) a (2 ^ req_size w))),
     w\<lparr>memory := touch_span (2 ^ req_size w) a (memory w)\<rparr>)"
  using assms by (simp add: read_memory_eq req_size_less)

lemma access_write_ok:
  assumes "access_ok (2 ^ req_size w) a" "plain_address env (memory w') a"
  shows "write_sized env (req_size w) a d w' =
    (Inr (), w'\<lparr>memory := put_span (2 ^ req_size w) a (le_bytes (2 ^ req_size w) d) (memory w'),
      port := (port w')\<lparr>reservation_valid := False\<rparr>\<rparr>)"
  using assms by (simp add: write_sized_eq req_size_less)

lemma access_extend:
  "valid_ext (req_ext w) \<Longrightarrow>
   size_extend v (2 ^ req_size w) (req_ext w) = Inr (extended (req_ext w) (2 ^ req_size w) v)"
  using size_power [OF req_size_less] by (intro size_extend_eq) auto

lemma plain_address_touch [simp]:
  "plain_address env (touch_span k b m) a = plain_address env m a"
  by (simp add: plain_address_def plain_write_def)

lemma host_put_size [simp]: "host (put_span k a bs m) = host m"
  by (simp add: put_span_def)

lemmas access_unfold =
  dcache_access_def bindM_apply gets_apply ret_apply of_sum_apply Let_def
  req_size_def [symmetric] req_ext_def [symmetric] req_amo_def [symmetric]

lemma dcache_access_refines:
  assumes "data_operation oper" "valid_ext (req_ext w)" "oper = MEM_AMO \<longrightarrow> valid_amo (req_amo w)"
    and "access_ok (2 ^ req_size w) a" "plain_address env (memory w) a"
  shows "\<exists>v w'. dcache_access env oper x a w = (Inr v, w') \<and>
    (v, byte_at (memory w'), reservation (port w')) =
      data_access_spec oper (req_size w) (req_ext w) (req_amo w) x a
        (byte_at (memory w)) (reservation (port w)) \<and>
    same_queue (port w) (port w') \<and> delayed_notif_ready (port w') = delayed_notif_ready (port w) \<and>
    dut w' = dut w \<and> host (memory w') = host (memory w)"
proof -
  note facts = access_read_ok access_write_ok access_extend byte_at_put_size req_size_less
  consider "oper = MEM_LOAD" | "oper = MEM_LR" | "oper = MEM_STORE" | "oper = MEM_SC" | "oper = MEM_AMO"
    using assms(1) by (auto simp: data_operation_def)
  then show ?thesis
  proof cases
    case 1
    then show ?thesis
      using assms by (simp add: access_unfold facts write_memory_def data_access_spec_def)
  next
    case 2
    then show ?thesis
      using assms by (simp add: access_unfold facts write_memory_def data_access_spec_def
          make_reservation_def modify_apply reservation_def same_queue_def)
  next
    case 3
    then show ?thesis
      using assms by (simp add: access_unfold facts write_memory_def read_memory_def
          data_access_spec_def reservation_def same_queue_def)
  next
    case 4
    then show ?thesis
      using assms by (simp add: access_unfold facts write_memory_def read_memory_def
          data_access_spec_def reservation_def same_queue_def check_reservation_def)
  next
    case 5
    then show ?thesis
      using assms by (simp add: access_unfold facts write_memory_def data_access_spec_def
          atomic_update_eq reservation_def same_queue_def)
  qed
qed

section \<open>Requests over the flat memory\<close>

definition req_op :: "('d, 'h) dcache_world \<Rightarrow> MemoryOperation" where
  "req_op w = mem_op_of (unat (dcache_req_op (dut w)))"

definition req_aligned :: "('d, 'h) dcache_world \<Rightarrow> bool" where
  "req_aligned w \<longleftrightarrow> dcache_req_address (dut w) AND mask (req_size w) = 0"

lemma aligned_eq: "s < 4 \<Longrightarrow> aligned a s = Inr (a AND mask s = 0)"
  using size_cases [of s] by (auto simp: aligned_def mask_numeral)

lemma dcache_translate_eq:
  "dcache_translate env (dcache_req_address (dut w)) (req_op w) w =
     (if \<not> req_aligned w then (Inl (Throw (AlignmentFault (dcache_req_address (dut w)))), w)
      else if atp_mode (dcache_req_atp (dut w)) = ATP_MODE_BARE
      then (Inr (dcache_req_address (dut w)), w)
      else on_memory (translate env (dcache_req_address (dut w)) (req_op w) (dcache_req_prv (dut w))
        (dcache_req_sum (dut w)) (dcache_req_mxr (dut w)) (dcache_req_atp (dut w))) w)"
  by (simp add: dcache_translate_def bindM_apply gets_apply of_sum_apply req_aligned_def
      aligned_eq [OF req_size_less] fail_apply ret_apply Let_def flip: req_size_def)

text \<open>A request that names a data operation with legal size extension and function codes.\<close>

definition wellformed_request :: "('d, 'h) dcache_world \<Rightarrow> bool" where
  "wellformed_request w \<longleftrightarrow> dcache_req_valid (dut w) \<and> data_operation (req_op w) \<and>
     valid_ext (req_ext w) \<and> (req_op w = MEM_AMO \<longrightarrow> valid_amo (req_amo w))"

lemma dcache_get_request_eq:
  assumes "dcache_req_valid (dut w)"
  shows "dcache_get_request env w =
    (case dcache_translate env (dcache_req_address (dut w)) (req_op w) w of (r, w1) \<Rightarrow>
       (case r of
          Inl e \<Rightarrow> dcache_catch (req_op w) (dcache_req_address (dut w)) e w1
        | Inr a \<Rightarrow> (case dcache_access env (req_op w) (dcache_req_value (dut w)) a w1 of (r2, w2) \<Rightarrow>
            (case r2 of
               Inl e \<Rightarrow> dcache_catch (req_op w) a e w2
             | Inr v \<Rightarrow> (Inr (), w2\<lparr>port := queued (port w2) v EXC_CAUSE_NONE\<rparr>)))))"
  using assms
  by (simp add: dcache_get_request_def bindM_apply gets_apply assertM_apply tryM_apply ret_apply
      dcache_can_receive_request_def queue_response_apply Let_def req_op_def
      split: prod.split sum.split)

text \<open>The abstract outcome of a request whose translation has led to address \<open>a\<close>.\<close>

definition request_spec ::
  "('d, 'h) dcache_world \<Rightarrow> MemoryAddress \<Rightarrow> (MemoryAddress \<Rightarrow> u8) \<Rightarrow>
     u64 \<times> (MemoryAddress \<Rightarrow> u8) \<times> MemoryAddress option" where
  "request_spec w a f = data_access_spec (req_op w) (req_size w) (req_ext w) (req_amo w)
     (dcache_req_value (dut w)) a f (reservation (port w))"

lemma response_due_same_queue: "same_queue p q \<Longrightarrow> response_due q = response_due p"
  by (auto simp: same_queue_def response_due_def fun_eq_iff)

lemma reservation_queued [simp]: "reservation (queued p d e) = reservation p"
  by (simp add: reservation_def queued_def)

lemma dcache_request_at:
  assumes wf: "wellformed_request w" and ok: "access_ok (2 ^ req_size w) a"
    and plain: "plain_address env m a"
    and tr: "dcache_translate env (dcache_req_address (dut w)) (req_op w) w = (Inr a, w\<lparr>memory := m\<rparr>)"
  shows "\<exists>v w'. dcache_get_request env w = (Inr (), w') \<and>
    (v, byte_at (memory w'), reservation (port w')) = request_spec w a (byte_at m) \<and>
    responses (port w') = responses (port w) @ [response_due (port w) v EXC_CAUSE_NONE] \<and>
    dut w' = dut w \<and> host (memory w') = host m"
proof -
  let ?w = "w\<lparr>memory := m\<rparr>"
  have same: "req_op ?w = req_op w" "req_size ?w = req_size w" "req_ext ?w = req_ext w"
    "req_amo ?w = req_amo w" by (simp_all add: req_op_def req_size_def req_ext_def req_amo_def)
  obtain v w2 where acc: "dcache_access env (req_op w) (dcache_req_value (dut w)) a ?w = (Inr v, w2)"
    and spec: "(v, byte_at (memory w2), reservation (port w2)) = request_spec w a (byte_at m)"
    and q: "same_queue (port w) (port w2)" and d: "dut w2 = dut w" and h: "host (memory w2) = host m"
    using dcache_access_refines [of "req_op w" ?w a env "dcache_req_value (dut w)"] wf ok plain
    by (auto simp: same wellformed_request_def request_spec_def)
  have "dcache_get_request env w = (Inr (), w2\<lparr>port := queued (port w2) v EXC_CAUSE_NONE\<rparr>)"
    using wf tr acc by (simp add: dcache_get_request_eq wellformed_request_def)
  then show ?thesis
    using spec q d h response_due_same_queue [OF q] by (auto simp: same_queue_def)
qed

lemma dcache_catch_eq:
  assumes "data_operation oper"
    and "(\<exists>x msg. e = Throw (AccessFault x msg)) \<or> (\<exists>x. e = Throw (AlignmentFault x)) \<or>
         (\<exists>x msg. e = Throw (PageFault x msg))"
  shows "\<exists>c. c \<noteq> EXC_CAUSE_NONE \<and> dcache_catch oper a e w = (Inr (), w\<lparr>port := queued (port w) a c\<rparr>)"
proof -
  obtain c where c: "c \<noteq> EXC_CAUSE_NONE"
    "dcache_catch oper a e w = bindM (of_sum (Inr c)) (queue_response a) w"
    using assms(2) data_operation_codes [OF assms(1)] by (elim disjE exE) (auto simp: dcache_catch_def)
  have "dcache_catch oper a e w = (Inr (), w\<lparr>port := queued (port w) a c\<rparr>)"
    by (simp add: c bindM_apply of_sum_apply queue_response_apply)
  with c show ?thesis by blast
qed

lemma dcache_translate_fault:
  assumes wf: "wellformed_request w"
    and tr: "dcache_translate env (dcache_req_address (dut w)) (req_op w) w = (Inl e, w\<lparr>memory := m\<rparr>)"
    and e: "(\<exists>x msg. e = Throw (AccessFault x msg)) \<or> (\<exists>x. e = Throw (AlignmentFault x)) \<or>
         (\<exists>x msg. e = Throw (PageFault x msg))"
  shows "\<exists>c. c \<noteq> EXC_CAUSE_NONE \<and> dcache_get_request env w =
    (Inr (), w\<lparr>memory := m, port := queued (port w) (dcache_req_address (dut w)) c\<rparr>)"
proof -
  let ?w = "w\<lparr>memory := m\<rparr>"
  have "data_operation (req_op w)" using wf by (simp add: wellformed_request_def)
  from dcache_catch_eq [OF this e, of "dcache_req_address (dut w)" ?w] obtain c where
    c: "c \<noteq> EXC_CAUSE_NONE" "dcache_catch (req_op w) (dcache_req_address (dut w)) e ?w =
      (Inr (), ?w\<lparr>port := queued (port w) (dcache_req_address (dut w)) c\<rparr>)"
    by auto
  have "dcache_get_request env w = dcache_catch (req_op w) (dcache_req_address (dut w)) e ?w"
    using wf tr by (simp add: dcache_get_request_eq wellformed_request_def)
  with c show ?thesis by (intro exI [of _ c]) simp
qed

lemma access_ok_low_size: "s < 4 \<Longrightarrow> access_ok (2 ^ s) (take_bit 32 x)"
proof -
  assume s: "s < 4"
  have "unat (take_bit 32 x :: u64) < 2 ^ 32"
    using take_bit_nat_less_exp [of 32 "unat x"] by (simp add: unsigned_take_bit_eq)
  moreover have "unat (2 ^ s - 1 :: u64) \<le> 7" using size_cases [OF s] by auto
  ultimately have "unat (take_bit 32 x + (2 ^ s - 1) :: u64) < 2 ^ 33"
    using unat_plus_upper [of "take_bit 32 x" "2 ^ s - 1 :: u64"] by simp
  then show ?thesis
    by (simp add: access_ok_def MAX_PHYSICAL_ADDRESS_def word_le_nat_alt add_diff_eq)
qed

subsection \<open>Faults\<close>

text \<open>
  The accesses at a physical address that fault: those beyond the physical limit, unless they
  only write and the write is a system call or a store-conditional that is not attempted.
\<close>

definition access_faults :: "'h sys_calls \<Rightarrow> MemoryOperation \<Rightarrow> ('d, 'h) dcache_world \<Rightarrow> MemoryAddress \<Rightarrow> bool" where
  "access_faults env oper w a \<longleftrightarrow> \<not> access_ok (2 ^ req_size w) a \<and>
     (oper = MEM_STORE \<longrightarrow> plain_address env (memory w) a) \<and>
     (oper = MEM_SC \<longrightarrow> reservation (port w) = Some a \<and> plain_address env (memory w) a)"

lemma write_sized_call:
  assumes "s < 4" "hosted env" "\<not> plain_address env (memory w) a"
  shows "\<exists>h. write_sized env s a d w = (Inr (), w\<lparr>memory := (memory w)\<lparr>host := h\<rparr>,
    port := (port w)\<lparr>reservation_valid := False\<rparr>\<rparr>)"
proof -
  obtain e where e: "\<not> plain_write env (memory w) a e" using assms(3) by (auto simp: plain_address_def)
  note calls = writes_call(1) [OF assms(2) e, of 2 "ucast d :: u16"] writes_call(1) [OF assms(2) e, of 4 "ucast d :: u32"]
    writes_call(1) [OF assms(2) e, of 8 d] writes_call(2) [OF assms(2) e, of "ucast d"]
  show ?thesis
    using size_cases [OF assms(1)] calls
    by (elim disjE) (auto simp: write_sized_def prog_simps write16_def write32_def write64_def clear_reservation_def
        clear_all_reservations_def)
qed

lemma write_sized_returns:
  assumes "hosted env" "access_ok (2 ^ req_size w) a \<or> \<not> plain_address env (memory w') a"
  shows "\<exists>w2. write_sized env (req_size w) a d w' = (Inr (), w2) \<and> same_queue (port w') (port w2)"
proof (cases "plain_address env (memory w') a")
  case True
  then show ?thesis using assms(2) by (simp add: access_write_ok same_queue_def)
next
  case False
  then show ?thesis using write_sized_call [OF req_size_less assms(1) False, of w d] by (auto simp: same_queue_def)
qed

lemma dcache_access_answers:
  assumes env: "hosted env" and data: "data_operation oper"
    and valid: "valid_ext (req_ext w)" "oper = MEM_AMO \<longrightarrow> valid_amo (req_amo w)"
  shows "if access_faults env oper w a then \<exists>x. dcache_access env oper d a w = (Inl (limit_fault x), w)
    else \<exists>v w'. dcache_access env oper d a w = (Inr v, w') \<and> same_queue (port w) (port w')"
proof -
  note read = read_memory_eq [OF req_size_less]
  note returns = write_sized_returns [OF env, of w]
  note refused = write_sized_eq [OF req_size_less, of env]
  consider "oper = MEM_LOAD \<or> oper = MEM_LR" | "oper = MEM_STORE" | "oper = MEM_SC" | "oper = MEM_AMO"
    using data by (auto simp: data_operation_def)
  then show ?thesis
  proof cases
    case 1
    then show ?thesis
      using valid by (auto simp: access_unfold read access_extend write_memory_def access_faults_def make_reservation_def
          modify_apply same_queue_def)
  next
    case 2
    then show ?thesis
      using returns [of a w d] refused [of w a w d]
      by (auto simp: access_unfold read_memory_def write_memory_def access_faults_def)
  next
    case 3
    then show ?thesis
      using returns [of a w d] refused [of w a w d]
      by (auto simp: access_unfold read_memory_def write_memory_def access_faults_def check_reservation_def
          reservation_def)
  next
    case 4
    let ?w = "w\<lparr>memory := touch_span (2 ^ req_size w) a (memory w)\<rparr>"
    show ?thesis
    proof (cases "access_ok (2 ^ req_size w) a")
      case True
      obtain w2 where w2: "write_sized env (req_size w) a (amo_spec (req_amo w)
          (extended (req_ext w) (2 ^ req_size w) (le_word (peek (byte_at (memory w)) a (2 ^ req_size w))))
          (extended (req_ext w) (2 ^ req_size w) d)) ?w = (Inr (), w2)" "same_queue (port ?w) (port w2)"
        using returns [OF disjI1 [OF True]] by blast
      then show ?thesis
        using 4 True valid
        by (simp add: access_unfold access_read_ok access_extend atomic_update_eq write_memory_def access_faults_def)
    next
      case False
      then show ?thesis using 4 by (auto simp: access_unfold read access_faults_def)
    qed
  qed
qed

text \<open>
  The requests that fault: misaligned ones, and depending on the mode those with a faulting access or
  without a leaf entry that permits them.
\<close>

definition request_faults :: "'h sys_calls \<Rightarrow> ('d, 'h) dcache_world \<Rightarrow> bool" where
  "request_faults env w \<longleftrightarrow> \<not> req_aligned w \<or>
     (if atp_mode (dcache_req_atp (dut w)) = ATP_MODE_BARE
      then access_faults env (req_op w) w (dcache_req_address (dut w))
      else \<nexists>j pa pte. sv39_leaf (byte_at (memory w)) (dcache_req_address (dut w)) (req_op w) (dcache_req_prv (dut w))
        (dcache_req_sum (dut w)) (dcache_req_mxr (dut w)) (dcache_req_atp (dut w)) j pa pte)"

lemma dcache_answers_at:
  assumes env: "hosted env" and wf: "wellformed_request w"
    and tr: "dcache_translate env (dcache_req_address (dut w)) (req_op w) w = (Inr a, w\<lparr>memory := m\<rparr>)"
  shows "if access_faults env (req_op w) (w\<lparr>memory := m\<rparr>) a
    then \<exists>c. c \<noteq> EXC_CAUSE_NONE \<and> dcache_get_request env w = (Inr (), w\<lparr>memory := m, port := queued (port w) a c\<rparr>)
    else \<exists>v w'. dcache_get_request env w = (Inr (), w') \<and>
      responses (port w') = responses (port w) @ [response_due (port w) v EXC_CAUSE_NONE]"
proof -
  let ?w = "w\<lparr>memory := m\<rparr>"
  have same: "req_ext ?w = req_ext w" "req_amo ?w = req_amo w" by (simp_all add: req_ext_def req_amo_def)
  have data: "data_operation (req_op w)" and valid: "dcache_req_valid (dut w)" "valid_ext (req_ext ?w)"
    "req_op w = MEM_AMO \<longrightarrow> valid_amo (req_amo ?w)"
    using wf by (simp_all add: wellformed_request_def same)
  note answers = dcache_access_answers [OF env data valid(2,3), of a "dcache_req_value (dut w)"]
  show ?thesis
  proof (cases "access_faults env (req_op w) ?w a")
    case True
    then obtain x where "dcache_access env (req_op w) (dcache_req_value (dut w)) a ?w = (Inl (limit_fault x), ?w)"
      using answers by auto
    moreover obtain c where "c \<noteq> EXC_CAUSE_NONE"
      "dcache_catch (req_op w) a (limit_fault x) ?w = (Inr (), ?w\<lparr>port := queued (port w) a c\<rparr>)"
      using dcache_catch_eq [OF data, of "limit_fault x" a ?w] by (auto simp: limit_fault_def)
    ultimately show ?thesis using True valid(1) tr by (auto simp: dcache_get_request_eq)
  next
    case False
    then obtain v w2 where w2: "dcache_access env (req_op w) (dcache_req_value (dut w)) a ?w = (Inr v, w2)"
      "same_queue (port w) (port w2)" using answers by auto
    then show ?thesis
      using False valid(1) tr response_due_same_queue [OF w2(2)] by (auto simp: dcache_get_request_eq same_queue_def)
  qed
qed

subsection \<open>Sequences of requests\<close>


definition bare_request :: "'h sys_calls \<Rightarrow> ('d, 'h) dcache_world \<Rightarrow> bool" where
  "bare_request env w \<longleftrightarrow> wellformed_request w \<and> req_aligned w \<and>
     atp_mode (dcache_req_atp (dut w)) = ATP_MODE_BARE \<and>
     access_ok (2 ^ req_size w) (dcache_req_address (dut w)) \<and>
     plain_address env (memory w) (dcache_req_address (dut w))"

lemma bare_request_step:
  assumes "bare_request env w"
  shows "\<exists>v w'. dcache_get_request env w = (Inr (), w') \<and>
    (v, byte_at (memory w'), reservation (port w')) =
      request_spec w (dcache_req_address (dut w)) (byte_at (memory w)) \<and>
    responses (port w') = responses (port w) @ [response_due (port w) v EXC_CAUSE_NONE] \<and>
    host (memory w') = host (memory w)"
proof -
  have wf: "wellformed_request w" and ok: "access_ok (2 ^ req_size w) (dcache_req_address (dut w))"
    and plain: "plain_address env (memory w) (dcache_req_address (dut w))"
    and tr: "dcache_translate env (dcache_req_address (dut w)) (req_op w) w =
      (Inr (dcache_req_address (dut w)), w\<lparr>memory := memory w\<rparr>)"
    using assms by (simp_all add: bare_request_def dcache_translate_eq)
  from dcache_request_at [OF wf ok plain tr] show ?thesis by blast
qed


lemma req_op_dut [simp]: "req_op (w\<lparr>dut := d\<rparr>) = mem_op_of (unat (dcache_req_op d))"
  by (simp add: req_op_def)






section \<open>Example requests\<close>

text \<open>An eight-byte request at address 0x2000 in user mode, for the witnesses below.\<close>

definition dcache_example_dut :: "3 word \<Rightarrow> u64 \<Rightarrow> u64 \<Rightarrow> dcache_signals" where
  "dcache_example_dut oper x atp =
     \<lparr>icache_req_valid = False, icache_req_pc = 0, icache_req_prv = False, icache_req_sum = False,
      icache_req_atp = 0, icache_resp_valid = False, icache_resp_instr = 0,
      icache_resp_exception = False, icache_resp_ex_code = 0,
      dcache_req_valid = True, dcache_req_address = 0x2000, dcache_req_value = x,
      dcache_req_op = oper, dcache_req_size = 3, dcache_req_size_ext = 2, dcache_req_amo = 0,
      dcache_req_prv = False, dcache_req_sum = False, dcache_req_mxr = False, dcache_req_atp = atp,
      dcache_resp_valid = False, dcache_resp_value = 0, dcache_ex_valid = False,
      dcache_ex_exception = (0, 0, 0), dcache_notif_valid = False, dcache_notif_ready = False\<rparr>"

definition dcache_example ::
  "3 word \<Rightarrow> u64 \<Rightarrow> u64 \<Rightarrow> 'h main_memory \<Rightarrow> (unit, 'h) dcache_world" where
  "dcache_example oper x atp m =
     \<lparr>port = new_data_cache_port 0 0 10, dut = dcache_example_dut oper x atp, memory = m\<rparr>"

lemma dcache_example_simps [simp]:
  "dcache_req_valid (dcache_example_dut oper x atp)"
  "dcache_req_address (dcache_example_dut oper x atp) = 0x2000"
  "dcache_req_value (dcache_example_dut oper x atp) = x"
  "dcache_req_op (dcache_example_dut oper x atp) = oper"
  "dcache_req_size (dcache_example_dut oper x atp) = 3"
  "dcache_req_size_ext (dcache_example_dut oper x atp) = 2"
  "dcache_req_amo (dcache_example_dut oper x atp) = 0"
  "dcache_req_prv (dcache_example_dut oper x atp) = False"
  "dcache_req_sum (dcache_example_dut oper x atp) = False"
  "dcache_req_mxr (dcache_example_dut oper x atp) = False"
  "dcache_req_atp (dcache_example_dut oper x atp) = atp"
  "dut (dcache_example oper x atp m) = dcache_example_dut oper x atp"
  "memory (dcache_example oper x atp m) = m"
  "port (dcache_example oper x atp m) = new_data_cache_port 0 0 10"
  by (simp_all add: dcache_example_dut_def dcache_example_def)

lemma plain_no_system_calls [simp]: "plain_address no_system_calls m a"
  by (simp add: plain_address_def plain_write_def no_system_calls_def)

lemma example_wellformed:
  "dut w = dcache_example_dut oper x atp \<Longrightarrow> oper = 1 \<or> oper = 2 \<or> oper = 5 \<or> oper = 6 \<or> oper = 7 \<Longrightarrow>
   wellformed_request w \<and> req_aligned w \<and> req_size w = 3"
  by (auto simp: wellformed_request_def req_op_def req_ext_def req_amo_def req_size_def
      req_aligned_def mem_op_of_def size_ext_of_def data_operation_def valid_ext_def valid_amo_def
      mask_numeral)

lemma example_bare:
  "dut w = dcache_example_dut oper x 0 \<Longrightarrow> oper = 1 \<or> oper = 2 \<or> oper = 5 \<or> oper = 6 \<or> oper = 7 \<Longrightarrow>
   bare_request no_system_calls w"
  using example_wellformed [of w oper x 0]
  by (simp add: bare_request_def access_ok_def MAX_PHYSICAL_ADDRESS_def atp_mode_def atp_mode_of_def)

section \<open>Properties\<close>

text \<open>
  C12: Without address translation, a well-formed aligned request within the physical limit
  implements the abstract data memory: loads, stores, atomic updates, load-reserved and
  store-conditional return the value, leave the bytes and keep the reservation that
  \<open>data_access_spec\<close> describes, and the value is queued as the one response.
\<close>

theorem dcache_request_bare:
  assumes "wellformed_request w" "req_aligned w"
    and "atp_mode (dcache_req_atp (dut w)) = ATP_MODE_BARE"
    and "access_ok (2 ^ req_size w) (dcache_req_address (dut w))"
    and "plain_address env (memory w) (dcache_req_address (dut w))"
  shows "\<exists>v w'. dcache_get_request env w = (Inr (), w') \<and>
    (v, byte_at (memory w'), reservation (port w')) =
      request_spec w (dcache_req_address (dut w)) (byte_at (memory w)) \<and>
    responses (port w') = responses (port w) @ [response_due (port w) v EXC_CAUSE_NONE]"
  using dcache_request_at [OF assms(1,4,5)] assms(2,3) by (auto simp: dcache_translate_eq)

theorem dcache_request_bare_witness:
  "\<exists>v w'. dcache_get_request no_system_calls (dcache_example 2 7 0 zeroed_memory) = (Inr (), w') \<and>
     byte_at (memory w') = poke (byte_at zeroed_memory) 0x2000 (le_bytes 8 (7 :: u64)) \<and>
     responses (port w') = [response_due (new_data_cache_port 0 0 10) v EXC_CAUSE_NONE]"
proof -
  let ?w = "dcache_example 2 7 0 zeroed_memory"
  have b: "bare_request no_system_calls ?w" using example_bare [of ?w 2 7] by simp
  from dcache_request_bare [of ?w no_system_calls] b obtain v w' where
    "dcache_get_request no_system_calls ?w = (Inr (), w')"
    "(v, byte_at (memory w'), reservation (port w')) = request_spec ?w 0x2000 (byte_at zeroed_memory)"
    "responses (port w') = [response_due (new_data_cache_port 0 0 10) v EXC_CAUSE_NONE]"
    by (auto simp: bare_request_def new_data_cache_port_def)
  then show ?thesis
    by (auto simp: request_spec_def data_access_spec_def Let_def req_op_def mem_op_of_def req_size_def)
qed

lemma dcache_translate_leaf:
  assumes "req_aligned w" "dcache_req_atp (dut w) = atp" "atp_mode atp = ATP_MODE_SV39"
    and "sv39_leaf (byte_at (memory w)) (dcache_req_address (dut w)) (req_op w)
      (dcache_req_prv (dut w)) (dcache_req_sum (dut w)) (dcache_req_mxr (dut w)) atp j pa pte"
    and "plain_write env (memory w) pa (mark_used (req_op w) pte)"
  shows "\<exists>m'. dcache_translate env (dcache_req_address (dut w)) (req_op w) w =
      (Inr (take_bit 32 (sv39_physical (dcache_req_address (dut w)) j pte)), w\<lparr>memory := m'\<rparr>) \<and>
    byte_at m' = poke (byte_at (memory w)) pa (le_bytes 8 (mark_used (req_op w) pte)) \<and> host m' = host (memory w)"
  using translate_success [OF assms(4,3,5)] assms(1-3) by (auto simp: dcache_translate_eq on_memory_apply)

text \<open>
  C13: Under Sv39, a well-formed aligned request that the page tables permit implements the
  abstract data memory at the translated address, after the leaf entry has been marked.
\<close>

theorem dcache_request_sv39:
  assumes "wellformed_request w" "req_aligned w" "dcache_req_atp (dut w) = atp"
    "atp_mode atp = ATP_MODE_SV39"
    and leaf: "sv39_leaf (byte_at (memory w)) (dcache_req_address (dut w)) (req_op w)
      (dcache_req_prv (dut w)) (dcache_req_sum (dut w)) (dcache_req_mxr (dut w)) atp j pa pte"
    and "plain_write env (memory w) pa (mark_used (req_op w) pte)"
    and "plain_address env (memory w) (take_bit 32 (sv39_physical (dcache_req_address (dut w)) j pte))"
  shows "\<exists>v w'. dcache_get_request env w = (Inr (), w') \<and>
    (v, byte_at (memory w'), reservation (port w')) =
      request_spec w (take_bit 32 (sv39_physical (dcache_req_address (dut w)) j pte))
        (poke (byte_at (memory w)) pa (le_bytes 8 (mark_used (req_op w) pte))) \<and>
    responses (port w') = responses (port w) @ [response_due (port w) v EXC_CAUSE_NONE]"
proof -
  let ?a = "take_bit 32 (sv39_physical (dcache_req_address (dut w)) j pte)"
  from dcache_translate_leaf [OF assms(2-4) leaf assms(6)] obtain m' where
    tr: "dcache_translate env (dcache_req_address (dut w)) (req_op w) w = (Inr ?a, w\<lparr>memory := m'\<rparr>)"
    and m': "byte_at m' = poke (byte_at (memory w)) pa (le_bytes 8 (mark_used (req_op w) pte))"
      "host m' = host (memory w)" by blast
  have "plain_address env m' ?a"
    using assms(7) m'(2) by (simp add: plain_address_def plain_write_def)
  from dcache_request_at [OF assms(1) access_ok_low_size [OF req_size_less] this tr] show ?thesis
    unfolding m'(1) by blast
qed

theorem dcache_request_sv39_witness:
  "\<exists>v w'. dcache_get_request no_system_calls
       (dcache_example 1 0 0x8000000000000001 (one_entry_table user_rwx_entry)) = (Inr (), w') \<and>
     responses (port w') = [response_due (new_data_cache_port 0 0 10) v EXC_CAUSE_NONE]"
proof -
  let ?w = "dcache_example 1 0 0x8000000000000001 (one_entry_table user_rwx_entry)"
  have wf: "wellformed_request ?w" "req_aligned ?w"
    using example_wellformed [of ?w 1 0 "0x8000000000000001"] by simp_all
  have op: "req_op ?w = MEM_LOAD" by (simp add: req_op_def mem_op_of_def)
  have "plain_write no_system_calls (memory ?w) 0x1000 (mark_used (req_op ?w) user_rwx_entry)"
    by (simp add: plain_write_def no_system_calls_def)
  from dcache_request_sv39 [OF wf _ sv39_mode_example _ this, of 2] user_rwx_entry_leaf op
  show ?thesis by (auto simp: new_data_cache_port_def)
qed

lemma dcache_translate_no_leaf:
  assumes "req_aligned w" "dcache_req_atp (dut w) = atp" "atp_mode atp = ATP_MODE_SV39"
    and "\<nexists>j pa pte. sv39_leaf (byte_at (memory w)) (dcache_req_address (dut w)) (req_op w)
      (dcache_req_prv (dut w)) (dcache_req_sum (dut w)) (dcache_req_mxr (dut w)) atp j pa pte"
  shows "\<exists>e m. dcache_translate env (dcache_req_address (dut w)) (req_op w) w = (Inl e, w\<lparr>memory := m\<rparr>) \<and>
    byte_at m = byte_at (memory w) \<and> host m = host (memory w) \<and> table_fault (dcache_req_address (dut w)) e"
proof -
  have "\<not> sv39_leaf (byte_at (memory w)) (dcache_req_address (dut w)) (req_op w)
      (dcache_req_prv (dut w)) (dcache_req_sum (dut w)) (dcache_req_mxr (dut w)) atp j pa pte" for j pa pte
    using assms(4) by blast
  from translate_failure [OF this assms(3), of env] show ?thesis
    using assms(1-3) by (auto simp: dcache_translate_eq on_memory_apply)
qed

lemma dcache_request_precise:
  assumes env: "hosted env" and wf: "wellformed_request w"
    and mode: "atp_mode (dcache_req_atp (dut w)) = ATP_MODE_BARE \<or>
      atp_mode (dcache_req_atp (dut w)) = ATP_MODE_SV39"
  shows "\<exists>v c w'. dcache_get_request env w = (Inr (), w') \<and>
    responses (port w') = responses (port w) @ [response_due (port w) v c] \<and>
    (c \<noteq> EXC_CAUSE_NONE \<longleftrightarrow> request_faults env w) \<and>
    (c \<noteq> EXC_CAUSE_NONE \<longrightarrow> byte_at (memory w') = byte_at (memory w) \<and>
       reservation (port w') = reservation (port w) \<and> host (memory w') = host (memory w))"
proof -
  let ?va = "dcache_req_address (dut w)"
  let ?leaf = "sv39_leaf (byte_at (memory w)) ?va (req_op w) (dcache_req_prv (dut w))
    (dcache_req_sum (dut w)) (dcache_req_mxr (dut w)) (dcache_req_atp (dut w))"
  have fault: ?thesis if "dcache_translate env ?va (req_op w) w = (Inl e, w\<lparr>memory := m\<rparr>)"
    "byte_at m = byte_at (memory w)" "host m = host (memory w)" "request_faults env w"
    "(\<exists>x msg. e = Throw (AccessFault x msg)) \<or> (\<exists>x. e = Throw (AlignmentFault x)) \<or>
     (\<exists>x msg. e = Throw (PageFault x msg))" for e m
    using dcache_translate_fault [OF wf that(1,5)] that(2-4) by auto
  consider "\<not> req_aligned w" | "req_aligned w" "atp_mode (dcache_req_atp (dut w)) = ATP_MODE_BARE"
    | j pa pte where "req_aligned w" "atp_mode (dcache_req_atp (dut w)) = ATP_MODE_SV39" "?leaf j pa pte"
    | "req_aligned w" "atp_mode (dcache_req_atp (dut w)) = ATP_MODE_SV39" "\<nexists>j pa pte. ?leaf j pa pte"
    using mode by blast
  then show ?thesis
  proof cases
    case 1
    then show ?thesis using fault [of _ "memory w"] by (simp add: dcache_translate_eq request_faults_def)
  next
    case 2
    then have "request_faults env w \<longleftrightarrow> access_faults env (req_op w) w ?va"
      and "dcache_translate env ?va (req_op w) w = (Inr ?va, w\<lparr>memory := memory w\<rparr>)"
      by (simp_all add: request_faults_def dcache_translate_eq)
    with dcache_answers_at [OF env wf, of ?va "memory w"] show ?thesis
      by (cases "access_faults env (req_op w) w ?va") auto
  next
    case 3
    from translate_returns [OF 3(3,2) env] 3(1,2) obtain m where
      tr: "dcache_translate env ?va (req_op w) w = (Inr (take_bit 32 (sv39_physical ?va j pte)), w\<lparr>memory := m\<rparr>)"
      by (auto simp: dcache_translate_eq on_memory_apply)
    have "access_ok (2 ^ req_size (w\<lparr>memory := m\<rparr>)) (take_bit 32 (sv39_physical ?va j pte))"
      by (rule access_ok_low_size [OF req_size_less])
    then have "\<not> access_faults env (req_op w) (w\<lparr>memory := m\<rparr>) (take_bit 32 (sv39_physical ?va j pte))"
      by (simp add: access_faults_def)
    moreover have "\<not> request_faults env w" using 3 by (auto simp: request_faults_def)
    ultimately show ?thesis using dcache_answers_at [OF env wf tr] by auto
  next
    case 4
    from dcache_translate_no_leaf [OF 4(1) refl 4(2,3)] obtain e m where
      tr: "dcache_translate env ?va (req_op w) w = (Inl e, w\<lparr>memory := m\<rparr>)"
      and m: "byte_at m = byte_at (memory w)" "host m = host (memory w)" and e: "table_fault ?va e" by blast
    have "request_faults env w" using 4 by (simp add: request_faults_def)
    then show ?thesis
      by (intro fault [OF tr m]) (use e in \<open>auto simp: table_fault_def limit_fault_def\<close>)
  qed
qed



text \<open>
  C16: However the design drives it, the data port keeps to its schedule: before every cycle
  its queue holds at most one response more than the latency, none is due later than the
  latency allows, and the one at position \<open>i\<close> can leave by the cycle after it is due, in
  the order of the requests.
\<close>

theorem dcache_keeps_schedule:
  assumes "port_run (dcache_methods env) l c w" "c < 2 ^ 63"
  shows "length (responses (port w)) \<le> unat l + 1 \<and>
    (\<forall>i < length (responses (port w)).
       c + i \<le> unat (resp_time (responses (port w) ! i)) + 1 \<and>
       unat (resp_time (responses (port w) ! i)) \<le> c + unat l)"
  using assms by (rule dcache.run_queue_bounds)

theorem dcache_keeps_schedule_witness:
  "\<exists>w. port_run (dcache_methods no_system_calls) 10 0 w \<and> responses (port (w :: (unit, unit) dcache_world)) \<noteq> [] \<and>
     length (responses (port w)) \<le> 11"
proof -
  let ?w = "dcache_example 1 0 0 zeroed_memory"
  let ?w0 = "?w\<lparr>port := (port ?w)\<lparr>current_cycle := 0\<rparr>\<rparr>"
  have "bare_request no_system_calls ?w0" using example_bare [of ?w0 1 0] by simp
  from bare_request_step [OF this] obtain w' where
    g: "dcache_get_request no_system_calls ?w0 = (Inr (), w')" "responses (port w') \<noteq> []" by auto
  have "MemoryPort_get_inputs (dcache_methods no_system_calls) 0 ?w = (Inr (), w')"
    using g(1) by (simp add: MemoryPort_get_inputs_def dcache_methods_def set_cycle_def prog_simps
        dcache_can_receive_request_def)
  then have run: "port_run (dcache_methods no_system_calls) 10 0 w'"
    by (intro port_run.start) (simp_all add: new_data_cache_port_def)
  from dcache_keeps_schedule [OF run] run g(2) show ?thesis by auto
qed

lemma join_halves:
  "push_bit 32 (ucast (ucast (drop_bit 32 x) :: u32)) OR ucast (ucast (x AND 0xFFFFFFFF) :: u32) =
   (x :: u64)"
proof -
  have m: "(0xFFFFFFFF :: u64) = mask 32" by (simp add: mask_eq_exp_minus_1)
  show ?thesis unfolding m by (rule bit_word_eqI) (auto simp: bit_simps)
qed

text \<open>
  C17: When its front response is due, the data port hands exactly that response to the design
  and removes it: a value appears with \<open>dcache_resp_valid\<close> and no exception; an exception
  suppresses the value and packs address and cause so that they can be read back from the three words.
\<close>

theorem dcache_sends_front:
  assumes "responses (port w) = r # rs" "resp_time r \<le> t"
  shows "\<exists>w'. MemoryPort_set_outputs (dcache_methods env) t w = (Inr (), w') \<and>
    responses (port w') = rs \<and> dcache_resp_value (dut w') = resp_data r \<and>
    dcache_resp_valid (dut w') = (resp_exception r = EXC_CAUSE_NONE) \<and>
    dcache_ex_valid (dut w') = (resp_exception r \<noteq> EXC_CAUSE_NONE) \<and>
    (resp_exception r \<noteq> EXC_CAUSE_NONE \<longrightarrow>
      (case dcache_ex_exception (dut w') of (e0, e1, e2) \<Rightarrow>
         push_bit 32 (ucast e1) OR ucast e0 = resp_data r \<and>
         unat e2 = exc_cause_value (resp_exception r)))"
proof -
  have code: "exc_cause_value c < 2 ^ 32" for c by (cases c) simp_all
  then have u: "unat (of_nat (exc_cause_value c) :: u32) = exc_cause_value c" for c
    by (simp add: unsigned_of_nat take_bit_nat_eq_self)
  show ?thesis
    using assms
    by (simp add: MemoryPort_set_outputs_def set_cycle_def set_front_def pop_response_def
        dcache_methods_def dcache_clear_response_def dcache_send_response_def
        dcache_can_send_response_def clear_all_reservations_def prog_simps join_halves u)
qed

theorem dcache_sends_front_witness:
  "\<exists>w'. MemoryPort_set_outputs (dcache_methods no_system_calls) 10
       ((dcache_example 1 0 0 zeroed_memory)\<lparr>port := queued (new_data_cache_port 0 0 10) 0x2001
          EXC_CAUSE_LOAD_MISALIGN\<rparr>) = (Inr (), w') \<and>
     dcache_ex_valid (dut w') \<and> \<not> dcache_resp_valid (dut w')"
  using dcache_sends_front [of "(dcache_example 1 0 0 zeroed_memory)\<lparr>port := queued
      (new_data_cache_port 0 0 10) 0x2001 EXC_CAUSE_LOAD_MISALIGN\<rparr>"
      "response_due (new_data_cache_port 0 0 10) 0x2001 EXC_CAUSE_LOAD_MISALIGN" "[]" 10
      no_system_calls]
  by (auto simp: new_data_cache_port_def response_due_def)

end
