(* ===== verification/Argument_Parser.thy ===== *)
theory Argument_Parser
  imports Muntjac_Prelude "HOL-Library.List_Lexorder" "HOL-Library.Char_ord"
begin

text \<open>
  The command line parser of \<open>argument_parser.cc\<close>: the arguments it watches for, the
  loop over \<open>argv\<close>, and what was found. A \<open>std::map\<close> keyed by strings is an association
  list in the order of its keys, the order in which \<open>print_help\<close> visits it.
\<close>

section \<open>Ordered maps\<close>

fun map_put :: "'k::linorder \<Rightarrow> 'v \<Rightarrow> ('k \<times> 'v) list \<Rightarrow> ('k \<times> 'v) list" where
  "map_put k v [] = [(k, v)]"
| "map_put k v ((k', v') # kvs) =
     (if k < k' then (k, v) # (k', v') # kvs
      else if k = k' then (k, v) # kvs
      else (k', v') # map_put k v kvs)"

lemma map_of_map_put: "map_of (map_put k v kvs) = (map_of kvs)(k \<mapsto> v)"
  by (induction k v kvs rule: map_put.induct) auto

lemma set_map_put: "fst ` set (map_put k v kvs) = insert k (fst ` set kvs)"
  by (induction k v kvs rule: map_put.induct) auto

lemma sorted_map_put:
  "sorted_wrt (<) (map fst kvs) \<Longrightarrow> sorted_wrt (<) (map fst (map_put k v kvs))"
proof (induction k v kvs rule: map_put.induct)
  case (2 k v k' v' kvs)
  then show ?case
    using set_map_put [of k v kvs] by (auto simp: image_iff)
qed simp

section \<open>State\<close>

datatype NumArgs = ARGS_NONE | ARGS_ONE | ARGS_REMAINING

record ArgInfo =
  description :: string
  num_args :: NumArgs

record ArgumentParser =
  program_description :: string
  arg_info :: "(string \<times> ArgInfo) list"
  args_found :: "(string \<times> string) list"
  args_parsed :: nat

definition new_argument_parser :: ArgumentParser where
  "new_argument_parser =
     \<lparr>program_description = [], arg_info = [], args_found = [], args_parsed = 0\<rparr>"

definition set_description :: "string \<Rightarrow> ArgumentParser \<Rightarrow> ArgumentParser" where
  "set_description d p = p\<lparr>program_description := d\<rparr>"

definition add_argument :: "string \<Rightarrow> string \<Rightarrow> NumArgs \<Rightarrow> ArgumentParser \<Rightarrow> ArgumentParser" where
  "add_argument name d a p =
     p\<lparr>arg_info := map_put name \<lparr>description = d, num_args = a\<rparr> (arg_info p)\<rparr>"

section \<open>Parsing\<close>

text \<open>Both \<open>--arg=X\<close> and \<open>--arg X\<close> are allowed: the text around the first \<open>=\<close>, if any.\<close>

definition split_argument :: "string \<Rightarrow> string \<times> string" where
  "split_argument arg =
     (if CHR ''='' \<in> set arg
      then (takeWhile (\<lambda>c. c \<noteq> CHR ''='') arg, tl (dropWhile (\<lambda>c. c \<noteq> CHR ''='') arg))
      else (arg, []))"

definition record_found :: "string \<Rightarrow> string \<Rightarrow> nat \<Rightarrow> ArgumentParser \<Rightarrow> ArgumentParser" where
  "record_found name value n p =
     p\<lparr>args_found := map_put name value (args_found p), args_parsed := args_parsed p + n\<rparr>"

text \<open>
  The loop, on the arguments from index \<open>args_parsed\<close> on. Taking the value of an argument
  that is the last one reads \<open>argv[argc]\<close>, a null pointer, from which no string can be
  made.
\<close>

fun parse_loop :: "string list \<Rightarrow> (ArgumentParser, unit) prog" where
  "parse_loop [] p = (Inr (), p)"
| "parse_loop (arg # rest) p =
     (case split_argument arg of (name, value) \<Rightarrow>
       (case map_of (arg_info p) name of
          None \<Rightarrow> (Inr (), p)
        | Some info \<Rightarrow>
            if num_args info = ARGS_ONE \<and> value = [] then
              (case rest of
                 [] \<Rightarrow> (Inl Undefined, p\<lparr>args_parsed := args_parsed p + 1\<rparr>)
               | next_arg # rest' \<Rightarrow> parse_loop rest' (record_found name next_arg 2 p))
            else if num_args info = ARGS_REMAINING then
              (Inr (), record_found name (value @ concat (map (\<lambda>a. '' '' @ a) rest)) (1 + length rest) p)
            else parse_loop rest (record_found name value 1 p)))"

definition parse_args :: "string list \<Rightarrow> (ArgumentParser, unit) prog" where
  "parse_args argv p = parse_loop argv (p\<lparr>args_parsed := 0\<rparr>)"

definition get_args_parsed :: "ArgumentParser \<Rightarrow> nat" where
  "get_args_parsed p = args_parsed p"

definition found_arg :: "string \<Rightarrow> ArgumentParser \<Rightarrow> bool" where
  "found_arg name p \<longleftrightarrow> map_of (args_found p) name \<noteq> None"

definition get_arg :: "string \<Rightarrow> ArgumentParser \<Rightarrow> failure + string" where
  "get_arg name p =
     (case map_of (args_found p) name of
        None \<Rightarrow> Inl (Throw (OutOfRange ''map::at''))
      | Some v \<Rightarrow> Inr v)"

text \<open>The text that \<open>print_help\<close> writes.\<close>

definition newline :: string where "newline = [CHR 0x0A]"

definition help_line :: "string \<times> ArgInfo \<Rightarrow> string" where
  "help_line e = ''  '' @ fst e @ (if num_args (snd e) = ARGS_ONE then '' X'' else []) @ newline
     @ ''        '' @ description (snd e) @ newline"

definition print_help :: "ArgumentParser \<Rightarrow> string" where
  "print_help p = program_description p @ newline @ newline @ ''Arguments:'' @ newline
     @ concat (map help_line (arg_info p))"

section \<open>What a command line means\<close>

text \<open>
  The options a command line can be written from: a flag, and an argument with its value in
  one word or in two.
\<close>

datatype option_word = Flag string | Joined string string | Separate string string

fun option_words :: "option_word \<Rightarrow> string list" where
  "option_words (Flag n) = [n]"
| "option_words (Joined n v) = [n @ ''='' @ v]"
| "option_words (Separate n v) = [n, v]"

fun option_entry :: "option_word \<Rightarrow> string \<times> string" where
  "option_entry (Flag n) = (n, [])"
| "option_entry (Joined n v) = (n, v)"
| "option_entry (Separate n v) = (n, v)"

fun option_ok :: "(string \<rightharpoonup> ArgInfo) \<Rightarrow> option_word \<Rightarrow> bool" where
  "option_ok infos (Flag n) \<longleftrightarrow> CHR ''='' \<notin> set n \<and> (\<exists>i. infos n = Some i \<and> num_args i = ARGS_NONE)"
| "option_ok infos (Joined n v) \<longleftrightarrow>
     CHR ''='' \<notin> set n \<and> v \<noteq> [] \<and> (\<exists>i. infos n = Some i \<and> num_args i = ARGS_ONE)"
| "option_ok infos (Separate n v) \<longleftrightarrow>
     CHR ''='' \<notin> set n \<and> (\<exists>i. infos n = Some i \<and> num_args i = ARGS_ONE)"

definition unknown_word :: "(string \<rightharpoonup> ArgInfo) \<Rightarrow> string \<Rightarrow> bool" where
  "unknown_word infos arg \<longleftrightarrow> infos (fst (split_argument arg)) = None"

lemma split_plain: "CHR ''='' \<notin> set n \<Longrightarrow> split_argument n = (n, [])"
  by (simp add: split_argument_def)

lemma split_joined: "CHR ''='' \<notin> set n \<Longrightarrow> split_argument (n @ ''='' @ v) = (n, v)"
proof -
  assume "CHR ''='' \<notin> set n"
  then have "takeWhile (\<lambda>c. c \<noteq> CHR ''='') n = n" "dropWhile (\<lambda>c. c \<noteq> CHR ''='') n = []"
    by (auto simp: takeWhile_eq_all_conv)
  moreover have "\<forall>c \<in> set n. c \<noteq> CHR ''=''" using \<open>CHR ''='' \<notin> set n\<close> by auto
  ultimately show ?thesis
    by (simp add: split_argument_def takeWhile_append dropWhile_append)
qed

lemma arg_info_record_found [simp]: "arg_info (record_found n v k p) = arg_info p"
  by (simp add: record_found_def)

lemma parse_option:
  assumes "option_ok (map_of (arg_info p)) opt"
  shows "parse_loop (option_words opt @ rest) p =
    parse_loop rest (record_found (fst (option_entry opt)) (snd (option_entry opt))
      (length (option_words opt)) p)"
  using assms
  by (cases opt) (auto simp: split_plain split_joined [simplified] numeral_2_eq_2)

lemma parse_options:
  assumes "\<forall>opt \<in> set opts. option_ok (map_of (arg_info p)) opt"
  shows "parse_loop (concat (map option_words opts) @ rest) p =
    parse_loop rest (p\<lparr>args_found := fold (\<lambda>(n, v). map_put n v) (map option_entry opts) (args_found p),
      args_parsed := args_parsed p + length (concat (map option_words opts))\<rparr>)"
  using assms
proof (induction opts arbitrary: p)
  case (Cons opt opts)
  then show ?case by (simp add: parse_option split_beta record_found_def add.assoc)
qed simp

text \<open>Where the loop stops, and how it can fail.\<close>

lemma parse_loop_cases:
  assumes "parse_loop (arg # rest) p = (r, p')"
  obtains "unknown_word (map_of (arg_info p)) arg" "r = Inr ()" "p' = p"
  | i where "map_of (arg_info p) (fst (split_argument arg)) = Some i" "num_args i = ARGS_ONE"
      "snd (split_argument arg) = []" "rest = []" "r = Inl Undefined"
  | v rest' where "rest = v # rest'"
      "parse_loop rest' (record_found (fst (split_argument arg)) v 2 p) = (r, p')"
  | v where "r = Inr ()" "p' = record_found (fst (split_argument arg)) v (1 + length rest) p"
  | "parse_loop rest (record_found (fst (split_argument arg)) (snd (split_argument arg)) 1 p) = (r, p')"
proof (cases "map_of (arg_info p) (fst (split_argument arg))")
  case None
  then have "(r, p') = (Inr (), p)" using assms by (simp add: split_beta)
  with None show ?thesis by (intro that(1)) (simp_all add: unknown_word_def)
next
  case (Some i)
  let ?n = "fst (split_argument arg)" and ?v = "snd (split_argument arg)"
  consider "num_args i = ARGS_ONE" "?v = []" "rest = []"
    | v rest' where "num_args i = ARGS_ONE" "?v = []" "rest = v # rest'"
    | "\<not> (num_args i = ARGS_ONE \<and> ?v = [])" "num_args i = ARGS_REMAINING"
    | "\<not> (num_args i = ARGS_ONE \<and> ?v = [])" "num_args i \<noteq> ARGS_REMAINING"
    by (metis list.exhaust)
  then show ?thesis
  proof cases
    case 1
    then show ?thesis using assms Some by (intro that(2) [of i]) (simp_all add: split_beta)
  next
    case (2 v rest')
    then show ?thesis using assms Some by (intro that(3) [of v rest']) (simp_all add: split_beta)
  next
    case 3
    then show ?thesis
      using assms Some by (intro that(4)) (auto simp: split_beta)
  next
    case 4
    then show ?thesis using assms Some by (intro that(5)) (auto simp: split_beta)
  qed
qed

lemma parse_loop_stops:
  "parse_loop args p = (Inr (), p') \<Longrightarrow>
   \<exists>taken rest. args = taken @ rest \<and> args_parsed p' = args_parsed p + length taken \<and>
     arg_info p' = arg_info p \<and> (rest = [] \<or> unknown_word (map_of (arg_info p)) (hd rest))"
proof (induction args arbitrary: p rule: length_induct)
  case (1 args)
  show ?case
  proof (cases args)
    case Nil
    then show ?thesis using "1.prems" by simp
  next
    case (Cons arg rest)
    have IH: "\<exists>taken rest'. args' = taken @ rest' \<and> args_parsed p' = args_parsed q + length taken \<and>
        arg_info p' = arg_info q \<and> (rest' = [] \<or> unknown_word (map_of (arg_info q)) (hd rest'))"
      if "length args' < length args" "parse_loop args' q = (Inr (), p')" for args' q
      using "1.IH" that by blast
    from "1.prems" have "parse_loop (arg # rest) p = (Inr (), p')" by (simp add: Cons)
    then show ?thesis
    proof (cases rule: parse_loop_cases)
      case 1
      then show ?thesis by (intro exI [of _ "[]"] exI [of _ args]) (simp add: Cons)
    next
      case (3 v rest')
      with IH [of rest' "record_found (fst (split_argument arg)) v 2 p"] obtain taken rest'' where
        "rest' = taken @ rest''" "args_parsed p' = args_parsed p + 2 + length taken"
        "arg_info p' = arg_info p" "rest'' = [] \<or> unknown_word (map_of (arg_info p)) (hd rest'')"
        by (auto simp: Cons record_found_def)
      then show ?thesis
        by (intro exI [of _ "arg # v # taken"] exI [of _ rest'']) (simp add: Cons 3)
    next
      case (4 v)
      then show ?thesis by (intro exI [of _ args] exI [of _ "[]"]) (simp add: Cons record_found_def)
    next
      case 5
      with IH [of rest "record_found (fst (split_argument arg)) (snd (split_argument arg)) 1 p"]
      obtain taken rest'' where
        "rest = taken @ rest''" "args_parsed p' = args_parsed p + 1 + length taken"
        "arg_info p' = arg_info p" "rest'' = [] \<or> unknown_word (map_of (arg_info p)) (hd rest'')"
        by (auto simp: Cons record_found_def)
      then show ?thesis
        by (intro exI [of _ "arg # taken"] exI [of _ rest'']) (simp add: Cons)
    qed auto
  qed
qed

definition lacks_value :: "(string \<rightharpoonup> ArgInfo) \<Rightarrow> string \<Rightarrow> bool" where
  "lacks_value infos arg \<longleftrightarrow> snd (split_argument arg) = [] \<and>
     (\<exists>i. infos (fst (split_argument arg)) = Some i \<and> num_args i = ARGS_ONE)"

lemma parse_loop_fails:
  "parse_loop args p = (Inl e, p') \<Longrightarrow>
   e = Undefined \<and> args \<noteq> [] \<and> lacks_value (map_of (arg_info p)) (last args)"
proof (induction args arbitrary: p rule: length_induct)
  case (1 args)
  show ?case
  proof (cases args)
    case Nil
    then show ?thesis using "1.prems" by simp
  next
    case (Cons arg rest)
    have IH: "e = Undefined \<and> args' \<noteq> [] \<and> lacks_value (map_of (arg_info q)) (last args')"
      if "length args' < length args" "parse_loop args' q = (Inl e, p')" for args' q
      using "1.IH" that by blast
    from "1.prems" have "parse_loop (arg # rest) p = (Inl e, p')" by (simp add: Cons)
    then show ?thesis
    proof (cases rule: parse_loop_cases)
      case (2 i)
      then show ?thesis by (simp add: Cons lacks_value_def)
    next
      case (3 v rest')
      then show ?thesis using IH [OF _ 3(2)] by (simp add: Cons)
    next
      case 5
      then show ?thesis using IH [OF _ 5] by (simp add: Cons)
    qed auto
  qed
qed

section \<open>Properties\<close>

text \<open>
  C21: Parsing inverts writing: a command line written from options of the right kind,
  followed by nothing or by a word that names no argument, is parsed to exactly those
  options, later ones replacing earlier ones, and parsing stops at the first word after
  them. Both spellings of a value mean the same.
\<close>

theorem parse_args_roundtrip:
  assumes "\<forall>opt \<in> set opts. option_ok (map_of (arg_info p)) opt"
    and "rest = [] \<or> unknown_word (map_of (arg_info p)) (hd rest)"
  shows "parse_args (concat (map option_words opts) @ rest) p =
    (Inr (), p\<lparr>args_found := fold (\<lambda>(n, v). map_put n v) (map option_entry opts) (args_found p),
       args_parsed := length (concat (map option_words opts))\<rparr>)"
proof -
  have "parse_loop rest q = (Inr (), q)" if "arg_info q = arg_info p" for q
    using assms(2) that by (cases rest) (auto simp: unknown_word_def split_beta)
  then show ?thesis
    using parse_options [of opts "p\<lparr>args_parsed := 0\<rparr>" rest] assms(1) by (simp add: parse_args_def)
qed

definition example_parser :: ArgumentParser where
  "example_parser = add_argument ''--timeout'' ''Cycles'' ARGS_ONE
     (add_argument ''-v'' ''Log'' ARGS_NONE new_argument_parser)"

lemma example_parser_info:
  "map_of (arg_info example_parser) = [''--timeout'' \<mapsto> \<lparr>description = ''Cycles'', num_args = ARGS_ONE\<rparr>,
     ''-v'' \<mapsto> \<lparr>description = ''Log'', num_args = ARGS_NONE\<rparr>]"
  by (simp add: example_parser_def add_argument_def map_of_map_put new_argument_parser_def
      fun_upd_twist)

theorem parse_args_roundtrip_witness:
  "get_arg ''--timeout'' (snd (parse_args [''-v'', ''--timeout=5'', ''--timeout'', ''7'', ''prog'']
     example_parser)) = Inr ''7''"
proof -
  let ?opts = "[Flag ''-v'', Joined ''--timeout'' ''5'', Separate ''--timeout'' ''7'']"
  have ok: "\<forall>opt \<in> set ?opts. option_ok (map_of (arg_info example_parser)) opt"
    by (simp add: example_parser_info)
  have rest: "[''prog''] = [] \<or> unknown_word (map_of (arg_info example_parser)) (hd [''prog''])"
    by (simp add: unknown_word_def example_parser_info split_argument_def)
  from parse_args_roundtrip [OF ok rest] show ?thesis
    by (simp add: get_arg_def map_of_map_put)
qed

text \<open>
  C22: Every argument list is parsed to an end: parsing succeeds and stops after the last
  argument or at a word that names no known argument, or, in one case only, reads past
  the arguments: when the last word names an argument that takes a value and has none.
\<close>

theorem parse_args_outcome:
  "case parse_args argv p of
     (Inr _, p') \<Rightarrow> get_args_parsed p' \<le> length argv \<and>
       (get_args_parsed p' < length argv \<longrightarrow>
          unknown_word (map_of (arg_info p)) (argv ! get_args_parsed p'))
   | (Inl e, p') \<Rightarrow> e = Undefined \<and> argv \<noteq> [] \<and> lacks_value (map_of (arg_info p)) (last argv)"
proof -
  obtain r p' where r: "parse_loop argv (p\<lparr>args_parsed := 0\<rparr>) = (r, p')" by fastforce
  show ?thesis
  proof (cases r)
    case (Inl e)
    then show ?thesis
      using r parse_loop_fails [of argv "p\<lparr>args_parsed := 0\<rparr>" e p'] by (simp add: parse_args_def)
  next
    case (Inr u)
    with r have p': "parse_args argv p = (Inr (), p')" by (simp add: parse_args_def)
    from r Inr parse_loop_stops [of argv "p\<lparr>args_parsed := 0\<rparr>" p'] obtain taken rest where
      t: "argv = taken @ rest" "args_parsed p' = length taken"
        "rest = [] \<or> unknown_word (map_of (arg_info p)) (hd rest)" by auto
    have "args_parsed p' < length argv \<longrightarrow> unknown_word (map_of (arg_info p)) (argv ! args_parsed p')"
      using t by (cases rest) simp_all
    then show ?thesis using p' t by (simp add: get_args_parsed_def)
  qed
qed

theorem parse_args_outcome_witness:
  "fst (parse_args [''-v'', ''--timeout''] example_parser) = Inl Undefined \<and>
   lacks_value (map_of (arg_info example_parser)) ''--timeout''"
proof -
  have "fst (parse_args [''-v'', ''--timeout''] example_parser) = Inl Undefined"
    by (simp add: parse_args_def example_parser_info split_argument_def)
  then show ?thesis
    using parse_args_outcome [of "[''-v'', ''--timeout'']" example_parser]
    by (auto split: prod.splits sum.splits)
qed

end
