(* ===== verification/Binary_Parser.thy ===== *)
theory Binary_Parser
  imports Main_Memory
begin

text \<open>
  The ELF loader of \<open>binary_parser.cc\<close>: the block of program arguments, the headers and
  sections read from the file, and the search for a symbol. The layout of the ELF structures
  and the constants of \<open>elf.h\<close> are parameters, as is the file system. The contents
  that C++ leaves in buffers it has not initialised are a parameter too.
\<close>

section \<open>Buffers\<close>

text \<open>A store into a buffer of fixed size; outside the buffer it is undefined.\<close>

definition buf_store :: "nat \<Rightarrow> u8 list \<Rightarrow> u8 list \<Rightarrow> failure + u8 list" where
  "buf_store off bs buf =
     (if off + length bs \<le> length buf then Inr (take off buf @ bs @ drop (off + length bs) buf)
      else Inl Undefined)"

definition buf_slice :: "u8 list \<Rightarrow> nat \<Rightarrow> nat \<Rightarrow> u8 list" where
  "buf_slice buf off n = take n (drop off buf)"

definition string_bytes :: "string \<Rightarrow> u8 list" where
  "string_bytes s = map of_char s"

section \<open>Program arguments\<close>

text \<open>
  The loop over the arguments: the pointer of argument \<open>i\<close>, the copy of its characters and
  terminator, and the advance by \<open>strlen\<close>.
\<close>

fun arguments_loop :: "nat \<Rightarrow> string list \<Rightarrow> nat \<Rightarrow> u8 list \<Rightarrow> failure + nat \<times> u8 list" where
  "arguments_loop i [] argv_ptr data = Inr (argv_ptr, data)"
| "arguments_loop i (arg # argv) argv_ptr data =
     (case buf_store (4 + 4 + i * 8) (le_bytes 8 (of_nat argv_ptr :: u64)) data of
        Inl e \<Rightarrow> Inl e
      | Inr data1 \<Rightarrow>
          (case buf_store argv_ptr (string_bytes arg @ [0]) data1 of
             Inl e \<Rightarrow> Inl e
           | Inr data2 \<Rightarrow>
               let argv_ptr' = argv_ptr + length arg in
               if argv_ptr' < 1024 then arguments_loop (i + 1) argv argv_ptr' data2
               else Inl Assertion))"

definition arguments :: "(nat \<Rightarrow> u8) \<Rightarrow> string list \<Rightarrow> failure + data_block" where
  "arguments junk argv =
     (let argc = length argv;
          argv_ptr = 4 + 4 + argc * 8 + 4;
          data = map junk [0..<1024] in
      case buf_store 0 (le_bytes 4 (0 :: u32)) data of
        Inl e \<Rightarrow> Inl e
      | Inr data1 \<Rightarrow>
      (case buf_store 4 (le_bytes 4 (of_nat argc :: u32)) data1 of
        Inl e \<Rightarrow> Inl e
      | Inr data2 \<Rightarrow>
      (case buf_store (4 + 4 + argc * 8) (le_bytes 4 (0 :: u32)) data2 of
        Inl e \<Rightarrow> Inl e
      | Inr data3 \<Rightarrow>
      (case arguments_loop 0 argv argv_ptr data3 of
        Inl e \<Rightarrow> Inl e
      | Inr (num_bytes, data4) \<Rightarrow>
          Inr (new_data_block 0 (of_nat num_bytes) data4)))))"

section \<open>Input files\<close>

text \<open>
  An \<open>ifstream\<close>: its contents, the read position and the failure flag. A stream on a file
  that cannot be opened has failed; a failed stream ignores seeks and reads, and a read
  past the end delivers what there is and fails.
\<close>

record ifstream =
  contents :: "u8 list"
  position :: nat
  failed :: bool

definition open_file :: "(string \<rightharpoonup> u8 list) \<Rightarrow> string \<Rightarrow> ifstream" where
  "open_file fs filename =
     (case fs filename of
        None \<Rightarrow> \<lparr>contents = [], position = 0, failed = True\<rparr>
      | Some bs \<Rightarrow> \<lparr>contents = bs, position = 0, failed = False\<rparr>)"

definition seekg :: "nat \<Rightarrow> (ifstream, unit) prog" where
  "seekg off = modify (\<lambda>f. if failed f then f else f\<lparr>position := off\<rparr>)"

definition file_read :: "u8 list \<Rightarrow> (ifstream, u8 list) prog" where
  "file_read buf =
     (\<lambda>f. if failed f then (Inr buf, f)
          else let got = buf_slice (contents f) (position f) (length buf) in
            (Inr (got @ drop (length got) buf),
             f\<lparr>position := position f + length got, failed := length got < length buf\<rparr>))"

section \<open>ELF structures\<close>

record Elf64_Ehdr =
  e_machine :: u16
  e_entry :: u64
  e_shoff :: u64
  e_shentsize :: u16
  e_shnum :: u16

record Elf64_Shdr =
  sh_type :: u32
  sh_flags :: u64
  sh_addr :: u64
  sh_offset :: u64
  sh_size :: u64
  sh_link :: u32
  sh_entsize :: u64

record Elf64_Sym =
  st_name :: u32
  st_value :: u64

text \<open>What \<open>elf.h\<close> provides: sizes and layouts of the structures and its constants.\<close>

record elf_h =
  sizeof_Ehdr :: nat
  decode_Ehdr :: "u8 list \<Rightarrow> Elf64_Ehdr"
  sizeof_Shdr :: nat
  decode_Shdr :: "u8 list \<Rightarrow> Elf64_Shdr"
  sizeof_Sym :: nat
  decode_Sym :: "u8 list \<Rightarrow> Elf64_Sym"
  SHF_ALLOC :: u64
  SHT_NOBITS :: u32
  SHT_SYMTAB :: u32

definition EM_RISCV :: u16 where "EM_RISCV = 0xf3"

definition uninitialised :: "(nat \<Rightarrow> u8) \<Rightarrow> nat \<Rightarrow> u8 list" where
  "uninitialised junk n = map junk [0..<n]"

definition get_elf_header :: "elf_h \<Rightarrow> (nat \<Rightarrow> u8) \<Rightarrow> (ifstream, Elf64_Ehdr) prog" where
  "get_elf_header E junk =
     bindM (seekg 0) (\<lambda>_.
     bindM (file_read (uninitialised junk (sizeof_Ehdr E))) (\<lambda>bs.
     let header = decode_Ehdr E bs in
     if e_machine header \<noteq> EM_RISCV then fail (Throw (RuntimeError ''Received non-RISC-V binary''))
     else ret header))"

text \<open>
  The offset of a section header is computed from an \<open>int\<close> product, which must not
  overflow, and is stored in a 32-bit variable.
\<close>

definition get_section_header ::
  "elf_h \<Rightarrow> (nat \<Rightarrow> u8) \<Rightarrow> Elf64_Ehdr \<Rightarrow> int \<Rightarrow> (ifstream, Elf64_Shdr) prog" where
  "get_section_header E junk elf_header section =
     (let num_sections = uint (e_shnum elf_header) in
      bindM (assertM (section \<ge> 0)) (\<lambda>_.
      bindM (assertM (section < num_sections)) (\<lambda>_.
      if uint (e_shentsize elf_header) * section \<ge> 2 ^ 31 then fail Undefined
      else
        let offset = (ucast (e_shoff elf_header
              + word_of_int (uint (e_shentsize elf_header) * section)) :: u32) in
        bindM (seekg (unat offset)) (\<lambda>_.
        bindM (file_read (uninitialised junk (sizeof_Shdr E))) (\<lambda>bs.
        ret (decode_Shdr E bs))))))"

text \<open>The number of symbols as an \<open>int\<close>; dividing by an entry size of zero is undefined.\<close>

definition num_symbols_of :: "Elf64_Shdr \<Rightarrow> (ifstream, int) prog" where
  "num_symbols_of sh =
     (if sh_entsize sh = 0 then fail Undefined
      else ret (sint (ucast (sh_size sh div sh_entsize sh) :: u32)))"

definition get_symbol ::
  "elf_h \<Rightarrow> (nat \<Rightarrow> u8) \<Rightarrow> Elf64_Shdr \<Rightarrow> int \<Rightarrow> (ifstream, Elf64_Sym) prog" where
  "get_symbol E junk section_header symbol =
     bindM (num_symbols_of section_header) (\<lambda>num_symbols.
     bindM (assertM (symbol \<ge> 0)) (\<lambda>_.
     bindM (assertM (symbol < num_symbols)) (\<lambda>_.
     let offset = (ucast (sh_offset section_header
           + sh_entsize section_header * word_of_int symbol) :: u32) in
     bindM (seekg (unat offset)) (\<lambda>_.
     bindM (file_read (uninitialised junk (sizeof_Sym E))) (\<lambda>bs.
     ret (decode_Sym E bs))))))"

definition get_section :: "(nat \<Rightarrow> u8) \<Rightarrow> Elf64_Shdr \<Rightarrow> (ifstream, data_block) prog" where
  "get_section junk header =
     bindM (seekg (unat (sh_offset header))) (\<lambda>_.
     bindM (file_read (uninitialised junk (unat (sh_size header)))) (\<lambda>data.
     ret (new_data_block (sh_addr header) (sh_size header) data)))"

section \<open>Loading\<close>

fun elf_loop ::
  "elf_h \<Rightarrow> (nat \<Rightarrow> u8) \<Rightarrow> Elf64_Ehdr \<Rightarrow> nat list \<Rightarrow> data_block list \<Rightarrow>
     (ifstream, data_block list) prog" where
  "elf_loop E junk elf_header [] blocks = ret blocks"
| "elf_loop E junk elf_header (i # is) blocks =
     bindM (get_section_header E junk elf_header (int i)) (\<lambda>section_header.
     if sh_flags section_header AND SHF_ALLOC E \<noteq> 0 \<and> sh_type section_header \<noteq> SHT_NOBITS E then
       bindM (get_section junk section_header) (\<lambda>data.
       elf_loop E junk elf_header is (blocks @ [data]))
     else elf_loop E junk elf_header is blocks)"

definition elf ::
  "elf_h \<Rightarrow> (nat \<Rightarrow> u8) \<Rightarrow> (string \<rightharpoonup> u8 list) \<Rightarrow> string \<Rightarrow> failure + data_block list" where
  "elf E junk fs filename =
     fst (bindM (get_elf_header E junk) (\<lambda>elf_header.
       elf_loop E junk elf_header [0..<unat (e_shnum elf_header)] []) (open_file fs filename))"

fun write_blocks :: "data_block list \<Rightarrow> ('h main_memory, unit) prog" where
  "write_blocks [] = ret ()"
| "write_blocks (b # bs) = bindM (MainMemory_write b) (\<lambda>_. write_blocks bs)"

definition load_elf ::
  "elf_h \<Rightarrow> (nat \<Rightarrow> u8) \<Rightarrow> (string \<rightharpoonup> u8 list) \<Rightarrow> string list \<Rightarrow> ('h main_memory, unit) prog" where
  "load_elf E junk fs argv =
     (if length argv < 1 then fail (Throw (RuntimeError ''No binary file specified''))
      else
        bindM (of_sum (arguments junk argv)) (\<lambda>block.
        bindM (MainMemory_write block) (\<lambda>_.
        bindM (of_sum (elf E junk fs (argv ! 0))) (\<lambda>blocks.
        write_blocks blocks))))"

definition entry_point ::
  "elf_h \<Rightarrow> (nat \<Rightarrow> u8) \<Rightarrow> (string \<rightharpoonup> u8 list) \<Rightarrow> string \<Rightarrow> failure + MemoryAddress" where
  "entry_point E junk fs filename =
     fst (bindM (get_elf_header E junk) (\<lambda>h. ret (e_entry h)) (open_file fs filename))"

section \<open>Symbols\<close>

text \<open>
  \<open>std::string(name)\<close> reads up to the terminator; a buffer without one is read past its end.
\<close>

definition string_of_buffer :: "u8 list \<Rightarrow> (ifstream, u8 list) prog" where
  "string_of_buffer name =
     (if 0 \<in> set name then ret (takeWhile (\<lambda>b. b \<noteq> 0) name) else fail Undefined)"

fun symbol_loop ::
  "elf_h \<Rightarrow> (nat \<Rightarrow> u8) \<Rightarrow> Elf64_Ehdr \<Rightarrow> Elf64_Shdr \<Rightarrow> string \<Rightarrow> nat list \<Rightarrow>
     (ifstream, MemoryAddress option) prog" where
  "symbol_loop E junk elf_header section_header symbol_name [] = ret None"
| "symbol_loop E junk elf_header section_header symbol_name (j # js) =
     bindM (get_symbol E junk section_header (int j)) (\<lambda>symbol.
     bindM (get_section_header E junk elf_header (sint (sh_link section_header))) (\<lambda>target.
     let name_location = sh_offset target + ucast (st_name symbol) in
     bindM (gets failed) (\<lambda>bad.
     if bad then ret None
     else
       bindM (seekg (unat name_location)) (\<lambda>_.
       bindM (file_read (uninitialised junk (length symbol_name + 1))) (\<lambda>name.
       bindM (string_of_buffer name) (\<lambda>text.
       if text = string_bytes symbol_name then ret (Some (st_value symbol))
       else symbol_loop E junk elf_header section_header symbol_name js))))))"

fun section_loop ::
  "elf_h \<Rightarrow> (nat \<Rightarrow> u8) \<Rightarrow> Elf64_Ehdr \<Rightarrow> string \<Rightarrow> nat list \<Rightarrow>
     (ifstream, MemoryAddress option) prog" where
  "section_loop E junk elf_header symbol_name [] = ret None"
| "section_loop E junk elf_header symbol_name (i # is) =
     bindM (get_section_header E junk elf_header (int i)) (\<lambda>section_header.
     if sh_type section_header \<noteq> SHT_SYMTAB E then section_loop E junk elf_header symbol_name is
     else
       bindM (num_symbols_of section_header) (\<lambda>num_symbols.
       bindM (symbol_loop E junk elf_header section_header symbol_name [0..<nat num_symbols]) (\<lambda>found.
       case found of
         Some v \<Rightarrow> ret (Some v)
       | None \<Rightarrow> section_loop E junk elf_header symbol_name is)))"

definition symbol_location ::
  "elf_h \<Rightarrow> (nat \<Rightarrow> u8) \<Rightarrow> (string \<rightharpoonup> u8 list) \<Rightarrow> string \<Rightarrow> string \<Rightarrow> failure + MemoryAddress" where
  "symbol_location E junk fs file_name symbol_name =
     fst (bindM (get_elf_header E junk) (\<lambda>elf_header.
       bindM (section_loop E junk elf_header symbol_name [0..<unat (e_shnum elf_header)]) (\<lambda>found.
       case found of Some v \<Rightarrow> ret v | None \<Rightarrow> ret (- 1))) (open_file fs file_name))"

section \<open>The block of arguments\<close>

lemma length_buf_slice: "off + n \<le> length buf \<Longrightarrow> length (buf_slice buf off n) = n"
  by (simp add: buf_slice_def)

lemma nth_buf_slice: "off + n \<le> length buf \<Longrightarrow> i < n \<Longrightarrow> buf_slice buf off n ! i = buf ! (off + i)"
  by (simp add: buf_slice_def)

lemma buf_store_ok:
  assumes "off + length bs \<le> length buf"
  shows "\<exists>buf'. buf_store off bs buf = Inr buf' \<and> length buf' = length buf \<and>
    buf_slice buf' off (length bs) = bs \<and>
    (\<forall>p n. p + n \<le> off \<or> (off + length bs \<le> p \<and> p + n \<le> length buf) \<longrightarrow> buf_slice buf' p n = buf_slice buf p n)"
proof -
  let ?b = "take off buf @ bs @ drop (off + length bs) buf"
  have len: "length ?b = length buf" using assms by simp
  have nth: "?b ! i = (if off \<le> i \<and> i < off + length bs then bs ! (i - off) else buf ! i)"
    if "i < length buf" for i
    using that assms by (auto simp: nth_append)
  have "buf_slice ?b off (length bs) = bs"
    using assms by (simp add: buf_slice_def)
  moreover have "buf_slice ?b p n = buf_slice buf p n"
    if "p + n \<le> off \<or> (off + length bs \<le> p \<and> p + n \<le> length buf)" for p n
  proof (rule nth_equalityI)
    have on: "p + n \<le> length buf" using that assms by auto
    show "length (buf_slice ?b p n) = length (buf_slice buf p n)"
      using on len by (simp only: length_buf_slice)
    fix i
    assume "i < length (buf_slice ?b p n)"
    then have i: "i < n" using on len by (metis length_buf_slice)
    have "buf_slice ?b p n ! i = ?b ! (p + i)" using on i len by (intro nth_buf_slice) simp_all
    also have "\<dots> = buf ! (p + i)" using that i on by (subst nth) auto
    also have "\<dots> = buf_slice buf p n ! i" using on i by (simp add: nth_buf_slice)
    finally show "buf_slice ?b p n ! i = buf_slice buf p n ! i" .
  qed
  ultimately show ?thesis using assms len by (intro exI [of _ ?b]) (simp add: buf_store_def)
qed

lemma buf_slice_append: "buf_slice buf off m @ buf_slice buf (off + m) n = buf_slice buf off (m + n)"
  by (simp add: buf_slice_def take_add add.commute)

text \<open>One step of the loop over the arguments: a pointer, and the characters with their terminator.\<close>

lemma arguments_step:
  assumes "length data = 1024" "8 + 8 * i + 8 \<le> q" "q + length arg < 1024"
  shows "\<exists>d1 d2. buf_store (8 + 8 * i) (le_bytes 8 (of_nat q :: u64)) data = Inr d1 \<and>
    buf_store q (string_bytes arg @ [0]) d1 = Inr d2 \<and> length d2 = 1024 \<and>
    buf_slice d2 (8 + 8 * i) 8 = le_bytes 8 (of_nat q :: u64) \<and>
    buf_slice d2 q (length arg) = string_bytes arg \<and>
    (\<forall>p n. p + n \<le> 8 + 8 * i \<or> (8 + 8 * i + 8 \<le> p \<and> p + n \<le> q) \<longrightarrow> buf_slice d2 p n = buf_slice data p n)"
proof -
  let ?ptr = "le_bytes 8 (of_nat q :: u64)"
  obtain d1 where d1: "buf_store (8 + 8 * i) ?ptr data = Inr d1" "length d1 = 1024"
    "buf_slice d1 (8 + 8 * i) 8 = ?ptr"
    "\<And>p n. p + n \<le> 8 + 8 * i \<or> (8 + 8 * i + 8 \<le> p \<and> p + n \<le> 1024) \<Longrightarrow> buf_slice d1 p n = buf_slice data p n"
    using buf_store_ok [of "8 + 8 * i" ?ptr data] assms by auto
  obtain d2 where d2: "buf_store q (string_bytes arg @ [0]) d1 = Inr d2" "length d2 = 1024"
    "buf_slice d2 q (Suc (length arg)) = string_bytes arg @ [0]"
    "\<And>p n. p + n \<le> q \<Longrightarrow> buf_slice d2 p n = buf_slice d1 p n"
    using buf_store_ok [of q "string_bytes arg @ [0]" d1] d1(2) assms(3) by (auto simp: string_bytes_def)
  have "buf_slice d2 q (length arg) = take (length arg) (buf_slice d2 q (Suc (length arg)))"
    by (simp add: buf_slice_def min_def)
  then have "buf_slice d2 q (length arg) = string_bytes arg" by (simp add: d2(3) string_bytes_def)
  moreover have "buf_slice d2 (8 + 8 * i) 8 = ?ptr" using d2(4) [of "8 + 8 * i" 8] d1(3) assms(2) by simp
  moreover have "buf_slice d2 p n = buf_slice data p n"
    if "p + n \<le> 8 + 8 * i \<or> (8 + 8 * i + 8 \<le> p \<and> p + n \<le> q)" for p n
    using that d1(4) [of p n] d2(4) [of p n] assms by auto
  ultimately show ?thesis using d1(1) d2(1,2) by blast
qed

text \<open>
  The loop from argument \<open>i\<close> on: pointers of the arguments still to come are written to
  their slots, their characters follow each other without a gap, and everything before the
  pointer slots and between them and the characters is kept.
\<close>

lemma arguments_loop_ok:
  assumes "length data = 1024" "8 + 8 * (i + length argv) + 4 \<le> q" "q + length (concat argv) < 1024"
  shows "\<exists>data'. arguments_loop i argv q data = Inr (q + length (concat argv), data') \<and>
    length data' = 1024 \<and> buf_slice data' q (length (concat argv)) = string_bytes (concat argv) \<and>
    (\<forall>k < length argv. buf_slice data' (8 + 8 * (i + k)) 8 =
       le_bytes 8 (of_nat (q + length (concat (take k argv))) :: u64)) \<and>
    (\<forall>p n. p + n \<le> 8 + 8 * i \<or> (8 + 8 * (i + length argv) \<le> p \<and> p + n \<le> q) \<longrightarrow>
       buf_slice data' p n = buf_slice data p n)"
  using assms
proof (induction argv arbitrary: i q data)
  case Nil
  then show ?case by (simp add: buf_slice_def string_bytes_def)
next
  case (Cons arg argv)
  let ?ptr = "le_bytes 8 (of_nat q :: u64)"
  have len: "length data = 1024" and gap: "8 + 8 * (i + length (arg # argv)) + 4 \<le> q"
    and fit: "q + length arg + length (concat argv) < 1024" using Cons.prems by simp_all
  obtain d1 d2 where st: "buf_store (8 + 8 * i) ?ptr data = Inr d1" "buf_store q (string_bytes arg @ [0]) d1 = Inr d2"
    and d2: "length d2 = 1024" "buf_slice d2 (8 + 8 * i) 8 = ?ptr" "buf_slice d2 q (length arg) = string_bytes arg"
    and d2_keep: "\<And>p n. p + n \<le> 8 + 8 * i \<or> (8 + 8 * i + 8 \<le> p \<and> p + n \<le> q) \<Longrightarrow> buf_slice d2 p n = buf_slice data p n"
    using arguments_step [OF len, of i q arg] gap fit by auto
  have "8 + 8 * (Suc i + length argv) + 4 \<le> q + length arg" using gap by simp
  from Cons.IH [OF d2(1) this fit] obtain d3 where
    loop: "arguments_loop (Suc i) argv (q + length arg) d2 =
      Inr (q + length arg + length (concat argv), d3)" "length d3 = 1024"
    and chars: "buf_slice d3 (q + length arg) (length (concat argv)) = string_bytes (concat argv)"
    and ptrs: "\<And>k. k < length argv \<Longrightarrow> buf_slice d3 (8 + 8 * (Suc i + k)) 8 =
       le_bytes 8 (of_nat (q + length arg + length (concat (take k argv))) :: u64)"
    and keep: "\<And>p n. p + n \<le> 8 + 8 * Suc i \<or> (8 + 8 * (Suc i + length argv) \<le> p \<and> p + n \<le> q + length arg)
       \<Longrightarrow> buf_slice d3 p n = buf_slice d2 p n"
    by blast
  have first: "buf_slice d3 q (length arg) = string_bytes arg" using keep [of q "length arg"] gap d2(3) by simp
  show ?case
  proof (intro exI [of _ d3] conjI allI impI)
    show "arguments_loop i (arg # argv) q data = Inr (q + length (concat (arg # argv)), d3)"
      using st loop(1) fit by (simp add: mult.commute [of i] add.assoc Let_def)
    show "buf_slice d3 q (length (concat (arg # argv))) = string_bytes (concat (arg # argv))"
      using first chars buf_slice_append [of d3 q "length arg" "length (concat argv)"]
      by (simp add: string_bytes_def)
  next
    fix k
    assume k: "k < length (arg # argv)"
    show "buf_slice d3 (8 + 8 * (i + k)) 8 =
        le_bytes 8 (of_nat (q + length (concat (take k (arg # argv)))) :: u64)"
    proof (cases k)
      case 0
      then show ?thesis using keep [of "8 + 8 * i" 8] d2(2) by simp
    next
      case (Suc k')
      then show ?thesis using ptrs [of k'] k by (simp add: add.assoc)
    qed
  next
    fix p n
    assume on: "p + n \<le> 8 + 8 * i \<or> (8 + 8 * (i + length (arg # argv)) \<le> p \<and> p + n \<le> q)"
    then show "buf_slice d3 p n = buf_slice data p n" using keep [of p n] d2_keep [of p n] by auto
  qed (use loop(2) in simp)
qed

section \<open>Loading the program\<close>

text \<open>
  A block whose buffer is longer than its size is written like the one cut to size.
\<close>

lemma write_loop_cut:
  assumes "unat (db_num_bytes d) \<le> length (db_data d)"
  shows "write_loop d c m = write_loop (d\<lparr>db_data := take (unat (db_num_bytes d)) (db_data d)\<rparr>) c m"
  using assms
proof (induction d c arbitrary: m rule: write_loop.induct)
  case (1 d c)
  let ?d = "d\<lparr>db_data := take (unat (db_num_bytes d)) (db_data d)\<rparr>"
  let ?off = "get_offset (db_address d + c)"
  let ?n = "write_chunk ?off (db_num_bytes d) c"
  show ?case
  proof (cases "c < db_num_bytes d")
    case True
    have le: "unat c + unat ?n \<le> unat (db_num_bytes d)"
      using True get_offset_less by (rule write_chunk_bounds)
    then have "buffer_slice (db_data ?d) c ?n m' = buffer_slice (db_data d) c ?n m'" for m' :: "'a main_memory"
      using "1.prems" by (simp add: buffer_slice_def drop_take)
    moreover have "write_loop d (c + ?n) m' = write_loop ?d (c + ?n) m'" for m' :: "'a main_memory"
      using "1.IH" [OF True refl refl] "1.prems" by simp
    ultimately show ?thesis
      using True by (subst (1 2) write_loop.simps) (simp add: bindM_apply Let_def split: prod.split sum.split)
  next
    case False
    then show ?thesis by (subst (1 2) write_loop.simps) simp
  qed
qed

definition block_ok :: "data_block \<Rightarrow> bool" where
  "block_ok d \<longleftrightarrow> unat (db_num_bytes d) \<le> length (db_data d) \<and> unat (db_num_bytes d) \<le> 2 ^ 63 \<and>
     access_ok (db_num_bytes d) (db_address d)"

definition store_block :: "data_block \<Rightarrow> (MemoryAddress \<Rightarrow> u8) \<Rightarrow> MemoryAddress \<Rightarrow> u8" where
  "store_block d f = poke f (db_address d) (take (unat (db_num_bytes d)) (db_data d))"

lemma MainMemory_write_block:
  assumes "block_ok d"
  shows "\<exists>m'. MainMemory_write d m = (Inr (), m') \<and> host m' = host m \<and>
    byte_at m' = store_block d (byte_at m)"
proof -
  let ?d = "d\<lparr>db_data := take (unat (db_num_bytes d)) (db_data d)\<rparr>"
  have "MainMemory_write d m = MainMemory_write ?d m"
    using assms by (simp add: MainMemory_write_def block_ok_def bindM_apply
        write_loop_cut [of d 0] split: prod.split sum.split)
  moreover have "wf_block ?d" using assms by (simp add: wf_block_def block_ok_def)
  ultimately show ?thesis
    using MainMemory_write_eq [of ?d m] assms by (auto simp: block_ok_def store_block_def)
qed

lemma write_blocks_ok:
  "\<forall>b \<in> set bs. block_ok b \<Longrightarrow>
   \<exists>m'. write_blocks bs m = (Inr (), m') \<and> host m' = host m \<and> byte_at m' = fold store_block bs (byte_at m)"
proof (induction bs arbitrary: m)
  case (Cons b bs)
  from MainMemory_write_block [of b m] Cons.prems obtain m1 where
    "MainMemory_write b m = (Inr (), m1)" "host m1 = host m" "byte_at m1 = store_block b (byte_at m)" by auto
  with Cons.IH [of m1] Cons.prems show ?case by (auto simp: bindM_apply)
qed (simp add: ret_apply)

text \<open>Reading a structure that lies within a file that has not failed.\<close>

lemma read_at:
  assumes "\<not> failed f" "off + n \<le> length (contents f)"
  shows "bindM (seekg off) (\<lambda>_. file_read (uninitialised junk n)) f =
    (Inr (buf_slice (contents f) off n), f\<lparr>position := off + n\<rparr>)"
  using assms
  by (simp add: seekg_def file_read_def bindM_apply modify_apply length_buf_slice uninitialised_def Let_def)

text \<open>The section headers and the sections to be loaded, as the file holds them.\<close>

definition header_offset :: "Elf64_Ehdr \<Rightarrow> nat \<Rightarrow> nat" where
  "header_offset h i =
     unat (ucast (e_shoff h + word_of_int (uint (e_shentsize h) * int i)) :: u32)"

definition section_header :: "elf_h \<Rightarrow> u8 list \<Rightarrow> Elf64_Ehdr \<Rightarrow> nat \<Rightarrow> Elf64_Shdr" where
  "section_header E bs h i = decode_Shdr E (buf_slice bs (header_offset h i) (sizeof_Shdr E))"

definition loaded :: "elf_h \<Rightarrow> Elf64_Shdr \<Rightarrow> bool" where
  "loaded E sh \<longleftrightarrow> sh_flags sh AND SHF_ALLOC E \<noteq> 0 \<and> sh_type sh \<noteq> SHT_NOBITS E"

definition section_block :: "u8 list \<Rightarrow> Elf64_Shdr \<Rightarrow> data_block" where
  "section_block bs sh = \<lparr>db_address = sh_addr sh, db_num_bytes = sh_size sh,
     db_data = buf_slice bs (unat (sh_offset sh)) (unat (sh_size sh))\<rparr>"

definition header_in_file :: "elf_h \<Rightarrow> u8 list \<Rightarrow> Elf64_Ehdr \<Rightarrow> nat \<Rightarrow> bool" where
  "header_in_file E bs h i \<longleftrightarrow> uint (e_shentsize h) * int i < 2 ^ 31 \<and>
     header_offset h i + sizeof_Shdr E \<le> length bs"

definition section_in_file :: "u8 list \<Rightarrow> Elf64_Shdr \<Rightarrow> bool" where
  "section_in_file bs sh \<longleftrightarrow> unat (sh_offset sh) + unat (sh_size sh) \<le> length bs"

lemma bindM_assoc_apply: "bindM m (\<lambda>x. bindM (f x) g) s = bindM (bindM m f) g s"
  by (simp add: bindM_assoc)

lemma get_section_header_ok:
  assumes "\<not> failed f" "contents f = bs" "i < unat (e_shnum h)" "header_in_file E bs h i"
  shows "\<exists>q. get_section_header E junk h (int i) f = (Inr (section_header E bs h i), f\<lparr>position := q\<rparr>)"
proof -
  have "int i < uint (e_shnum h)" using assms(3) by (metis of_nat_less_iff uint_nat)
  moreover have "\<not> 2 ^ 31 \<le> uint (e_shentsize h) * int i" using assms(4) by (simp add: header_in_file_def)
  ultimately have "get_section_header E junk h (int i) f =
      bindM (seekg (header_offset h i)) (\<lambda>_. bindM (file_read (uninitialised junk (sizeof_Shdr E)))
        (\<lambda>bs. ret (decode_Shdr E bs))) f"
    by (simp add: get_section_header_def header_offset_def Let_def bindM_apply [of "assertM _"] assertM_apply)
  also have "\<dots> = (Inr (section_header E bs h i), f\<lparr>position := header_offset h i + sizeof_Shdr E\<rparr>)"
    using assms by (simp only: bindM_assoc_apply)
      (simp add: bindM_apply [of "bindM _ _"] read_at header_in_file_def ret_apply section_header_def)
  finally show ?thesis by blast
qed

lemma get_section_ok:
  assumes "\<not> failed f" "contents f = bs" "section_in_file bs sh"
  shows "\<exists>q. get_section junk sh f = (Inr (section_block bs sh), f\<lparr>position := q\<rparr>)"
proof -
  have "get_section junk sh f = (Inr (section_block bs sh),
      f\<lparr>position := unat (sh_offset sh) + unat (sh_size sh)\<rparr>)"
    unfolding get_section_def using assms by (simp only: bindM_assoc_apply)
      (simp add: bindM_apply [of "bindM _ _"] read_at section_in_file_def ret_apply section_block_def)
  then show ?thesis by blast
qed

lemma get_elf_header_ok:
  assumes "sizeof_Ehdr E \<le> length bs" "h = decode_Ehdr E (buf_slice bs 0 (sizeof_Ehdr E))"
    "e_machine h = EM_RISCV"
  defines "f \<equiv> \<lparr>contents = bs, position = 0, failed = False\<rparr>"
  shows "get_elf_header E junk f = (Inr h, f\<lparr>position := sizeof_Ehdr E\<rparr>)"
  unfolding get_elf_header_def using assms by (simp only: bindM_assoc_apply)
    (simp add: bindM_apply [of "bindM _ _"] read_at Let_def ret_apply)

lemma elf_loop_ok:
  assumes "\<forall>i \<in> set is. i < unat (e_shnum h) \<and> header_in_file E bs h i \<and>
      (loaded E (section_header E bs h i) \<longrightarrow> section_in_file bs (section_header E bs h i))"
    and "\<not> failed f" "contents f = bs"
  shows "fst (elf_loop E junk h is blocks f) =
    Inr (blocks @ map (section_block bs) (filter (loaded E) (map (section_header E bs h) is)))"
  using assms
proof (induction "is" arbitrary: f blocks)
  case Nil
  then show ?case by (simp add: ret_apply)
next
  case (Cons i "is")
  obtain q where q: "get_section_header E junk h (int i) f =
      (Inr (section_header E bs h i), f\<lparr>position := q\<rparr>)"
    using get_section_header_ok [OF Cons.prems(2,3), of i h E junk] Cons.prems(1) by auto
  let ?sh = "section_header E bs h i"
  show ?case
  proof (cases "loaded E ?sh")
    case True
    obtain q' where "get_section junk ?sh (f\<lparr>position := q\<rparr>) =
        (Inr (section_block bs ?sh), f\<lparr>position := q'\<rparr>)"
      using get_section_ok [of "f\<lparr>position := q\<rparr>" bs ?sh junk] Cons.prems True by auto
    then show ?thesis
      using True q Cons.IH [of "f\<lparr>position := q'\<rparr>"] Cons.prems
      by (simp add: bindM_apply flip: loaded_def)
  next
    case False
    then show ?thesis
      using q Cons.IH [of "f\<lparr>position := q\<rparr>"] Cons.prems
      by (simp add: bindM_apply flip: loaded_def)
  qed
qed

lemma arguments_block:
  assumes "12 + 8 * length argv + length (concat argv) < 1024"
  shows "\<exists>b. arguments junk argv = Inr b \<and> db_address b = 0 \<and>
    unat (db_num_bytes b) = 12 + 8 * length argv + length (concat argv) \<and>
    length (db_data b) = 1024 \<and>
    buf_slice (db_data b) 0 4 = le_bytes 4 (0 :: u32) \<and>
    buf_slice (db_data b) 4 4 = le_bytes 4 (of_nat (length argv) :: u32) \<and>
    buf_slice (db_data b) (8 + 8 * length argv) 4 = le_bytes 4 (0 :: u32) \<and>
    (\<forall>k < length argv. buf_slice (db_data b) (8 + 8 * k) 8 =
       le_bytes 8 (of_nat (12 + 8 * length argv + length (concat (take k argv))) :: u64)) \<and>
    buf_slice (db_data b) (12 + 8 * length argv) (length (concat argv)) = string_bytes (concat argv)"
proof -
  let ?z = "le_bytes 4 (0 :: u32)" and ?c = "le_bytes 4 (of_nat (length argv) :: u32)"
  let ?n = "length argv" and ?d0 = "map junk [0..<1024]"
  obtain d1 where d1: "buf_store 0 ?z ?d0 = Inr d1" "length d1 = 1024" "buf_slice d1 0 4 = ?z"
    using buf_store_ok [of 0 ?z ?d0] by auto
  obtain d2 where d2: "buf_store 4 ?c d1 = Inr d2" "length d2 = 1024" "buf_slice d2 4 4 = ?c"
    "buf_slice d2 0 4 = ?z"
    using buf_store_ok [of 4 ?c d1] d1(2,3) by auto
  obtain d3 where d3: "buf_store (8 + 8 * ?n) ?z d2 = Inr d3" "length d3 = 1024"
    "buf_slice d3 (8 + 8 * ?n) 4 = ?z" "buf_slice d3 4 4 = ?c" "buf_slice d3 0 4 = ?z"
    using buf_store_ok [of "8 + 8 * ?n" ?z d2] d2(2-4) assms by auto
  obtain d4 where d4: "arguments_loop 0 argv (12 + 8 * ?n) d3 =
      Inr (12 + 8 * ?n + length (concat argv), d4)" "length d4 = 1024"
    "buf_slice d4 (12 + 8 * ?n) (length (concat argv)) = string_bytes (concat argv)"
    and ptrs: "\<forall>k < ?n. buf_slice d4 (8 + 8 * k) 8 =
      le_bytes 8 (of_nat (12 + 8 * ?n + length (concat (take k argv))) :: u64)"
    and keep: "\<And>p n. p + n \<le> 8 \<or> (8 + 8 * ?n \<le> p \<and> p + n \<le> 12 + 8 * ?n) \<Longrightarrow>
      buf_slice d4 p n = buf_slice d3 p n"
    using arguments_loop_ok [of d3 0 argv "12 + 8 * ?n"] d3(2) assms by auto
  let ?b = "\<lparr>db_address = 0, db_num_bytes = of_nat (12 + 8 * ?n + length (concat argv)), db_data = d4\<rparr>"
  have "arguments junk argv = Inr ?b"
    using d1(1) d2(1) d3(1) d4(1) by (simp add: arguments_def Let_def mult.commute [of ?n])
  moreover have "unat (of_nat (12 + 8 * ?n + length (concat argv)) :: u64) =
      12 + 8 * ?n + length (concat argv)"
    using assms by (intro unat_of_nat_u64) simp
  ultimately show ?thesis
    using d3(3-5) d4(2,3) ptrs keep [of 0 4] keep [of 4 4] keep [of "8 + 8 * ?n" 4]
    by (intro exI [of _ ?b]) simp
qed

section \<open>Looking up a symbol\<close>

text \<open>The symbols of a table and the buffers their names are read into.\<close>

definition symbol_offset :: "Elf64_Shdr \<Rightarrow> nat \<Rightarrow> nat" where
  "symbol_offset sh j = unat (ucast (sh_offset sh + sh_entsize sh * word_of_int (int j)) :: u32)"

definition symbol_at :: "elf_h \<Rightarrow> u8 list \<Rightarrow> Elf64_Shdr \<Rightarrow> nat \<Rightarrow> Elf64_Sym" where
  "symbol_at E bs sh j = decode_Sym E (buf_slice bs (symbol_offset sh j) (sizeof_Sym E))"

definition name_position :: "elf_h \<Rightarrow> u8 list \<Rightarrow> Elf64_Ehdr \<Rightarrow> Elf64_Shdr \<Rightarrow> nat \<Rightarrow> nat" where
  "name_position E bs h sh j =
     unat (sh_offset (section_header E bs h (unat (sh_link sh))) + ucast (st_name (symbol_at E bs sh j)))"

definition num_symbols :: "Elf64_Shdr \<Rightarrow> int" where
  "num_symbols sh = sint (ucast (sh_size sh div sh_entsize sh) :: u32)"

text \<open>
  The parts of the file that a comparison of symbol \<open>j\<close> with a name of \<open>n\<close> characters reads: its entry,
  the header of its string table and \<open>n + 1\<close> bytes of its name. The comparison decides the search
  if the names agree, and also if these bytes have no terminator: then \<open>std::string\<close> reads past them.
\<close>

definition symbol_in_file ::
  "elf_h \<Rightarrow> u8 list \<Rightarrow> Elf64_Ehdr \<Rightarrow> Elf64_Shdr \<Rightarrow> nat \<Rightarrow> nat \<Rightarrow> bool" where
  "symbol_in_file E bs h sh n j \<longleftrightarrow>
     symbol_offset sh j + sizeof_Sym E \<le> length bs \<and>
     unat (sh_link sh) < unat (e_shnum h) \<and> header_in_file E bs h (unat (sh_link sh)) \<and>
     name_position E bs h sh j + (n + 1) \<le> length bs"

definition symbol_matches :: "elf_h \<Rightarrow> u8 list \<Rightarrow> Elf64_Ehdr \<Rightarrow> string \<Rightarrow> Elf64_Shdr \<Rightarrow> nat \<Rightarrow> bool" where
  "symbol_matches E bs h name sh j \<longleftrightarrow>
     takeWhile (\<lambda>b. b \<noteq> 0) (buf_slice bs (name_position E bs h sh j) (length name + 1)) = string_bytes name"

definition symbol_overruns :: "elf_h \<Rightarrow> u8 list \<Rightarrow> Elf64_Ehdr \<Rightarrow> nat \<Rightarrow> Elf64_Shdr \<Rightarrow> nat \<Rightarrow> bool" where
  "symbol_overruns E bs h n sh j \<longleftrightarrow> 0 \<notin> set (buf_slice bs (name_position E bs h sh j) (n + 1))"

definition symbol_decides :: "elf_h \<Rightarrow> u8 list \<Rightarrow> Elf64_Ehdr \<Rightarrow> string \<Rightarrow> Elf64_Shdr \<Rightarrow> nat \<Rightarrow> bool" where
  "symbol_decides E bs h name sh j \<longleftrightarrow>
     symbol_overruns E bs h (length name) sh j \<or> symbol_matches E bs h name sh j"

definition symbol_found ::
  "elf_h \<Rightarrow> u8 list \<Rightarrow> Elf64_Ehdr \<Rightarrow> nat \<Rightarrow> Elf64_Shdr \<times> nat \<Rightarrow> failure + MemoryAddress option" where
  "symbol_found E bs h n = (\<lambda>(sh, j).
     if symbol_overruns E bs h n sh j then Inl Undefined else Inr (Some (st_value (symbol_at E bs sh j))))"

text \<open>What the search for a name comes to, over the symbols in its order.\<close>

definition search_outcome ::
  "elf_h \<Rightarrow> u8 list \<Rightarrow> Elf64_Ehdr \<Rightarrow> string \<Rightarrow> (Elf64_Shdr \<times> nat) list \<Rightarrow> failure + MemoryAddress option" where
  "search_outcome E bs h name cs =
     (case find (\<lambda>(sh, j). symbol_decides E bs h name sh j) cs of
        None \<Rightarrow> Inr None | Some c \<Rightarrow> symbol_found E bs h (length name) c)"

lemma search_outcome_simps [simp]:
  "search_outcome E bs h name [] = Inr None"
  "search_outcome E bs h name ((sh, j) # cs) =
     (if symbol_decides E bs h name sh j then symbol_found E bs h (length name) (sh, j)
      else search_outcome E bs h name cs)"
  by (simp_all add: search_outcome_def)

lemma search_outcome_append:
  "search_outcome E bs h name (cs @ ds) =
     (if search_outcome E bs h name cs = Inr None then search_outcome E bs h name ds else search_outcome E bs h name cs)"
  by (induction cs) (auto simp: symbol_found_def)

lemma get_symbol_ok:
  assumes "\<not> failed f" "contents f = bs" "sh_entsize sh \<noteq> 0" "int j < num_symbols sh"
    and "symbol_offset sh j + sizeof_Sym E \<le> length bs"
  shows "\<exists>q. get_symbol E junk sh (int j) f = (Inr (symbol_at E bs sh j), f\<lparr>position := q\<rparr>)"
proof -
  have "get_symbol E junk sh (int j) f =
      bindM (seekg (symbol_offset sh j)) (\<lambda>_. bindM (file_read (uninitialised junk (sizeof_Sym E)))
        (\<lambda>bs. ret (decode_Sym E bs))) f"
    using assms(3,4)
    by (simp add: get_symbol_def num_symbols_of_def num_symbols_def symbol_offset_def Let_def
        bindM_apply [of "assertM _"] bindM_apply [of "ret _"] assertM_apply ret_apply)
  also have "\<dots> = (Inr (symbol_at E bs sh j), f\<lparr>position := symbol_offset sh j + sizeof_Sym E\<rparr>)"
    using assms by (simp only: bindM_assoc_apply)
      (simp add: bindM_apply [of "bindM _ _"] read_at ret_apply symbol_at_def)
  finally show ?thesis by blast
qed

lemma sint_link: "unat (sh_link sh) < unat (e_shnum h) \<Longrightarrow> sint (sh_link sh) = int (unat (sh_link sh))"
proof -
  assume "unat (sh_link sh) < unat (e_shnum h)"
  moreover have "unat (e_shnum h) < 65536" using unsigned_less [of "e_shnum h", where ?'a = nat] by simp
  moreover have u: "int (unat (sh_link sh)) = uint (sh_link sh)" by simp
  ultimately have "uint (sh_link sh) < 65536" by linarith
  then have "signed_take_bit 31 (uint (sh_link sh)) = uint (sh_link sh)"
    using order.trans [of "- 2147483648" 0 "uint (sh_link sh)"]
    by (intro signed_take_bit_int_eq_self) simp_all
  then show ?thesis unfolding u by (simp add: sint_uint)
qed

lemma symbol_loop_ok:
  assumes "\<forall>j \<in> set js. int j < num_symbols sh \<and> symbol_in_file E bs h sh (length name) j"
    and "sh_entsize sh \<noteq> 0" "\<not> failed f" "contents f = bs"
  shows "\<exists>q. symbol_loop E junk h sh name js f =
    (search_outcome E bs h name (map (Pair sh) js), f\<lparr>position := q\<rparr>)"
  using assms
proof (induction js arbitrary: f)
  case Nil
  then show ?case by (intro exI [of _ "position f"]) (simp add: ret_apply)
next
  case (Cons j js)
  have r: "symbol_in_file E bs h sh (length name) j" "int j < num_symbols sh" using Cons.prems(1) by auto
  obtain q where q: "get_symbol E junk sh (int j) f = (Inr (symbol_at E bs sh j), f\<lparr>position := q\<rparr>)"
    using get_symbol_ok [OF Cons.prems(3,4,2) r(2), of E junk] r(1) by (auto simp: symbol_in_file_def)
  obtain q2 where q2: "get_section_header E junk h (sint (sh_link sh)) (f\<lparr>position := q\<rparr>) =
      (Inr (section_header E bs h (unat (sh_link sh))), f\<lparr>position := q2\<rparr>)"
    using get_section_header_ok [of "f\<lparr>position := q\<rparr>" bs "unat (sh_link sh)" h E junk]
      r(1) Cons.prems(3,4) by (auto simp: symbol_in_file_def sint_link)
  let ?pos = "name_position E bs h sh j"
  let ?f3 = "f\<lparr>position := ?pos + (length name + 1)\<rparr>"
  have rd: "bindM (seekg ?pos) (\<lambda>_. file_read (uninitialised junk (length name + 1))) (f\<lparr>position := q2\<rparr>) =
      (Inr (buf_slice bs ?pos (length name + 1)), ?f3)"
    using read_at [of "f\<lparr>position := q2\<rparr>" ?pos "length name + 1" junk] r(1) Cons.prems(3,4)
    by (simp add: symbol_in_file_def)
  obtain q4 where q4: "symbol_loop E junk h sh name js ?f3 =
      (search_outcome E bs h name (map (Pair sh) js), ?f3\<lparr>position := q4\<rparr>)"
    using Cons.IH [of ?f3] Cons.prems by auto
  let ?k = "\<lambda>text. if text = string_bytes name then ret (Some (st_value (symbol_at E bs sh j)))
       else symbol_loop E junk h sh name js"
  have g: "gets failed (f\<lparr>position := q2\<rparr>) = (Inr False, f\<lparr>position := q2\<rparr>)"
    using Cons.prems(3) by (simp add: gets_apply)
  have "symbol_loop E junk h sh name (j # js) f =
      bindM (seekg ?pos) (\<lambda>_. bindM (file_read (uninitialised junk (length name + 1)))
        (\<lambda>nm. bindM (string_of_buffer nm) ?k)) (f\<lparr>position := q2\<rparr>)"
    by (simp only: symbol_loop.simps bindM_eval [where m = "get_symbol E junk sh (int j)", OF q]
        bindM_eval [where m = "get_section_header E junk h _", OF q2]
        bindM_eval [where m = "gets failed", OF g] Let_def
        if_False name_position_def)
  also have "\<dots> = bindM (string_of_buffer (buf_slice bs ?pos (length name + 1))) ?k ?f3"
    by (subst bindM_assoc_apply) (rule bindM_eval [where m = "bindM _ _", OF rd])
  finally have eq: "symbol_loop E junk h sh name (j # js) f =
      bindM (string_of_buffer (buf_slice bs ?pos (length name + 1))) ?k ?f3" .
  have "?k (takeWhile (\<lambda>b. b \<noteq> 0) (buf_slice bs ?pos (length name + 1))) =
      (if symbol_matches E bs h name sh j then ret (Some (st_value (symbol_at E bs sh j)))
       else symbol_loop E junk h sh name js)"
    by (simp only: symbol_matches_def)
  then show ?case
    unfolding eq using q4
    by (cases "symbol_overruns E bs h (length name) sh j"; cases "symbol_matches E bs h name sh j")
      (auto simp: string_of_buffer_def symbol_overruns_def symbol_decides_def symbol_found_def bindM_apply ret_apply fail_apply)
qed

text \<open>The candidates in the order of the search.\<close>

definition symbol_candidates :: "elf_h \<Rightarrow> u8 list \<Rightarrow> Elf64_Ehdr \<Rightarrow> nat list \<Rightarrow> (Elf64_Shdr \<times> nat) list" where
  "symbol_candidates E bs h is =
     concat (map (\<lambda>i. let sh = section_header E bs h i in
       if sh_type sh = SHT_SYMTAB E then map (\<lambda>j. (sh, j)) [0..<nat (num_symbols sh)] else []) is)"

definition tables_in_file :: "elf_h \<Rightarrow> u8 list \<Rightarrow> Elf64_Ehdr \<Rightarrow> nat \<Rightarrow> nat \<Rightarrow> bool" where
  "tables_in_file E bs h n i \<longleftrightarrow> i < unat (e_shnum h) \<and> header_in_file E bs h i \<and>
     (let sh = section_header E bs h i in sh_type sh = SHT_SYMTAB E \<longrightarrow>
        sh_entsize sh \<noteq> 0 \<and> (\<forall>j. int j < num_symbols sh \<longrightarrow> symbol_in_file E bs h sh n j))"

lemma section_loop_ok:
  assumes "\<forall>i \<in> set is. tables_in_file E bs h (length name) i" "\<not> failed f" "contents f = bs"
  shows "fst (section_loop E junk h name is f) = search_outcome E bs h name (symbol_candidates E bs h is)"
  using assms
proof (induction "is" arbitrary: f)
  case Nil
  then show ?case by (simp add: ret_apply symbol_candidates_def)
next
  case (Cons i "is")
  let ?sh = "section_header E bs h i"
  have t: "tables_in_file E bs h (length name) i" using Cons.prems(1) by simp
  obtain q where q: "get_section_header E junk h (int i) f = (Inr ?sh, f\<lparr>position := q\<rparr>)"
    using get_section_header_ok [OF Cons.prems(2,3), of i h E junk] t by (auto simp: tables_in_file_def)
  have IH: "fst (section_loop E junk h name is (f\<lparr>position := p\<rparr>)) =
      search_outcome E bs h name (symbol_candidates E bs h is)" for p
    using Cons.IH [of "f\<lparr>position := p\<rparr>"] Cons.prems by simp
  show ?case
  proof (cases "sh_type ?sh = SHT_SYMTAB E")
    case False
    then show ?thesis using q IH by (simp add: bindM_apply symbol_candidates_def)
  next
    case True
    let ?js = "[0..<nat (num_symbols ?sh)]"
    have ent: "sh_entsize ?sh \<noteq> 0" and
      js: "\<forall>j \<in> set ?js. int j < num_symbols ?sh \<and> symbol_in_file E bs h ?sh (length name) j"
      using t True by (auto simp: tables_in_file_def Let_def)
    obtain q2 where q2: "symbol_loop E junk h ?sh name ?js (f\<lparr>position := q\<rparr>) =
        (search_outcome E bs h name (map (Pair ?sh) ?js), f\<lparr>position := q2\<rparr>)"
      using symbol_loop_ok [OF js ent, of "f\<lparr>position := q\<rparr>" junk] Cons.prems(2,3) by auto
    have n: "num_symbols_of ?sh (f\<lparr>position := q\<rparr>) = (Inr (num_symbols ?sh), f\<lparr>position := q\<rparr>)"
      using ent by (simp add: num_symbols_of_def num_symbols_def ret_apply)
    have c: "symbol_candidates E bs h (i # is) = map (Pair ?sh) ?js @ symbol_candidates E bs h is"
      using True by (simp add: symbol_candidates_def Let_def)
    show ?thesis
      unfolding c search_outcome_append using IH True
      by (auto simp: bindM_apply q n q2 ret_apply split: sum.split option.split)
  qed
qed

section \<open>Properties\<close>

text \<open>
  C23: The block of arguments, when it fits: it starts at address 0 with a zero word and the
  number of arguments, and the pointer of argument \<open>k\<close> leads to its characters. These are
  followed at once by the characters of all later arguments up to the end of the block: the
  terminators are overwritten, and the last one is outside the block.
\<close>

theorem arguments_layout:
  assumes "12 + 8 * length argv + length (concat argv) < 1024"
  shows "\<exists>b. arguments junk argv = Inr b \<and> db_address b = 0 \<and>
    unat (db_num_bytes b) = 12 + 8 * length argv + length (concat argv) \<and>
    buf_slice (db_data b) 0 8 = le_bytes 4 (0 :: u32) @ le_bytes 4 (of_nat (length argv) :: u32) \<and>
    (\<forall>k < length argv. \<exists>ptr :: u64. le_word (buf_slice (db_data b) (8 + 8 * k) 8) = ptr \<and>
       unat ptr = 12 + 8 * length argv + length (concat (take k argv)) \<and>
       buf_slice (db_data b) (unat ptr) (unat (db_num_bytes b) - unat ptr) =
         string_bytes (concat (drop k argv)))"
proof -
  let ?n = "length argv"
  from arguments_block [OF assms] obtain b where b: "arguments junk argv = Inr b" "db_address b = 0"
    "unat (db_num_bytes b) = 12 + 8 * ?n + length (concat argv)" "length (db_data b) = 1024"
    "buf_slice (db_data b) 0 4 = le_bytes 4 (0 :: u32)" "buf_slice (db_data b) 4 4 = le_bytes 4 (of_nat ?n :: u32)"
    "buf_slice (db_data b) (12 + 8 * ?n) (length (concat argv)) = string_bytes (concat argv)"
    and ptrs: "\<And>k. k < ?n \<Longrightarrow> buf_slice (db_data b) (8 + 8 * k) 8 =
       le_bytes 8 (of_nat (12 + 8 * ?n + length (concat (take k argv))) :: u64)" by blast
  have "\<exists>ptr :: u64. le_word (buf_slice (db_data b) (8 + 8 * k) 8) = ptr \<and>
       unat ptr = 12 + 8 * ?n + length (concat (take k argv)) \<and>
       buf_slice (db_data b) (unat ptr) (unat (db_num_bytes b) - unat ptr) =
         string_bytes (concat (drop k argv))" if "k < ?n" for k
  proof -
    let ?l = "length (concat (take k argv))"
    have split: "concat argv = concat (take k argv) @ concat (drop k argv)"
      by (metis append_take_drop_id concat_append)
    then have l: "length (concat argv) = ?l + length (concat (drop k argv))" by (metis length_append)
    have u: "unat (of_nat (12 + 8 * ?n + ?l) :: u64) = 12 + 8 * ?n + ?l"
      using assms l by (intro unat_of_nat_u64) simp
    have "buf_slice (db_data b) (12 + 8 * ?n + ?l) (length (concat (drop k argv))) =
        drop ?l (buf_slice (db_data b) (12 + 8 * ?n) (length (concat argv)))"
      by (simp add: buf_slice_def l drop_take add.commute)
    also have "\<dots> = string_bytes (concat (drop k argv))"
      unfolding b(7) by (subst split) (simp add: string_bytes_def)
    finally show ?thesis
      using u l b(3) by (intro exI [of _ "of_nat (12 + 8 * ?n + ?l)"]) (simp add: ptrs [OF that] le_word_le_bytes)
  qed
  moreover have "buf_slice (db_data b) 0 8 = le_bytes 4 (0 :: u32) @ le_bytes 4 (of_nat ?n :: u32)"
    using b(5,6) buf_slice_append [of "db_data b" 0 4 4] by simp
  ultimately show ?thesis using b by blast
qed

theorem arguments_layout_witness:
  "\<exists>b. arguments (\<lambda>_. 0) [''ab'', ''c''] = Inr b \<and> unat (db_num_bytes b) = 31 \<and>
     buf_slice (db_data b) 28 3 = string_bytes ''abc''"
  using arguments_layout [of "[''ab'', ''c'']" "\<lambda>_. 0"] by (fastforce simp: numeral_3_eq_3)

lemma load_elf_ok:
  assumes "argv \<noteq> []" "arguments junk argv = Inr args" "block_ok args"
    and "fs (hd argv) = Some bs" "sizeof_Ehdr E \<le> length bs"
    and "h = decode_Ehdr E (buf_slice bs 0 (sizeof_Ehdr E))" "e_machine h = EM_RISCV"
    and "\<forall>i < unat (e_shnum h). header_in_file E bs h i \<and>
      (loaded E (section_header E bs h i) \<longrightarrow> section_in_file bs (section_header E bs h i) \<and>
         block_ok (section_block bs (section_header E bs h i)))"
  shows "\<exists>m'. load_elf E junk fs argv m = (Inr (), m') \<and> host m' = host m \<and>
    byte_at m' = fold store_block (map (section_block bs)
        (filter (loaded E) (map (section_header E bs h) [0..<unat (e_shnum h)])))
      (store_block args (byte_at m))"
proof -
  let ?blocks = "map (section_block bs)
        (filter (loaded E) (map (section_header E bs h) [0..<unat (e_shnum h)]))"
  let ?f = "\<lparr>contents = bs, position = 0, failed = False\<rparr>"
  have opened: "open_file fs (hd argv) = ?f" using assms(4) by (simp add: open_file_def)
  have header: "get_elf_header E junk ?f = (Inr h, ?f\<lparr>position := sizeof_Ehdr E\<rparr>)"
    using assms(5-7) by (rule get_elf_header_ok)
  have "fst (elf_loop E junk h [0..<unat (e_shnum h)] [] (?f\<lparr>position := sizeof_Ehdr E\<rparr>)) = Inr ?blocks"
    using elf_loop_ok [of "[0..<unat (e_shnum h)]" h E bs "?f\<lparr>position := sizeof_Ehdr E\<rparr>" junk "[]"]
      assms(8) by auto
  then have elf: "elf E junk fs (hd argv) = Inr ?blocks"
    by (simp add: elf_def opened bindM_apply header)
  obtain m1 where m1: "MainMemory_write args m = (Inr (), m1)" "host m1 = host m"
    "byte_at m1 = store_block args (byte_at m)"
    using MainMemory_write_block [OF assms(3)] by blast
  have "\<forall>b \<in> set ?blocks. block_ok b" using assms(8) by auto
  from write_blocks_ok [OF this, of m1] obtain m2 where
    "write_blocks ?blocks m1 = (Inr (), m2)" "host m2 = host m1"
    "byte_at m2 = fold store_block ?blocks (byte_at m1)" by blast
  then show ?thesis
    using assms(1,2) m1 elf by (auto simp: load_elf_def bindM_apply of_sum_apply hd_conv_nth)
qed

text \<open>
  C24: Loading a well-formed RISC-V executable succeeds and leaves in memory the block of
  arguments overlaid by exactly the sections that are to be allocated and have contents,
  in the order of the section table, and nothing else.
\<close>

theorem load_elf_image:
  assumes "argv \<noteq> []" "arguments junk argv = Inr args" "block_ok args"
    and "fs (hd argv) = Some bs" "sizeof_Ehdr E \<le> length bs"
    and "h = decode_Ehdr E (buf_slice bs 0 (sizeof_Ehdr E))" "e_machine h = EM_RISCV"
    and "\<forall>i < unat (e_shnum h). header_in_file E bs h i \<and>
      (loaded E (section_header E bs h i) \<longrightarrow> section_in_file bs (section_header E bs h i) \<and>
         block_ok (section_block bs (section_header E bs h i)))"
  shows "\<exists>m'. load_elf E junk fs argv m = (Inr (), m') \<and> host m' = host m \<and>
    byte_at m' = fold store_block (map (section_block bs)
        (filter (loaded E) (map (section_header E bs h) [0..<unat (e_shnum h)])))
      (store_block args (byte_at m))"
  using assms by (rule load_elf_ok)

definition example_elf_h :: elf_h where
  "example_elf_h =
     \<lparr>sizeof_Ehdr = 1,
      decode_Ehdr = \<lambda>_. \<lparr>e_machine = 0xf3, e_entry = 0x1000, e_shoff = 0, e_shentsize = 0, e_shnum = 1\<rparr>,
      sizeof_Shdr = 1,
      decode_Shdr = \<lambda>_. \<lparr>sh_type = 1, sh_flags = 2, sh_addr = 0x1000, sh_offset = 0, sh_size = 2,
        sh_link = 0, sh_entsize = 0\<rparr>,
      sizeof_Sym = 1, decode_Sym = \<lambda>_. \<lparr>st_name = 0, st_value = 0\<rparr>,
      SHF_ALLOC = 2, SHT_NOBITS = 8, SHT_SYMTAB = 2\<rparr>"

definition example_header :: Elf64_Ehdr where
  "example_header = decode_Ehdr example_elf_h (buf_slice [7, 9] 0 (sizeof_Ehdr example_elf_h))"

lemma example_header_fields:
  "e_machine example_header = EM_RISCV" "e_shnum example_header = 1" "e_shentsize example_header = 0"
  "e_shoff example_header = 0" "e_entry example_header = 0x1000" "sizeof_Ehdr example_elf_h = 1" "sizeof_Shdr example_elf_h = 1"
  "SHF_ALLOC example_elf_h = 2" "SHT_NOBITS example_elf_h = 8" "SHT_SYMTAB example_elf_h = 2"
  by (simp_all add: example_header_def example_elf_h_def EM_RISCV_def)

lemma example_section:
  "section_header example_elf_h [7, 9] example_header 0 =
     \<lparr>sh_type = 1, sh_flags = 2, sh_addr = 0x1000, sh_offset = 0, sh_size = 2, sh_link = 0, sh_entsize = 0\<rparr>"
  by (simp add: section_header_def example_elf_h_def)

lemma example_section_block:
  "loaded example_elf_h (section_header example_elf_h [7, 9] example_header 0)"
  "section_block [7, 9] (section_header example_elf_h [7, 9] example_header 0) =
     \<lparr>db_address = 0x1000, db_num_bytes = 2, db_data = [7, 9]\<rparr>"
  by (simp_all add: example_section loaded_def example_header_fields section_block_def buf_slice_def)

lemma example_sections:
  "\<forall>i < unat (e_shnum example_header). header_in_file example_elf_h [7, 9] example_header i \<and>
     (loaded example_elf_h (section_header example_elf_h [7, 9] example_header i) \<longrightarrow>
        section_in_file [7, 9] (section_header example_elf_h [7, 9] example_header i) \<and>
        block_ok (section_block [7, 9] (section_header example_elf_h [7, 9] example_header i)))"
  using example_section_block(2)
  by (simp add: example_header_fields header_in_file_def header_offset_def section_in_file_def example_section
      block_ok_def access_ok_def MAX_PHYSICAL_ADDRESS_def)

theorem load_elf_image_witness:
  "\<exists>args m'. arguments (\<lambda>_. 0) [''a''] = Inr args \<and>
     load_elf example_elf_h (\<lambda>_. 0) [''a'' \<mapsto> [7, 9]] [''a''] zeroed_memory = (Inr (), m') \<and>
     byte_at m' = poke (store_block args (byte_at zeroed_memory)) 0x1000 [7, 9]"
proof -
  obtain args where args: "arguments (\<lambda>_. 0) [''a''] = Inr args"
    "db_address args = 0" "unat (db_num_bytes args) = 21" "length (db_data args) = 1024"
    using arguments_block [of "[''a'']" "\<lambda>_. 0"] by auto
  from args(3) have "db_num_bytes args = 21" by (simp add: word_unat_eq_iff)
  with args have ok: "block_ok args" by (simp add: block_ok_def access_ok_def MAX_PHYSICAL_ADDRESS_def)
  have len: "sizeof_Ehdr example_elf_h \<le> length [7, 9 :: u8]" by (simp add: example_header_fields)
  have fs: "([''a'' \<mapsto> [7, 9]] :: string \<rightharpoonup> u8 list) (hd [''a'']) = Some [7, 9]" by simp
  from load_elf_image [where fs = "[''a'' \<mapsto> [7, 9]]" and argv = "[''a'']" and m = zeroed_memory,
      OF _ args(1) ok fs len example_header_def example_header_fields(1) example_sections]
  show ?thesis using args(1) example_section_block
    by (auto simp: example_header_fields store_block_def)
qed

lemma symbol_location_ok:
  assumes "fs path = Some bs" "sizeof_Ehdr E \<le> length bs"
    and "h = decode_Ehdr E (buf_slice bs 0 (sizeof_Ehdr E))" "e_machine h = EM_RISCV"
    and "\<forall>i < unat (e_shnum h). tables_in_file E bs h (length name) i"
  shows "symbol_location E junk fs path name =
    (case find (\<lambda>(sh, j). symbol_overruns E bs h (length name) sh j \<or> symbol_matches E bs h name sh j)
        (symbol_candidates E bs h [0..<unat (e_shnum h)]) of
       None \<Rightarrow> Inr (- 1)
     | Some (sh, j) \<Rightarrow> if symbol_overruns E bs h (length name) sh j then Inl Undefined
         else Inr (st_value (symbol_at E bs sh j)))"
proof -
  let ?f = "\<lparr>contents = bs, position = 0, failed = False\<rparr>"
  let ?f1 = "?f\<lparr>position := sizeof_Ehdr E\<rparr>"
  have opened: "open_file fs path = ?f" using assms(1) by (simp add: open_file_def)
  have header: "get_elf_header E junk ?f = (Inr h, ?f1)"
    using assms(2-4) by (rule get_elf_header_ok)
  have "fst (section_loop E junk h name [0..<unat (e_shnum h)] ?f1) =
      search_outcome E bs h name (symbol_candidates E bs h [0..<unat (e_shnum h)])"
    using assms(5) by (intro section_loop_ok) auto
  then show ?thesis
    by (cases "section_loop E junk h name [0..<unat (e_shnum h)] ?f1")
      (auto simp: symbol_location_def opened bindM_apply header ret_apply search_outcome_def symbol_found_def
        symbol_decides_def split: option.splits prod.splits)
qed

text \<open>
  C25: The exact outcome of the search for a symbol, in a file that contains its headers, its symbol
  tables and enough bytes of each name. The symbols of all symbol tables are tried in order,
  and the first one decides whose name is the one looked for or does not end within as many bytes as that
  has with its terminator. In the first case its value is returned; in the second the code reads past its
  buffer, which is undefined. \<open>-1\<close> is returned if no symbol decides.
\<close>

theorem symbol_location_first:
  assumes "fs path = Some bs" "sizeof_Ehdr E \<le> length bs"
    and "h = decode_Ehdr E (buf_slice bs 0 (sizeof_Ehdr E))" "e_machine h = EM_RISCV"
    and "\<forall>i < unat (e_shnum h). tables_in_file E bs h (length name) i"
  shows "symbol_location E junk fs path name =
    (case find (\<lambda>(sh, j). symbol_overruns E bs h (length name) sh j \<or> symbol_matches E bs h name sh j)
        (symbol_candidates E bs h [0..<unat (e_shnum h)]) of
       None \<Rightarrow> Inr (- 1)
     | Some (sh, j) \<Rightarrow> if symbol_overruns E bs h (length name) sh j then Inl Undefined
         else Inr (st_value (symbol_at E bs sh j)))"
  using assms by (rule symbol_location_ok)

lemma example_no_tables: "\<forall>i < unat (e_shnum example_header). tables_in_file example_elf_h [7, 9] example_header n i"
  using example_section
  by (simp add: example_header_fields tables_in_file_def header_in_file_def header_offset_def Let_def)

lemma example_no_symbols: "symbol_candidates example_elf_h [7, 9] example_header [0..<unat (e_shnum example_header)] = []"
  using example_section by (simp add: example_header_fields symbol_candidates_def)

text \<open>
  Files with a table of two symbols, whose entries hold the positions \<open>a\<close> and \<open>b\<close> of their names in the
  string table \<open>tohost, fromhost\<close>; the value of a symbol is \<open>0x1000\<close> plus that position.
\<close>

definition symbol_elf_h :: elf_h where
  "symbol_elf_h = example_elf_h
     \<lparr>decode_Ehdr := \<lambda>_. \<lparr>e_machine = 0xf3, e_entry = 0x1000, e_shoff = 0, e_shentsize = 1, e_shnum = 2\<rparr>,
      decode_Shdr := \<lambda>bs. \<lparr>sh_type = ucast (bs ! 0), sh_flags = 0, sh_addr = 0, sh_offset = if bs ! 0 = 2 then 2 else 4,
        sh_size = 2, sh_link = 1, sh_entsize = 1\<rparr>,
      decode_Sym := \<lambda>bs. \<lparr>st_name = ucast (bs ! 0), st_value = 0x1000 + ucast (bs ! 0)\<rparr>\<rparr>"

definition symbol_file :: "u8 \<Rightarrow> u8 \<Rightarrow> u8 list" where
  "symbol_file a b = [2, 3, a, b, 0x74, 0x6f, 0x68, 0x6f, 0x73, 0x74, 0,
     0x66, 0x72, 0x6f, 0x6d, 0x68, 0x6f, 0x73, 0x74, 0]"

definition symbol_header :: Elf64_Ehdr where
  "symbol_header = \<lparr>e_machine = 0xf3, e_entry = 0x1000, e_shoff = 0, e_shentsize = 1, e_shnum = 2\<rparr>"

lemma symbol_elf_fields:
  "decode_Ehdr symbol_elf_h bs = symbol_header" "sizeof_Ehdr symbol_elf_h = 1" "sizeof_Shdr symbol_elf_h = 1"
  "sizeof_Sym symbol_elf_h = 1" "SHT_SYMTAB symbol_elf_h = 2"
  "e_machine symbol_header = EM_RISCV" "e_shnum symbol_header = 2" "e_shoff symbol_header = 0" "e_shentsize symbol_header = 1"
  by (simp_all add: symbol_elf_h_def example_elf_h_def symbol_header_def EM_RISCV_def)

definition symbol_table :: Elf64_Shdr where
  "symbol_table = \<lparr>sh_type = 2, sh_flags = 0, sh_addr = 0, sh_offset = 2, sh_size = 2, sh_link = 1, sh_entsize = 1\<rparr>"

lemma symbol_sections:
  "section_header symbol_elf_h (symbol_file a b) symbol_header 0 = symbol_table"
  "section_header symbol_elf_h (symbol_file a b) symbol_header (Suc 0) = symbol_table\<lparr>sh_type := 3, sh_offset := 4\<rparr>"
  by (simp_all add: section_header_def header_offset_def symbol_header_def symbol_elf_h_def example_elf_h_def
      buf_slice_def symbol_file_def symbol_table_def)

lemma symbol_table_fields:
  "sh_type symbol_table = 2" "sh_entsize symbol_table = 1" "sh_link symbol_table = 1"
  "num_symbols symbol_table = 2" "symbol_offset symbol_table 0 = 2" "symbol_offset symbol_table (Suc 0) = 3"
  by (simp_all add: symbol_table_def num_symbols_def symbol_offset_def)

lemma symbol_entries:
  "symbol_at symbol_elf_h (symbol_file a b) symbol_table 0 = \<lparr>st_name = ucast a, st_value = 0x1000 + ucast a\<rparr>"
  "symbol_at symbol_elf_h (symbol_file a b) symbol_table (Suc 0) = \<lparr>st_name = ucast b, st_value = 0x1000 + ucast b\<rparr>"
  by (simp_all add: symbol_table_fields symbol_at_def symbol_elf_h_def example_elf_h_def buf_slice_def symbol_file_def)

lemma symbol_names:
  "name_position symbol_elf_h (symbol_file a b) symbol_header symbol_table 0 = unat (4 + ucast (ucast a :: u32) :: u64)"
  "name_position symbol_elf_h (symbol_file a b) symbol_header symbol_table (Suc 0) = unat (4 + ucast (ucast b :: u32) :: u64)"
  by (simp_all add: name_position_def symbol_entries symbol_table_fields symbol_sections)

lemma symbol_candidates_example:
  "symbol_candidates symbol_elf_h (symbol_file a b) symbol_header [0..<unat (e_shnum symbol_header)] =
     [(symbol_table, 0), (symbol_table, Suc 0)]"
  by (simp add: symbol_candidates_def symbol_elf_fields symbol_sections symbol_table_fields Let_def upt_rec)

lemma symbol_tables_in_file:
  assumes "(a, b) \<in> {(0, 7), (7, 0)}" "n \<le> 8"
  shows "\<forall>i < unat (e_shnum symbol_header). tables_in_file symbol_elf_h (symbol_file a b) symbol_header n i"
proof -
  have l: "length (symbol_file a b) = 20" by (simp add: symbol_file_def)
  have "symbol_in_file symbol_elf_h (symbol_file a b) symbol_header symbol_table n j" if "j \<in> {0, Suc 0}" for j
    using that assms
    by (auto simp: symbol_in_file_def symbol_names l symbol_elf_fields symbol_table_fields header_in_file_def header_offset_def)
  moreover have "j \<in> {0, Suc 0}" if "int j < 2" for j using that by auto
  ultimately have "tables_in_file symbol_elf_h (symbol_file a b) symbol_header n i" if "i \<in> {0, Suc 0}" for i
    using that
    by (auto simp: tables_in_file_def symbol_sections symbol_table_fields symbol_elf_fields l header_in_file_def
        header_offset_def)
  moreover have "i \<in> {0, Suc 0}" if "i < unat (e_shnum symbol_header)" for i
    using that by (auto simp: symbol_elf_fields)
  ultimately show ?thesis by blast
qed

lemma symbol_name_bytes:
  "drop 4 (symbol_file a b) = [0x74, 0x6f, 0x68, 0x6f, 0x73, 0x74, 0, 0x66, 0x72, 0x6f, 0x6d, 0x68, 0x6f, 0x73, 0x74, 0]"
  "drop 11 (symbol_file a b) = [0x66, 0x72, 0x6f, 0x6d, 0x68, 0x6f, 0x73, 0x74, 0]"
  by (simp_all add: symbol_file_def)

lemma symbol_strings:
  "string_bytes ''tohost'' = [0x74, 0x6f, 0x68, 0x6f, 0x73, 0x74]"
  "string_bytes ''fromhost'' = [0x66, 0x72, 0x6f, 0x6d, 0x68, 0x6f, 0x73, 0x74]"
  by (simp_all add: string_bytes_def)

lemmas symbol_evaluate = symbol_overruns_def symbol_matches_def symbol_names symbol_entries symbol_strings
  symbol_name_bytes buf_slice_def

theorem symbol_location_first_witness:
  "symbol_location symbol_elf_h (\<lambda>_. 0) [''a'' \<mapsto> symbol_file 0 7] ''a'' ''tohost'' = Inr 0x1000 \<and>
   symbol_location symbol_elf_h (\<lambda>_. 0) [''a'' \<mapsto> symbol_file 0 7] ''a'' ''fromhost'' = Inr 0x1007 \<and>
   symbol_location symbol_elf_h (\<lambda>_. 0) [''a'' \<mapsto> symbol_file 7 0] ''a'' ''tohost'' = Inl Undefined"
proof -
  have outcome: "symbol_location symbol_elf_h (\<lambda>_. 0) [''a'' \<mapsto> symbol_file a b] ''a'' name =
      (case find (\<lambda>(sh, j). symbol_overruns symbol_elf_h (symbol_file a b) symbol_header (length name) sh j \<or>
           symbol_matches symbol_elf_h (symbol_file a b) symbol_header name sh j)
         (symbol_candidates symbol_elf_h (symbol_file a b) symbol_header [0..<unat (e_shnum symbol_header)]) of
         None \<Rightarrow> Inr (- 1)
       | Some (sh, j) \<Rightarrow> if symbol_overruns symbol_elf_h (symbol_file a b) symbol_header (length name) sh j then Inl Undefined
           else Inr (st_value (symbol_at symbol_elf_h (symbol_file a b) sh j)))"
    if "(a, b) \<in> {(0, 7), (7, 0)}" "length name \<le> 8" for a b name
    by (rule symbol_location_first [where fs = "[''a'' \<mapsto> symbol_file a b]" and path = "''a''"])
      (use symbol_tables_in_file [OF that] in \<open>simp_all add: symbol_elf_fields symbol_file_def\<close>)
  have "symbol_location symbol_elf_h (\<lambda>_. 0) [''a'' \<mapsto> symbol_file 0 7] ''a'' ''tohost'' = Inr 0x1000"
    by (subst outcome) (simp_all only: symbol_candidates_example, simp_all add: symbol_evaluate)
  moreover have "symbol_location symbol_elf_h (\<lambda>_. 0) [''a'' \<mapsto> symbol_file 0 7] ''a'' ''fromhost'' = Inr 0x1007"
    by (subst outcome) (simp_all only: symbol_candidates_example, simp_all add: symbol_evaluate)
  moreover have "symbol_location symbol_elf_h (\<lambda>_. 0) [''a'' \<mapsto> symbol_file 7 0] ''a'' ''tohost'' = Inl Undefined"
    by (subst outcome) (simp_all only: symbol_candidates_example, simp_all add: symbol_evaluate)
  ultimately show ?thesis by blast
qed

end
