(* ===== verification/Number_Parsing.thy ===== *)
theory Number_Parsing
  imports Muntjac_Prelude
begin

text \<open>
  Numbers in text: \<open>std::stoi\<close> and \<open>atoi\<close>, which the command lines and the
  configuration files go through, and the decimal notation it reads back.
\<close>

text \<open>
  \<open>std::stoi\<close>: white space, an optional sign and decimal digits, the rest ignored; no digit
  is an invalid argument, and a value beyond \<open>int\<close> is out of range.
\<close>

definition is_space :: "char \<Rightarrow> bool" where
  "is_space c \<longleftrightarrow> c = CHR '' '' \<or> (9 \<le> (of_char c :: nat) \<and> (of_char c :: nat) \<le> 13)"

definition is_digit :: "char \<Rightarrow> bool" where
  "is_digit c \<longleftrightarrow> 48 \<le> (of_char c :: nat) \<and> (of_char c :: nat) \<le> 57"

definition digits_value :: "string \<Rightarrow> int" where
  "digits_value ds = foldl (\<lambda>v c. 10 * v + (of_char c - 48)) 0 ds"

definition stoi :: "string \<Rightarrow> failure + int" where
  "stoi text =
     (let t = dropWhile is_space text;
          negative = (t \<noteq> [] \<and> hd t = CHR ''-'');
          body = (if t \<noteq> [] \<and> (hd t = CHR ''-'' \<or> hd t = CHR ''+'') then tl t else t);
          ds = takeWhile is_digit body;
          v = (if negative then - digits_value ds else digits_value ds) in
      if ds = [] then Inl (Throw (RuntimeError ''stoi''))
      else if v < - (2 ^ 31) \<or> 2 ^ 31 \<le> v then Inl (Throw (OutOfRange ''stoi''))
      else Inr v)"

text \<open>Decimal notation of a number that fits into an \<open>int\<close>, and that \<open>stoi\<close> reads it back.\<close>

fun decimal :: "nat \<Rightarrow> string" where
  "decimal n = (if n < 10 then [char_of (48 + n)] else decimal (n div 10) @ [char_of (48 + n mod 10)])"

declare decimal.simps [simp del]

definition decimal_int :: "int \<Rightarrow> string" where
  "decimal_int i = (if i < 0 then CHR ''-'' # decimal (nat (- i)) else decimal (nat i))"

lemma digits_value_append: "digits_value (xs @ [c]) = 10 * digits_value xs + (of_char c - 48)"
  by (simp add: digits_value_def)

lemma of_digit: "n < 10 \<Longrightarrow> of_char (char_of (48 + n :: nat)) = (48 + n :: nat)"
  by simp

lemma of_digit_int: "n < 10 \<Longrightarrow> of_char (char_of (48 + n :: nat)) = (48 + int n :: int)"
proof -
  assume "n < 10"
  then have "int (of_char (char_of (48 + n) :: char)) = 48 + int n" by simp
  moreover have "int (of_char c) = of_char c" for c :: char by (cases c) simp
  ultimately show ?thesis by (metis (full_types))
qed

lemma decimal_digits: "\<forall>c \<in> set (decimal n). is_digit c"
  by (induction n rule: decimal.induct) (subst decimal.simps, auto simp: is_digit_def)

lemma decimal_not_Nil: "decimal n \<noteq> []"
  by (subst decimal.simps) auto

lemma digits_value_decimal: "digits_value (decimal n) = int n"
proof (induction n rule: decimal.induct)
  case (1 n)
  show ?case
  proof (cases "n < 10")
    case True
    then show ?thesis by (subst decimal.simps) (simp add: digits_value_def of_digit_int)
  next
    case False
    with 1 have IH: "digits_value (decimal (n div 10)) = int (n div 10)" by simp
    have "10 * int (n div 10) + int (n mod 10) = int n"
      by (metis mult_div_mod_eq of_nat_add of_nat_mult of_nat_numeral)
    with False show ?thesis
      by (subst decimal.simps) (simp add: digits_value_append IH of_digit_int)
  qed
qed

lemma digit_not_special: "is_digit c \<Longrightarrow> \<not> is_space c \<and> c \<noteq> CHR ''-'' \<and> c \<noteq> CHR ''+''"
  by (auto simp: is_digit_def is_space_def)

lemma hd_decimal: "is_digit (hd (decimal n))"
  using decimal_digits decimal_not_Nil by (metis hd_in_set)

lemma takeWhile_decimal: "takeWhile is_digit (decimal n) = decimal n"
  using decimal_digits by (simp add: takeWhile_eq_all_conv)

lemma stoi_decimal_int:
  assumes "- (2 ^ 31) \<le> i" "i < 2 ^ 31"
  shows "stoi (decimal_int i) = Inr i"
proof (cases "i < 0")
  case True
  have "\<not> is_space (CHR ''-'')" by (simp add: is_space_def)
  then show ?thesis
    using True assms
    by (simp add: stoi_def decimal_int_def takeWhile_decimal decimal_not_Nil digits_value_decimal Let_def)
next
  case False
  have "dropWhile is_space (decimal (nat i)) = decimal (nat i)"
    using digit_not_special [OF hd_decimal] decimal_not_Nil by (metis dropWhile_eq_self_iff)
  then show ?thesis
    using False assms digit_not_special [OF hd_decimal [of "nat i"]]
    by (simp add: stoi_def decimal_int_def takeWhile_decimal decimal_not_Nil digits_value_decimal Let_def)
qed

text \<open>\<open>atoi\<close> of the C library: no digit counts as zero, and a value beyond \<open>int\<close> is undefined.\<close>

definition atoi :: "string \<Rightarrow> failure + int" where
  "atoi text =
     (case stoi text of
        Inr v \<Rightarrow> Inr v
      | Inl (Throw (OutOfRange _)) \<Rightarrow> Inl Undefined
      | Inl _ \<Rightarrow> Inr 0)"

end
