(* ===== verification/Simulation.thy ===== *)
theory Simulation
  imports Data_Cache_Port Argument_Parser Binary_Parser Number_Parsing
begin

text \<open>
  The simulation driver of \<open>simulation.h\<close>: command line, program loading, system calls and
  the clock loop, with the traces it writes. Its virtual methods, and the evaluation of the
  design that Verilator generates, are a record of operations that the two harnesses fill in.
  The macros \<open>VCD_ENABLE\<close> and \<open>FST_ENABLE\<close> are members of the state, so that every build is
  covered; a waveform file is the sequence of calls made to Verilator's writer. Files can always
  be opened for writing.

  The clock \<open>cycle\<close> is a \<open>double\<close> that advances by 0.5, so the model counts half cycles. A \<open>double\<close>
  has a significand of 53 bits: the sum \<open>2 ^ 52 + 0.5\<close> is rounded to \<open>2 ^ 52\<close>, where the clock stops,
  and the products \<open>10 * cycle\<close> are rounded from \<open>2 ^ 53\<close> on. Both are modelled. The comparison with
  the timeout, whose conversion to \<open>double\<close> is exact up to \<open>2 ^ 53\<close> and monotone, is that of the exact
  numbers. The finish flag of Verilator is set by a system call of the program or by a
  \<open>$finish\<close> in the design, which \<open>dut_finish\<close> reads off the state of the design.
\<close>

section \<open>System calls\<close>

text \<open>What the system calls of a simulation can see and change.\<close>

record host_state =
  tohost :: MemoryAddress
  fromhost :: MemoryAddress
  exit_code :: int
  got_finish :: bool
  char_output :: "u8 list"

definition is_system_call :: "host_state \<Rightarrow> MemoryAddress \<Rightarrow> u64 \<Rightarrow> bool" where
  "is_system_call h address write_data \<longleftrightarrow> address = tohost h \<or> address = fromhost h"

definition system_call :: "host_state \<Rightarrow> MemoryAddress \<Rightarrow> u64 \<Rightarrow> failure + host_state" where
  "system_call h address write_data =
     (if \<not> is_system_call h address write_data then Inl Assertion
      else if write_data AND 0xffffffffffffff00 = 0x101000000000000
      then Inr (h\<lparr>char_output := char_output h @ [ucast (write_data AND 0xff)]\<rparr>)
      else Inr (h\<lparr>exit_code := sint (ucast write_data :: u32), got_finish := True\<rparr>))"

definition sim_sys_calls :: "host_state sys_calls" where
  "sim_sys_calls = \<lparr>sc_is_system_call = is_system_call, sc_system_call = system_call\<rparr>"

section \<open>State\<close>

text \<open>The calls to a \<open>VerilatedVcdC\<close> or \<open>VerilatedFstC\<close>, with their arguments, and the members that control them.\<close>

datatype wave_event = Attached nat | Opened string | Dumped u64 | Flushed | Closed

record waveform =
  wave_on :: bool
  wave_filename :: string
  wave_events :: "wave_event list"

record build =
  VCD_ENABLE :: bool
  FST_ENABLE :: bool

record ('p, 'd) sim =
  sim_build :: build
  sim_name :: string
  sim_dut :: 'd
  sim_ports :: 'p
  sim_memory :: "host_state main_memory"
  half_cycles :: nat
  timeout :: u64
  sim_args :: ArgumentParser
  coverage_on :: bool
  coverage_file :: string
  coverage_written :: "string list"
  vcd_wave :: waveform
  fst_wave :: waveform
  trace_ever_on :: bool
  log_level :: int
  main_memory_latency :: int
  csv_on :: bool
  csv_filename :: string
  csv_trace :: string
  csv_is_open :: bool
  sim_pc :: MemoryAddress
  binary_position :: "nat option"
  sim_entry_point :: MemoryAddress
  std_output :: string
  std_error :: string

text \<open>
  The virtual methods of a simulation and the generated model: \<open>dut_eval\<close>, \<open>dut_final\<close>, and whether the
  design has executed \<open>$finish\<close>.
\<close>

record ('p, 'd) sim_methods =
  set_clock :: "int \<Rightarrow> 'd \<Rightarrow> 'd"
  set_reset :: "int \<Rightarrow> 'd \<Rightarrow> 'd"
  sim_init :: "'d \<Rightarrow> 'd"
  cycle_first_half :: "(('p, 'd) sim, unit) prog"
  cycle_second_half :: "(('p, 'd) sim, unit) prog"
  get_program_counter :: "'d \<Rightarrow> MemoryAddress"
  get_trace_info :: "'d \<Rightarrow> instr_trace_t"
  dut_eval :: "'d \<Rightarrow> 'd"
  dut_final :: "'d \<Rightarrow> 'd"
  dut_finish :: "'d \<Rightarrow> bool"

definition on_dut :: "('d \<Rightarrow> 'd) \<Rightarrow> (('p, 'd) sim, unit) prog" where
  "on_dut f = modify (\<lambda>s. s\<lparr>sim_dut := f (sim_dut s)\<rparr>)"

definition on_sim_memory :: "(host_state main_memory, 'a) prog \<Rightarrow> (('p, 'd) sim, 'a) prog" where
  "on_sim_memory = zoom sim_memory (\<lambda>m s. s\<lparr>sim_memory := m\<rparr>)"

lemma on_dut_apply [prog_simps]: "on_dut f s = (Inr (), s\<lparr>sim_dut := f (sim_dut s)\<rparr>)"
  by (simp add: on_dut_def modify_apply)

lemma on_sim_memory_apply [prog_simps]:
  "on_sim_memory p s = (case p (sim_memory s) of (r, m) \<Rightarrow> (r, s\<lparr>sim_memory := m\<rparr>))"
  by (simp add: on_sim_memory_def zoom_apply)

definition base_args :: "build \<Rightarrow> ArgumentParser" where
  "base_args b =
     (if VCD_ENABLE b
      then add_argument ''--vcd'' ''Dump VCD output to a file (enable FST in *_tb.core)'' ARGS_ONE else (\<lambda>a. a))
     ((if FST_ENABLE b
      then add_argument ''--fst'' ''Dump FST output to a file (enable VCD in *_tb.core)'' ARGS_ONE else (\<lambda>a. a))
     (add_argument ''--help'' ''Display this information and exit'' ARGS_NONE
     (add_argument ''-vv'' ''Display detailed logging information as simulation proceeds'' ARGS_NONE
     (add_argument ''-v'' ''Display basic logging information as simulation proceeds'' ARGS_NONE
     (add_argument ''--coverage'' ''Dump coverage information to a file'' ARGS_ONE
     (add_argument ''--timeout'' ''Force end of simulation after fixed number of cycles'' ARGS_ONE
        new_argument_parser))))))"

definition simulation_args :: "build \<Rightarrow> string \<Rightarrow> ArgumentParser" where
  "simulation_args b name =
     add_argument ''--csv'' ''Dump a CSV trace to a file (mainly for riscv-dv)'' ARGS_ONE
     (add_argument ''--memory-latency'' ''Set main memory latency to a given number of cycles'' ARGS_ONE
     (set_description (''Usage: '' @ name @ '' [simulator args] <program> [program args]'') (base_args b)))"

text \<open>
  The constructors of \<open>Simulation\<close> and \<open>RISCVSimulation\<close>. Members without an initialiser
  start with the values of the parameter \<open>u\<close>, which also says how the simulator was built.
  The members of a waveform do not exist in a build without it.
\<close>

definition new_Simulation :: "string \<Rightarrow> ('p, 'd) sim \<Rightarrow> ('p, 'd) sim" where
  "new_Simulation name u =
     u\<lparr>sim_name := name, timeout := 1000000, coverage_on := False, half_cycles := 0,
       log_level := 0, sim_args := base_args (sim_build u), coverage_file := [], coverage_written := [],
       vcd_wave := \<lparr>wave_on = False, wave_filename = [], wave_events = []\<rparr>,
       fst_wave := \<lparr>wave_on = False, wave_filename = [], wave_events = []\<rparr>,
       trace_ever_on := False, std_output := [], std_error := []\<rparr>"

definition new_simulation :: "string \<Rightarrow> ('p, 'd) sim \<Rightarrow> ('p, 'd) sim" where
  "new_simulation name u =
     (new_Simulation name u)
      \<lparr>sim_args := simulation_args (sim_build u) name, main_memory_latency := 10,
       csv_on := False, csv_filename := [], csv_trace := [], csv_is_open := False,
       binary_position := None,
       sim_memory := new_main_memory (garbage (sim_memory u))
         ((host (sim_memory u))\<lparr>exit_code := 0, got_finish := False, char_output := []\<rparr>)\<rparr>"

definition simulation_time :: "('p, 'd) sim \<Rightarrow> u64" where
  "simulation_time s = of_nat (half_cycles s div 2)"

text \<open>\<open>sc_time_stamp\<close> is the time of the only simulation, and the macros of \<open>logs.h\<close> put it before each message.\<close>

definition sc_time_stamp :: "('p, 'd) sim \<Rightarrow> u64" where
  "sc_time_stamp s = simulation_time s"

definition muntjac_log :: "int \<Rightarrow> string \<Rightarrow> ('p, 'd) sim \<Rightarrow> ('p, 'd) sim" where
  "muntjac_log level message s =
     (if log_level s \<ge> level
      then s\<lparr>std_output := std_output s @ ''[sim '' @ decimal (unat (sc_time_stamp s)) @ ''] '' @ message @ newline\<rparr>
      else s)"

definition muntjac_error :: "string \<Rightarrow> ('p, 'd) sim \<Rightarrow> ('p, 'd) sim" where
  "muntjac_error message s = s\<lparr>std_error := std_error s @ ''[sim] Error: '' @ message @ newline\<rparr>"

definition return_code :: "('p, 'd) sim \<Rightarrow> int" where
  "return_code s = exit_code (host (sim_memory s))"

section \<open>Reset\<close>

fun reset_loop :: "('p, 'd) sim_methods \<Rightarrow> nat \<Rightarrow> (('p, 'd) sim, unit) prog" where
  "reset_loop M 0 = ret ()"
| "reset_loop M (Suc n) =
     bindM (on_dut (set_clock M 1)) (\<lambda>_.
     bindM (on_dut (dut_eval M)) (\<lambda>_.
     bindM (on_dut (set_clock M 0)) (\<lambda>_.
     bindM (on_dut (dut_eval M)) (\<lambda>_.
     reset_loop M n))))"

definition Simulation_reset :: "('p, 'd) sim_methods \<Rightarrow> (('p, 'd) sim, unit) prog" where
  "Simulation_reset M =
     bindM (on_dut (set_reset M 1)) (\<lambda>_.
     bindM (reset_loop M 10) (\<lambda>_.
     on_dut (set_reset M 0)))"

definition set_entry_point :: "MemoryAddress \<Rightarrow> (('p, 'd) sim, unit) prog" where
  "set_entry_point pc =
     bindM (on_sim_memory (write64 sim_sys_calls 0x00 0x0105350300000517)) (\<lambda>_.
     bindM (on_sim_memory (write64 sim_sys_calls 0x08 0x0000000000008502)) (\<lambda>_.
     on_sim_memory (write64 sim_sys_calls 0x10 pc)))"

definition sim_reset :: "('p, 'd) sim_methods \<Rightarrow> (('p, 'd) sim, unit) prog" where
  "sim_reset M =
     bindM (Simulation_reset M) (\<lambda>_.
     bindM (gets sim_entry_point) (\<lambda>entry. set_entry_point entry))"

definition end_simulation :: "('p, 'd) sim_methods \<Rightarrow> (('p, 'd) sim, unit) prog" where
  "end_simulation M = on_dut (dut_final M)"

section \<open>Trace output\<close>

definition hex_digit :: "nat \<Rightarrow> char" where
  "hex_digit n = (if n < 10 then char_of (48 + n) else char_of (87 + n))"

fun to_hex :: "nat \<Rightarrow> string" where
  "to_hex n = (if n < 16 then [hex_digit n] else to_hex (n div 16) @ [hex_digit (n mod 16)])"

declare to_hex.simps [simp del]

definition pad_zero :: "nat \<Rightarrow> string \<Rightarrow> string" where
  "pad_zero w s = replicate (w - length s) (CHR ''0'') @ s"

definition hex_int :: "int \<Rightarrow> string" where
  "hex_int i = to_hex (nat (i mod 2 ^ 32))"

definition csv_output_line :: "instr_trace_t \<Rightarrow> string" where
  "csv_output_line trace =
     pad_zero 16 (to_hex (unat (it_pc trace))) @ '',''
     @ (if it_gpr_written trace \<and> it_gpr trace \<noteq> 0
        then hex_int (it_gpr trace) @ '':'' @ pad_zero 16 (to_hex (unat (it_gpr_data trace))) else [])
     @ '',''
     @ (if it_csr_written trace
        then hex_int (it_csr trace) @ '':'' @ pad_zero 16 (to_hex (unat (it_csr_data trace))) else [])
     @ '',''
     @ pad_zero 8 (to_hex (unat (it_instr_word trace))) @ '',''
     @ hex_int (it_mode trace) @ newline"

text \<open>The three uses of a waveform file, and the base class, which applies them to the files of its build.\<close>

definition wave_init :: "waveform \<Rightarrow> waveform" where
  "wave_init w =
     (if wave_on w then w\<lparr>wave_events := wave_events w @ [Attached 100, Opened (wave_filename w)]\<rparr> else w)"

definition wave_dump :: "u64 \<Rightarrow> waveform \<Rightarrow> waveform" where
  "wave_dump t w = (if wave_on w then w\<lparr>wave_events := wave_events w @ [Dumped t]\<rparr> else w)"

definition wave_close :: "waveform \<Rightarrow> waveform" where
  "wave_close w = (if wave_on w then w\<lparr>wave_events := wave_events w @ [Flushed, Closed]\<rparr> else w)"

definition on_waves :: "(waveform \<Rightarrow> waveform) \<Rightarrow> ('p, 'd) sim \<Rightarrow> ('p, 'd) sim" where
  "on_waves f s =
     s\<lparr>vcd_wave := if VCD_ENABLE (sim_build s) then f (vcd_wave s) else vcd_wave s,
       fst_wave := if FST_ENABLE (sim_build s) then f (fst_wave s) else fst_wave s\<rparr>"

definition waves_active :: "('p, 'd) sim \<Rightarrow> bool" where
  "waves_active s \<longleftrightarrow>
     VCD_ENABLE (sim_build s) \<and> wave_on (vcd_wave s) \<or> FST_ENABLE (sim_build s) \<and> wave_on (fst_wave s)"

definition Simulation_trace_init :: "(('p, 'd) sim, unit) prog" where
  "Simulation_trace_init =
     modify (\<lambda>s. (on_waves wave_init s)\<lparr>trace_ever_on := trace_ever_on s \<or> waves_active s\<rparr>)"

text \<open>
  The conversion of \<open>10 * cycle\<close> to \<open>uint64_t\<close>: the product is rounded to 53 bits, to the nearest
  \<open>double\<close> and to an even significand between two. It stays below \<open>2 ^ 56\<close>.
\<close>

definition round_to :: "nat \<Rightarrow> nat \<Rightarrow> nat" where
  "round_to unit n =
     (let q = n div unit; r = n mod unit in
      if 2 * r < unit \<or> 2 * r = unit \<and> even q then q * unit else (q + 1) * unit)"

definition to_double :: "nat \<Rightarrow> nat" where
  "to_double n =
     (if n < 2 ^ 53 then n else if n < 2 ^ 54 then round_to 2 n
      else if n < 2 ^ 55 then round_to 4 n else round_to 8 n)"

definition Simulation_trace_state_change :: "(('p, 'd) sim, unit) prog" where
  "Simulation_trace_state_change = modify (\<lambda>s. on_waves (wave_dump (of_nat (to_double (5 * half_cycles s)))) s)"

definition Simulation_trace_close :: "(('p, 'd) sim, unit) prog" where
  "Simulation_trace_close =
     bindM (modify (on_waves wave_close)) (\<lambda>_.
     modify (\<lambda>s. if coverage_on s then s\<lparr>coverage_written := coverage_written s @ [coverage_file s]\<rparr> else s))"

text \<open>The overriding methods of \<open>RISCVSimulation\<close>, which add the CSV trace. Opening the file empties it.\<close>

definition trace_init :: "(('p, 'd) sim, unit) prog" where
  "trace_init =
     bindM Simulation_trace_init (\<lambda>_.
     modify (\<lambda>s. if csv_on s
       then s\<lparr>csv_is_open := True, csv_trace := ''pc,gpr,csr,binary,mode'' @ newline\<rparr> else s))"

definition trace_state_change :: "('p, 'd) sim_methods \<Rightarrow> (('p, 'd) sim, unit) prog" where
  "trace_state_change M =
     bindM Simulation_trace_state_change (\<lambda>_.
     modify (\<lambda>s.
       if get_program_counter M (sim_dut s) \<noteq> sim_pc s then
         let pc = get_program_counter M (sim_dut s);
             s1 = muntjac_log 1 (''PC: 0x'' @ to_hex (unat pc)) (s\<lparr>sim_pc := pc\<rparr>) in
         if csv_on s1
         then s1\<lparr>csv_trace := csv_trace s1 @ csv_output_line (get_trace_info M (sim_dut s1))\<rparr>
         else s1
       else s))"

definition trace_close :: "(('p, 'd) sim, unit) prog" where
  "trace_close =
     bindM Simulation_trace_close (\<lambda>_.
     modify (\<lambda>s. if csv_on s then s\<lparr>csv_is_open := False\<rparr> else s))"

section \<open>The clock loop\<close>

definition advance :: "(('p, 'd) sim, unit) prog" where
  "advance = modify (\<lambda>s. s\<lparr>half_cycles := min (half_cycles s + 1) (2 ^ 53)\<rparr>)"

definition run_cycle :: "('p, 'd) sim_methods \<Rightarrow> (('p, 'd) sim, unit) prog" where
  "run_cycle M =
     bindM (on_dut (set_clock M 1)) (\<lambda>_.
     bindM (cycle_first_half M) (\<lambda>_.
     bindM (trace_state_change M) (\<lambda>_.
     bindM advance (\<lambda>_.
     bindM (on_dut (set_clock M 0)) (\<lambda>_.
     bindM (cycle_second_half M) (\<lambda>_.
     bindM (trace_state_change M) (\<lambda>_.
     advance)))))))"

definition keep_running :: "('p, 'd) sim_methods \<Rightarrow> ('p, 'd) sim \<Rightarrow> bool" where
  "keep_running M s \<longleftrightarrow>
     \<not> (got_finish (host (sim_memory s)) \<or> dut_finish M (sim_dut s)) \<and> half_cycles s < 2 * unat (timeout s)"

text \<open>The loop itself: nothing but its condition and the failures of a cycle end it.\<close>

partial_function (option) run_loop :: "('p, 'd) sim_methods \<Rightarrow> (('p, 'd) sim, unit) loop" where
  "run_loop M s =
     (if keep_running M s then
        (case run_cycle M s of (r, s') \<Rightarrow>
           (case r of Inl e \<Rightarrow> Some (Inl e, s') | Inr _ \<Rightarrow> run_loop M s'))
      else Some (Inr (), s))"

definition run_reset :: "('p, 'd) sim_methods \<Rightarrow> (('p, 'd) sim, unit) prog" where
  "run_reset M =
     bindM (modify (\<lambda>s. s\<lparr>sim_pc := 0\<rparr>)) (\<lambda>_.
     bindM trace_init (\<lambda>_.
     bindM (on_dut (sim_init M)) (\<lambda>_.
     sim_reset M)))"

definition run_start :: "('p, 'd) sim_methods \<Rightarrow> (('p, 'd) sim, unit) prog" where
  "run_start M = bindM (run_reset M) (\<lambda>_. cycle_second_half M)"

definition run_end :: "('p, 'd) sim_methods \<Rightarrow> (('p, 'd) sim, unit) prog" where
  "run_end M =
     bindM (end_simulation M) (\<lambda>_.
     bindM trace_close (\<lambda>_.
     bindM (gets (\<lambda>s. half_cycles s \<ge> 2 * unat (timeout s))) (\<lambda>timed_out.
     if timed_out then
       bindM (modify (\<lambda>s. muntjac_error (''Simulation timed out after '' @ decimal (unat (timeout s)) @ '' cycles'') s)) (\<lambda>_.
       fail (Exit 1))
     else ret ())))"

definition run :: "('p, 'd) sim_methods \<Rightarrow> (('p, 'd) sim, unit) loop" where
  "run M =
     bind_loop (ending (run_start M)) (\<lambda>_.
     bind_loop (run_loop M) (\<lambda>_.
     ending (run_end M)))"

section \<open>Command line\<close>

definition print_to_stdout :: "string \<Rightarrow> (('p, 'd) sim, unit) prog" where
  "print_to_stdout t = modify (\<lambda>s. s\<lparr>std_output := std_output s @ t\<rparr>)"

definition arg_value :: "string \<Rightarrow> (('p, 'd) sim, string) prog" where
  "arg_value name = bindM (gets (\<lambda>s. get_arg name (sim_args s))) of_sum"

definition when_arg :: "string \<Rightarrow> (('p, 'd) sim, unit) prog \<Rightarrow> (('p, 'd) sim, unit) prog" where
  "when_arg name m = bindM (gets (\<lambda>s. found_arg name (sim_args s))) (\<lambda>found. if found then m else ret ())"

text \<open>Code between \<open>#ifdef\<close> and \<open>#endif\<close>.\<close>

definition when_build :: "(build \<Rightarrow> bool) \<Rightarrow> (('p, 'd) sim, unit) prog \<Rightarrow> (('p, 'd) sim, unit) prog" where
  "when_build b m = bindM (gets (\<lambda>s. b (sim_build s))) (\<lambda>defined. if defined then m else ret ())"

definition Simulation_parse_args :: "string list \<Rightarrow> (('p, 'd) sim, unit) prog" where
  "Simulation_parse_args argv =
     bindM (zoom sim_args (\<lambda>a s. s\<lparr>sim_args := a\<rparr>) (parse_args argv)) (\<lambda>_.
     bindM (when_arg ''--timeout'' (bindM (arg_value ''--timeout'') (\<lambda>v. bindM (of_sum (stoi v)) (\<lambda>t.
       modify (\<lambda>s. s\<lparr>timeout := word_of_int t\<rparr>))))) (\<lambda>_.
     bindM (when_arg ''--coverage'' (bindM (arg_value ''--coverage'') (\<lambda>v.
       modify (\<lambda>s. s\<lparr>coverage_on := True, coverage_file := v\<rparr>)))) (\<lambda>_.
     bindM (when_build FST_ENABLE (when_arg ''--fst'' (bindM (arg_value ''--fst'') (\<lambda>v.
       modify (\<lambda>s. s\<lparr>fst_wave := (fst_wave s)\<lparr>wave_filename := v, wave_on := True\<rparr>\<rparr>))))) (\<lambda>_.
     bindM (when_build VCD_ENABLE (when_arg ''--vcd'' (bindM (arg_value ''--vcd'') (\<lambda>v.
       modify (\<lambda>s. s\<lparr>vcd_wave := (vcd_wave s)\<lparr>wave_filename := v, wave_on := True\<rparr>\<rparr>))))) (\<lambda>_.
     bindM (when_arg ''-v'' (modify (\<lambda>s. s\<lparr>log_level := 1\<rparr>))) (\<lambda>_.
     bindM (when_arg ''-vv'' (modify (\<lambda>s. s\<lparr>log_level := 2\<rparr>))) (\<lambda>_.
     when_arg ''--help'' (bindM (gets (\<lambda>s. print_help (sim_args s))) (\<lambda>t.
       bindM (print_to_stdout t) (\<lambda>_. fail (Exit 0)))))))))))"

definition read_binary ::
  "elf_h \<Rightarrow> (nat \<Rightarrow> u8) \<Rightarrow> (string \<rightharpoonup> u8 list) \<Rightarrow> string list \<Rightarrow> (('p, 'd) sim, unit) prog" where
  "read_binary E junk fs argv =
     bindM (on_sim_memory (load_elf E junk fs argv)) (\<lambda>_.
     bindM (of_sum (entry_point E junk fs (argv ! 0))) (\<lambda>entry.
     bindM (modify (\<lambda>s. s\<lparr>sim_entry_point := entry\<rparr>)) (\<lambda>_.
     bindM (of_sum (symbol_location E junk fs (argv ! 0) ''tohost'')) (\<lambda>t.
     bindM (on_sim_memory (modify (\<lambda>m. m\<lparr>host := (host m)\<lparr>tohost := t\<rparr>\<rparr>))) (\<lambda>_.
     bindM (of_sum (symbol_location E junk fs (argv ! 0) ''fromhost'')) (\<lambda>f.
     on_sim_memory (modify (\<lambda>m. m\<lparr>host := (host m)\<lparr>fromhost := f\<rparr>\<rparr>))))))))"

text \<open>
  \<open>binary_position\<close> is set only when a word is left over; without one, the offset into
  \<open>argv\<close> is an uninitialised variable.
\<close>

definition sim_parse_args ::
  "elf_h \<Rightarrow> (nat \<Rightarrow> u8) \<Rightarrow> (string \<rightharpoonup> u8 list) \<Rightarrow> string list \<Rightarrow> (('p, 'd) sim, unit) prog" where
  "sim_parse_args E junk fs argv =
     (if argv = [] then
        bindM (gets (\<lambda>s. print_help (sim_args s))) (\<lambda>t.
        bindM (print_to_stdout t) (\<lambda>_. fail (Exit 0)))
      else
        bindM (Simulation_parse_args argv) (\<lambda>_.
        bindM (gets (\<lambda>s. get_args_parsed (sim_args s))) (\<lambda>pos.
        bindM
          (if pos < length argv then
             let name = argv ! pos in
             if name \<noteq> [] \<and> hd name = CHR ''-''
             then fail (Throw (InvalidArgumentException name (int pos)))
             else modify (\<lambda>s. s\<lparr>binary_position := Some pos\<rparr>)
           else ret ()) (\<lambda>_.
        bindM (when_arg ''--memory-latency'' (bindM (arg_value ''--memory-latency'') (\<lambda>v.
          bindM (of_sum (stoi v)) (\<lambda>l. modify (\<lambda>s. s\<lparr>main_memory_latency := l\<rparr>))))) (\<lambda>_.
        bindM (when_arg ''--csv'' (bindM (arg_value ''--csv'') (\<lambda>v.
          modify (\<lambda>s. s\<lparr>csv_filename := v, csv_on := True\<rparr>)))) (\<lambda>_.
        bindM (gets binary_position) (\<lambda>bp.
        case bp of
          None \<Rightarrow> fail Undefined
        | Some p \<Rightarrow> read_binary E junk fs (drop p argv))))))))"

section \<open>Frames\<close>

text \<open>What most of a simulation leaves alone: the clock, the waveforms and the ports.\<close>

definition clock_of :: "('p, 'd) sim \<Rightarrow> nat \<times> u64" where
  "clock_of s = (half_cycles s, timeout s)"

definition waves_of :: "('p, 'd) sim \<Rightarrow> build \<times> waveform \<times> waveform" where
  "waves_of s = (sim_build s, vcd_wave s, fst_wave s)"

definition schedule_of :: "('p, 'd) sim \<Rightarrow> 'p \<times> nat" where
  "schedule_of s = (sim_ports s, half_cycles s)"

lemmas view_defs = clock_of_def waves_of_def schedule_of_def

lemma keeps_on_dut [keeps_intros]: "(\<And>s d. f (s\<lparr>sim_dut := d\<rparr>) = f s) \<Longrightarrow> keeps f (on_dut g)"
  by (simp add: keeps_def prog_simps)

lemma keeps_on_sim_memory [keeps_intros]:
  "(\<And>s m. f (s\<lparr>sim_memory := m\<rparr>) = f s) \<Longrightarrow> keeps f (on_sim_memory p)"
  by (simp add: keeps_def prog_simps split: prod.split)

lemma keeps_traces [keeps_intros]:
  "keeps clock_of trace_init" "keeps clock_of (trace_state_change M)" "keeps clock_of trace_close"
  "keeps schedule_of trace_init" "keeps schedule_of (trace_state_change M)"
  by (simp_all add: keeps_def view_defs prog_simps trace_init_def trace_state_change_def trace_close_def
      Simulation_trace_init_def Simulation_trace_state_change_def Simulation_trace_close_def on_waves_def
      muntjac_log_def Let_def)

lemma keeps_arg_value [keeps_intros]: "keeps f (arg_value name)"
  unfolding arg_value_def by (intro keeps_intros)

lemma keeps_when [keeps_intros]:
  "keeps f m \<Longrightarrow> keeps f (when_arg name m)" "keeps f m \<Longrightarrow> keeps f (when_build b m)"
  unfolding when_arg_def when_build_def by (intro keeps_intros; assumption)+

lemma keeps_sim_reset [keeps_intros]:
  assumes "\<And>s d. f (s\<lparr>sim_dut := d\<rparr>) = f s" "\<And>s m. f (s\<lparr>sim_memory := m\<rparr>) = f s"
  shows "keeps f (sim_reset M)"
proof -
  have "keeps f (reset_loop M n)" for n
    by (induction n) (simp_all, (intro keeps_intros assms | assumption)+)
  then show ?thesis
    unfolding sim_reset_def Simulation_reset_def set_entry_point_def by (intro keeps_intros assms)
qed

lemma keeps_sim_parse_args: "keeps schedule_of (sim_parse_args E junk fs argv)"
  unfolding sim_parse_args_def Simulation_parse_args_def read_binary_def print_to_stdout_def Let_def
  by (intro keeps_intros) (auto simp: schedule_of_def split: option.split intro!: keeps_intros)

section \<open>Waveforms\<close>

text \<open>Appending calls to the waveform files that are in use; the calls may name the file.\<close>

fun waves_append :: "(string \<Rightarrow> wave_event list) \<Rightarrow> build \<times> waveform \<times> waveform \<Rightarrow> build \<times> waveform \<times> waveform" where
  "waves_append f (b, v, w) =
     (b, if VCD_ENABLE b \<and> wave_on v then v\<lparr>wave_events := wave_events v @ f (wave_filename v)\<rparr> else v,
      if FST_ENABLE b \<and> wave_on w then w\<lparr>wave_events := wave_events w @ f (wave_filename w)\<rparr> else w)"

lemma waves_append_append [simp]: "waves_append f (waves_append g x) = waves_append (\<lambda>n. g n @ f n) x"
  by (cases x) simp

lemma waves_append_nothing [simp]: "waves_append (\<lambda>n. []) x = x"
  by (cases x) simp

definition dumps :: "nat \<Rightarrow> nat \<Rightarrow> wave_event list" where
  "dumps a b = map (\<lambda>i. Dumped (of_nat (5 * i))) [a..<b]"

lemma dumps_append [simp]: "a \<le> b \<Longrightarrow> b \<le> c \<Longrightarrow> dumps a b @ dumps b c = dumps a c"
  using upt_add_eq_append [of a b "c - b"] by (simp add: dumps_def flip: map_append)

lemma dumps_simps [simp]: "dumps a a = []" "dumps a (Suc a) = [Dumped (of_nat (5 * a))]"
  by (simp_all add: dumps_def)

lemmas trace_defs = trace_init_def trace_state_change_def trace_close_def Simulation_trace_init_def
  Simulation_trace_state_change_def Simulation_trace_close_def on_waves_def wave_init_def wave_dump_def
  wave_close_def muntjac_log_def

lemma trace_init_waves:
  "waves_of (snd (trace_init s)) = waves_append (\<lambda>n. [Attached 100, Opened n]) (waves_of s)"
  by (simp add: trace_defs waves_of_def prog_simps)

lemma trace_state_change_waves:
  "waves_of (snd (trace_state_change M s)) =
     waves_append (\<lambda>n. [Dumped (of_nat (to_double (5 * half_cycles s)))]) (waves_of s)"
  by (simp add: trace_defs waves_of_def prog_simps Let_def)

lemma trace_close_waves:
  "waves_of (snd (trace_close s)) = waves_append (\<lambda>n. [Flushed, Closed]) (waves_of s)"
  by (simp add: trace_defs waves_of_def prog_simps)

text \<open>
  Programs that dump the waveforms once per half cycle they simulate, also when they fail, while
  the times are exact; \<open>v\<close> finds the simulation in the state.
\<close>

definition logged :: "('p, 'd) sim \<Rightarrow> ('p, 'd) sim \<Rightarrow> bool" where
  "logged s s' \<longleftrightarrow> timeout s' = timeout s \<and>
     (half_cycles s' \<le> 2 ^ 50 \<longrightarrow> half_cycles s \<le> half_cycles s' \<and>
        waves_of s' = waves_append (\<lambda>_. dumps (half_cycles s) (half_cycles s')) (waves_of s))"

definition logs :: "('s \<Rightarrow> ('p, 'd) sim) \<Rightarrow> ('s, 'a) prog \<Rightarrow> bool" where
  "logs v m \<longleftrightarrow> (\<forall>s. logged (v s) (v (snd (m s))))"

named_theorems logs_intros \<open>programs that dump the waveforms in step with the clock\<close>

lemma logged_trans: "logged s t \<Longrightarrow> logged t u \<Longrightarrow> logged s u"
  by (auto simp: logged_def)

lemma logsD: "logs v m \<Longrightarrow> m s = (r, s') \<Longrightarrow> logged (v s) (v s')"
  unfolding logs_def by (metis snd_conv)

lemma logs_keeps: "keeps (\<lambda>s. clock_of (v s)) m \<Longrightarrow> keeps (\<lambda>s. waves_of (v s)) m \<Longrightarrow> logs v m"
  by (simp add: logs_def logged_def keeps_def clock_of_def)

lemma logs_bindM [logs_intros]: "logs v m \<Longrightarrow> (\<And>x. logs v (k x)) \<Longrightarrow> logs v (bindM m k)"
  unfolding logs_def by (auto simp: bindM_apply split: prod.splits sum.splits) (metis logged_trans snd_conv)+

lemma logs_basic [logs_intros]: "logs v (ret x)" "logs v (fail e)" "logs v (gets f)" "logs v (assertM b)"
  by (simp_all add: logs_def logged_def prog_simps)

lemma logs_if [logs_intros]: "(b \<Longrightarrow> logs v m) \<Longrightarrow> (\<not> b \<Longrightarrow> logs v n) \<Longrightarrow> logs v (if b then m else n)"
  by simp

lemma to_double_exact [simp]: "n \<le> 2 ^ 50 \<Longrightarrow> to_double (5 * n) = 5 * n"
  by (simp add: to_double_def)

lemma logs_tick [logs_intros]: "logs (\<lambda>s. s) (bindM (trace_state_change M) (\<lambda>_. advance))"
  unfolding logs_def
proof
  fix s
  obtain s1 where s1: "trace_state_change M s = (Inr (), s1)"
    by (auto simp: trace_state_change_def Simulation_trace_state_change_def prog_simps)
  have "clock_of s1 = clock_of s" using keepsD [OF keeps_traces(2) s1] .
  then show "logged s (snd (bindM (trace_state_change M) (\<lambda>_. advance) s))"
    using trace_state_change_waves [of M s]
    by (simp add: bindM_eval [where m = "trace_state_change M", OF s1] s1 logged_def advance_def modify_apply clock_of_def waves_of_def)
qed

text \<open>What the clock loop relies on of a harness: its half cycles leave the clock and the waveforms alone.\<close>

locale clocked =
  fixes M :: "('p, 'd) sim_methods"
  assumes halves_untimed: "keeps clock_of (cycle_first_half M)" "keeps clock_of (cycle_second_half M)"
    and halves_unlogged: "keeps waves_of (cycle_first_half M)" "keeps waves_of (cycle_second_half M)"
begin

definition first_part :: "(('p, 'd) sim, unit) prog" where
  "first_part = bindM (on_dut (set_clock M 1)) (\<lambda>_. cycle_first_half M)"

definition second_part :: "(('p, 'd) sim, unit) prog" where
  "second_part = bindM (on_dut (set_clock M 0)) (\<lambda>_. cycle_second_half M)"

lemma parts_untimed: "keeps clock_of first_part" "keeps clock_of second_part"
  unfolding first_part_def second_part_def by (intro keeps_intros halves_untimed; simp add: clock_of_def)+

lemma parts_unlogged: "keeps waves_of first_part" "keeps waves_of second_part"
  unfolding first_part_def second_part_def by (intro keeps_intros halves_unlogged; simp add: waves_of_def)+

lemma run_cycle_parts:
  "run_cycle M =
     bindM first_part (\<lambda>_. bindM (bindM (trace_state_change M) (\<lambda>_. advance)) (\<lambda>_.
     bindM second_part (\<lambda>_. bindM (trace_state_change M) (\<lambda>_. advance))))"
  by (simp add: run_cycle_def first_part_def second_part_def bindM_assoc)

lemma run_cycle_logs [logs_intros]: "logs (\<lambda>s. s) (run_cycle M)"
  unfolding run_cycle_parts by (intro logs_intros logs_keeps parts_untimed parts_unlogged)

lemma tick_Inr:
  "\<exists>s'. bindM (trace_state_change M) (\<lambda>_. advance) s = (Inr (), s') \<and>
     half_cycles s' = min (Suc (half_cycles s)) (2 ^ 53) \<and> timeout s' = timeout s"
  by (simp add: trace_defs advance_def prog_simps Let_def)

lemma run_cycle_steps:
  assumes "run_cycle M s = (r, s')" "half_cycles s + 2 \<le> 2 ^ 53"
  shows "timeout s' = timeout s \<and>
    (case r of Inl _ \<Rightarrow> half_cycles s' \<le> half_cycles s + 1 | Inr _ \<Rightarrow> half_cycles s' = half_cycles s + 2)"
proof -
  obtain r1 s1 where s1: "first_part s = (r1, s1)" by fastforce
  obtain s2 where s2: "bindM (trace_state_change M) (\<lambda>_. advance) s1 = (Inr (), s2)"
    "half_cycles s2 = min (Suc (half_cycles s1)) (2 ^ 53)" "timeout s2 = timeout s1" using tick_Inr by blast
  obtain r3 s3 where s3: "second_part s2 = (r3, s3)" by fastforce
  obtain s4 where s4: "bindM (trace_state_change M) (\<lambda>_. advance) s3 = (Inr (), s4)"
    "half_cycles s4 = min (Suc (half_cycles s3)) (2 ^ 53)" "timeout s4 = timeout s3" using tick_Inr by blast
  have "run_cycle M s = (case r1 of Inl e \<Rightarrow> (Inl e, s1) | Inr _ \<Rightarrow>
      case r3 of Inl e \<Rightarrow> (Inl e, s3) | Inr _ \<Rightarrow> (Inr (), s4))"
    unfolding run_cycle_parts bindM_apply [of first_part] bindM_apply [of second_part] s1
    by (simp only: bindM_eval [where m = "bindM (trace_state_change M) (\<lambda>_. advance)", OF s2(1)]
        bindM_apply [of second_part] s3 s4(1) prod.case split: sum.split)
  with assms keepsD [OF parts_untimed(1) s1] keepsD [OF parts_untimed(2) s3] s2(2,3) s4(2,3)
  show ?thesis by (auto simp: clock_of_def split: sum.splits)
qed

text \<open>The loop ends: each cycle that returns takes the clock closer to the timeout.\<close>

lemma run_loop_outcome:
  assumes "even (half_cycles s)" "half_cycles s \<le> 2 * unat (timeout s)" "unat (timeout s) \<le> 2 ^ 52"
  shows "\<exists>r s'. run_loop M s = Some (r, s') \<and> logged s s' \<and> half_cycles s' \<le> 2 * unat (timeout s) \<and>
    (case r of Inl _ \<Rightarrow> half_cycles s' < 2 * unat (timeout s) | Inr _ \<Rightarrow> \<not> keep_running M s')"
  using assms
proof (induction "2 * unat (timeout s) - half_cycles s" arbitrary: s rule: less_induct)
  case less
  show ?case
  proof (cases "keep_running M s")
    case False
    then show ?thesis
      using less.prems by (intro exI [of _ "Inr ()"] exI [of _ s]) (simp add: run_loop.simps [of M s] logged_def)
  next
    case True
    obtain r1 s1 where s1: "run_cycle M s = (r1, s1)" by fastforce
    have lt: "half_cycles s + 2 \<le> 2 * unat (timeout s)"
      using True less.prems(1) by (auto simp: keep_running_def elim!: evenE)
    then have t: "timeout s1 = timeout s \<and>
      (case r1 of Inl _ \<Rightarrow> half_cycles s1 \<le> half_cycles s + 1 | Inr _ \<Rightarrow> half_cycles s1 = half_cycles s + 2)"
      using run_cycle_steps [OF s1] less.prems(3) by simp
    have l: "logged s s1" using logsD [OF run_cycle_logs s1] .
    show ?thesis
    proof (cases r1)
      case (Inl e)
      then have "run_loop M s = Some (Inl e, s1)" using True s1 by (simp add: run_loop.simps [of M s])
      then show ?thesis using t l lt Inl by (intro exI [of _ "Inl e"] exI [of _ s1]) simp
    next
      case (Inr u)
      then have "run_loop M s = run_loop M s1" using True s1 by (simp add: run_loop.simps [of M s])
      moreover have "\<exists>r s'. run_loop M s1 = Some (r, s') \<and> logged s1 s' \<and> half_cycles s' \<le> 2 * unat (timeout s1) \<and>
          (case r of Inl _ \<Rightarrow> half_cycles s' < 2 * unat (timeout s1) | Inr _ \<Rightarrow> \<not> keep_running M s')"
        by (rule less.hyps) (use t Inr lt less.prems in auto)
      ultimately show ?thesis using t logged_trans [OF l] by metis
    qed
  qed
qed

lemma run_start_clock: "keeps clock_of (run_start M)"
  unfolding run_start_def run_reset_def by (intro keeps_intros halves_untimed) (simp_all add: clock_of_def)

lemma run_start_waves:
  assumes "run_start M s = (r, s')"
  shows "waves_of s' = waves_append (\<lambda>n. [Attached 100, Opened n]) (waves_of s)"
proof -
  let ?k = "bindM (on_dut (sim_init M)) (\<lambda>_. bindM (sim_reset M) (\<lambda>_. cycle_second_half M))"
  obtain s1 where s1: "trace_init (s\<lparr>sim_pc := 0\<rparr>) = (Inr (), s1)"
    by (auto simp: trace_init_def Simulation_trace_init_def prog_simps)
  have "keeps waves_of ?k" by (intro keeps_intros halves_unlogged) (simp_all add: waves_of_def)
  moreover have "?k s1 = (r, s')"
    using assms s1 by (simp add: run_start_def run_reset_def bindM_assoc bindM_apply [of "modify f" for f]
        bindM_apply [of trace_init] modify_apply)
  ultimately have "waves_of s' = waves_of s1" by (rule keepsD)
  then show ?thesis using trace_init_waves [of "s\<lparr>sim_pc := 0\<rparr>"] s1 by (simp add: waves_of_def)
qed

lemma run_end_eq:
  "\<exists>s'. run_end M s = (if half_cycles s \<ge> 2 * unat (timeout s) then Inl (Exit 1) else Inr (), s') \<and>
     clock_of s' = clock_of s \<and> sim_memory s' = sim_memory s \<and> sim_dut s' = dut_final M (sim_dut s) \<and>
     waves_of s' = waves_append (\<lambda>n. [Flushed, Closed]) (waves_of s)"
  by (simp add: run_end_def end_simulation_def trace_defs prog_simps muntjac_error_def view_defs)

text \<open>
  A run ends in one of three ways: at the start, in the loop, or after the traces were closed.
\<close>

lemma run_cases:
  assumes "half_cycles s = 0" "unat (timeout s) \<le> 2 ^ 52"
  obtains (start) e s' where "run M s = Some (Inl e, s')" "run_start M s = (Inl e, s')"
  | (loop) e s1 s' where "run M s = Some (Inl e, s')" "run_start M s = (Inr (), s1)" "logged s1 s'"
      "half_cycles s' < 2 * unat (timeout s)"
  | (finish) s1 s2 s' where "run_start M s = (Inr (), s1)" "logged s1 s2"
      "half_cycles s2 \<le> 2 * unat (timeout s)" "\<not> keep_running M s2"
      "run M s = Some (if half_cycles s2 \<ge> 2 * unat (timeout s) then Inl (Exit 1) else Inr (), s')"
      "clock_of s' = clock_of s2" "sim_memory s' = sim_memory s2" "sim_dut s' = dut_final M (sim_dut s2)"
      "waves_of s' = waves_append (\<lambda>n. [Flushed, Closed]) (waves_of s2)"
proof -
  obtain r1 s1 where s1: "run_start M s = (r1, s1)" by fastforce
  show thesis
  proof (cases r1)
    case (Inl e)
    then show thesis using s1 by (intro start [of e s1]) (simp_all add: run_def prog_simps)
  next
    case r1: (Inr u)
    have c: "half_cycles s1 = 0" "timeout s1 = timeout s"
      using keepsD [OF run_start_clock s1] assms(1) by (simp_all add: clock_of_def)
    obtain r2 s2 where
      s2: "run_loop M s1 = Some (r2, s2)" "logged s1 s2" "half_cycles s2 \<le> 2 * unat (timeout s)"
        "case r2 of Inl _ \<Rightarrow> half_cycles s2 < 2 * unat (timeout s) | Inr _ \<Rightarrow> \<not> keep_running M s2"
      using run_loop_outcome [of s1] c(1) assms(2) unfolding c(2) by (metis bot_nat_0.extremum even_zero)
    show thesis
    proof (cases r2)
      case (Inl e)
      then show thesis using s1 r1 s2 by (intro loop [of e s2 s1]) (simp_all add: run_def prog_simps)
    next
      case (Inr v)
      obtain s' where s': "run_end M s2 = (if half_cycles s2 \<ge> 2 * unat (timeout s2) then Inl (Exit 1) else Inr (), s')"
        "clock_of s' = clock_of s2" "sim_memory s' = sim_memory s2" "sim_dut s' = dut_final M (sim_dut s2)"
        "waves_of s' = waves_append (\<lambda>n. [Flushed, Closed]) (waves_of s2)" using run_end_eq [of s2] by blast
      moreover have "timeout s2 = timeout s" using s2(2) c by (simp add: logged_def)
      ultimately show thesis
        using s1 r1 s2 Inr by (intro finish [of s1 s2 s']) (simp_all add: run_def bind_loop_apply ending_apply)
    qed
  qed
qed

lemma run_outcome:
  assumes "half_cycles s = 0" "unat (timeout s) \<le> 2 ^ 52"
  shows "\<exists>r s'. run M s = Some (r, s') \<and> timeout s' = timeout s \<and> half_cycles s' \<le> 2 * unat (timeout s) \<and>
    (r = Inr () \<longrightarrow> half_cycles s' < 2 * unat (timeout s) \<and>
       (got_finish (host (sim_memory s')) \<or> (\<exists>d. dut_finish M d \<and> sim_dut s' = dut_final M d))) \<and>
    (0 < timeout s \<and> half_cycles s' = 2 * unat (timeout s) \<longrightarrow> r = Inl (Exit 1))"
  using assms
proof (cases rule: run_cases)
  case (start e s')
  then show ?thesis
    using keepsD [OF run_start_clock start(2)] assms(1)
    by (intro exI [of _ "Inl e"] exI [of _ s']) (auto simp: clock_of_def word_gt_0 unat_eq_0)
next
  case (loop e s1 s')
  then show ?thesis
    using keepsD [OF run_start_clock loop(2)]
    by (intro exI [of _ "Inl e"] exI [of _ s']) (simp add: clock_of_def logged_def)
next
  case (finish s1 s2 s')
  have "timeout s2 = timeout s"
    using keepsD [OF run_start_clock finish(1)] finish(2) by (simp add: clock_of_def logged_def)
  with finish show ?thesis
    by (intro exI [of _ "if half_cycles s2 \<ge> 2 * unat (timeout s) then Inl (Exit 1) else Inr ()"] exI [of _ s'])
      (auto simp: clock_of_def keep_running_def)
qed

lemma run_waves:
  assumes "half_cycles s = 0" "0 < timeout s" "unat (timeout s) \<le> 2 ^ 49"
  shows "\<exists>r s'. run M s = Some (r, s') \<and> waves_of s' = waves_append (\<lambda>n.
      [Attached 100, Opened n] @ dumps 0 (half_cycles s') @
      (if r = Inr () \<or> half_cycles s' = 2 * unat (timeout s) then [Flushed, Closed] else [])) (waves_of s)"
proof -
  have "unat (timeout s) \<le> 2 ^ 52" using assms(3) by simp
  with assms(1) show ?thesis
  proof (cases rule: run_cases)
    case (start e s')
    moreover have "half_cycles s' = 0" using keepsD [OF run_start_clock start(2)] assms(1) by (simp add: clock_of_def)
    ultimately show ?thesis
      using run_start_waves [OF start(2)] assms(2)
      by (intro exI [of _ "Inl e"] exI [of _ s']) (simp add: word_gt_0 unat_eq_0)
  next
    case (loop e s1 s')
    then show ?thesis
      using keepsD [OF run_start_clock loop(2)] run_start_waves [OF loop(2)] assms
      by (intro exI [of _ "Inl e"] exI [of _ s']) (simp add: clock_of_def logged_def)
  next
    case (finish s1 s2 s')
    then show ?thesis
      using keepsD [OF run_start_clock finish(1)] run_start_waves [OF finish(1)] assms
      by (intro exI [of _ "if half_cycles s2 \<ge> 2 * unat (timeout s) then Inl (Exit 1) else Inr ()"] exI [of _ s'])
        (auto simp: clock_of_def logged_def)
  qed
qed

end

section \<open>System calls and boot code\<close>

lemma sim_plain_write:
  "plain_write sim_sys_calls m a d \<longleftrightarrow> a \<noteq> tohost (host m) \<and> a \<noteq> fromhost (host m)"
  by (simp add: plain_write_def sim_sys_calls_def is_system_call_def)

lemma reset_loop_eq: "\<exists>d. reset_loop M n s = (Inr (), s\<lparr>sim_dut := d\<rparr>)"
proof (induction n arbitrary: s)
  case 0
  then show ?case by (intro exI [of _ "sim_dut s"]) (simp add: ret_apply)
next
  case (Suc n)
  then show ?case
    using Suc [of "s\<lparr>sim_dut := dut_eval M (set_clock M 0 (dut_eval M (set_clock M 1 (sim_dut s))))\<rparr>"]
    by (auto simp: prog_simps)
qed

lemma Simulation_reset_eq: "\<exists>d. Simulation_reset M s = (Inr (), s\<lparr>sim_dut := d\<rparr>)"
proof -
  obtain d where "reset_loop M 10 (s\<lparr>sim_dut := set_reset M 1 (sim_dut s)\<rparr>) = (Inr (), s\<lparr>sim_dut := d\<rparr>)"
    using reset_loop_eq [of M 10 "s\<lparr>sim_dut := set_reset M 1 (sim_dut s)\<rparr>"] by auto
  then show ?thesis by (intro exI [of _ "set_reset M 0 d"]) (simp add: Simulation_reset_def prog_simps)
qed

lemma write64_sim:
  assumes "a \<noteq> tohost (host m)" "a \<noteq> fromhost (host m)" "access_ok 8 a"
  shows "\<exists>m'. write64 sim_sys_calls a d m = (Inr (), m') \<and> host m' = host m \<and>
    byte_at m' = poke (byte_at m) a (le_bytes 8 d)"
  using assms by (auto simp: write64_def write_value_eq sim_plain_write byte_at_put_span)

text \<open>
  Reset always returns, whatever the design does, and leaves the two boot words and the entry
  point at addresses 0 to 23, whatever was loaded there before; no other byte changes.
\<close>

lemma sim_reset_boot:
  assumes "\<forall>a \<in> {0, 8, 16}. a \<noteq> tohost (host (sim_memory s)) \<and> a \<noteq> fromhost (host (sim_memory s))"
  shows "\<exists>s'. sim_reset M s = (Inr (), s') \<and> host (sim_memory s') = host (sim_memory s) \<and>
    byte_at (sim_memory s') = poke (byte_at (sim_memory s)) 0
      (le_bytes 8 (0x0105350300000517 :: u64) @ le_bytes 8 (0x8502 :: u64) @ le_bytes 8 (sim_entry_point s))"
proof -
  let ?m = "sim_memory s"
  have ok: "access_ok 8 0" "access_ok 8 8" "access_ok 8 16"
    by (simp_all add: access_ok_8_iff)
  have plain: "0 \<noteq> tohost (host ?m)" "0 \<noteq> fromhost (host ?m)" "8 \<noteq> tohost (host ?m)" "8 \<noteq> fromhost (host ?m)"
    "16 \<noteq> tohost (host ?m)" "16 \<noteq> fromhost (host ?m)"
    using assms by blast+
  obtain d where d: "Simulation_reset M s = (Inr (), s\<lparr>sim_dut := d\<rparr>)" using Simulation_reset_eq [of M s] by blast
  from write64_sim [where d = "0x0105350300000517", OF plain(1,2) ok(1)] obtain m1 where
    m1: "write64 sim_sys_calls 0 0x0105350300000517 ?m = (Inr (), m1)" "host m1 = host ?m"
      "byte_at m1 = poke (byte_at ?m) 0 (le_bytes 8 (0x0105350300000517 :: u64))" by blast
  from write64_sim [where d = "0x8502", OF plain(3,4) [folded m1(2)] ok(2)] obtain m2 where
    m2: "write64 sim_sys_calls 8 0x8502 m1 = (Inr (), m2)" "host m2 = host m1"
      "byte_at m2 = poke (byte_at m1) 8 (le_bytes 8 (0x8502 :: u64))" by blast
  from write64_sim [where d = "sim_entry_point s", OF plain(5,6) [folded m1(2), folded m2(2)] ok(3)] obtain m3 where
    m3: "write64 sim_sys_calls 16 (sim_entry_point s) m2 = (Inr (), m3)" "host m3 = host m2"
      "byte_at m3 = poke (byte_at m2) 16 (le_bytes 8 (sim_entry_point s))" by blast
  have "sim_reset M s = (Inr (), s\<lparr>sim_dut := d, sim_memory := m3\<rparr>)"
    using d m1(1) m2(1) m3(1) by (simp add: sim_reset_def set_entry_point_def prog_simps)
  moreover have "byte_at m3 = poke (byte_at ?m) 0
      (le_bytes 8 (0x0105350300000517 :: u64) @ le_bytes 8 (0x8502 :: u64) @ le_bytes 8 (sim_entry_point s))"
    unfolding m3(3) m2(3) m1(3) by (simp flip: poke_append)
  ultimately show ?thesis using m1(2) m2(2) m3(2) by simp
qed

text \<open>
  A write of any width to \<open>tohost\<close> or \<open>fromhost\<close> never reaches memory: it prints the low byte
  if the upper seven bytes ask for it, and otherwise ends the simulation with the low
  32 bits as signed exit code. Every other write leaves the host interface as it was.
\<close>

lemma system_call_effect:
  fixes m :: "host_state main_memory" and d :: u64
  shows "write64 sim_sys_calls a d m =
     (if a = tohost (host m) \<or> a = fromhost (host m) then
        if d AND 0xffffffffffffff00 = 0x101000000000000
        then (Inr (), m\<lparr>host := (host m)\<lparr>char_output := char_output (host m) @ [ucast (d AND 0xff)]\<rparr>\<rparr>)
        else (Inr (), m\<lparr>host := (host m)\<lparr>exit_code := sint (ucast d :: u32), got_finish := True\<rparr>\<rparr>)
      else if access_ok 8 a then (Inr (), put_span 8 a (le_bytes 8 d) m)
      else (Inl (limit_fault (a + 7)), m))"
proof (cases "a = tohost (host m) \<or> a = fromhost (host m)")
  case True
  then show ?thesis
    by (simp add: write64_def write_system_call sim_sys_calls_def is_system_call_def system_call_def)
next
  case False
  then show ?thesis by (simp add: write64_def write_value_eq sim_plain_write add.commute [of 7 a])
qed

text \<open>A simulation in which nothing happens, built and asked to write a VCD file.\<close>

definition vcd_build :: build where
  "vcd_build = \<lparr>VCD_ENABLE = True, FST_ENABLE = False\<rparr>"

definition vcd_on_wave :: waveform where
  "vcd_on_wave = \<lparr>wave_on = True, wave_filename = ''idle.vcd'', wave_events = []\<rparr>"

definition fst_off_wave :: waveform where
  "fst_off_wave = \<lparr>wave_on = False, wave_filename = [], wave_events = []\<rparr>"

definition idle_sim :: "(unit, unit) sim" where
  "idle_sim =
     \<lparr>sim_build = vcd_build, sim_name = ''idle'', sim_dut = (), sim_ports = (),
      sim_memory = new_main_memory (\<lambda>_ _. 0)
        \<lparr>tohost = 0x80001000, fromhost = 0x80001040, exit_code = 0, got_finish = False, char_output = []\<rparr>,
      half_cycles = 0, timeout = 100, sim_args = simulation_args vcd_build ''idle'', coverage_on = False,
      coverage_file = [], coverage_written = [], vcd_wave = vcd_on_wave, fst_wave = fst_off_wave, trace_ever_on = False, log_level = 0, main_memory_latency = 10, csv_on = False, csv_filename = [],
      csv_trace = [], csv_is_open = False, sim_pc = 0, binary_position = None, sim_entry_point = 0x80000000, std_output = [], std_error = []\<rparr>"

definition idle_methods :: "(unit, unit) sim_methods" where
  "idle_methods =
     \<lparr>set_clock = \<lambda>_ d. d, set_reset = \<lambda>_ d. d, sim_init = \<lambda>d. d, cycle_first_half = ret (),
      cycle_second_half = ret (), get_program_counter = \<lambda>_. 0,
      get_trace_info = \<lambda>_. \<lparr>it_pc = 0, it_instr_word = 0, it_mode = 0, it_gpr_written = False, it_gpr = 0,
        it_gpr_data = 0, it_csr_written = False, it_csr = 0, it_csr_data = 0\<rparr>,
      dut_eval = \<lambda>d. d, dut_final = \<lambda>d. d, dut_finish = \<lambda>_. False\<rparr>"

section \<open>Properties\<close>

lemma hosted_sim: "hosted sim_sys_calls"
  by (simp add: hosted_def sim_sys_calls_def is_system_call_def system_call_def)

text \<open>
  C14: In a simulation, every well-formed request to the data port is answered, in bare mode and under
  Sv39, wherever \<open>tohost\<close> and \<open>fromhost\<close> are: exactly one response is queued. It carries an exception
  exactly when the request is misaligned, when the page tables have no leaf that permits it, or
  without translation when it is beyond the physical limit, except for a write that is a system call and for
  a store-conditional that is not attempted. With an exception, no byte of memory and no reservation
  has changed, and no system call was made.
\<close>

theorem dcache_faults_are_precise:
  fixes w :: "('d, host_state) dcache_world"
  assumes "wellformed_request w"
    and "atp_mode (dcache_req_atp (dut w)) = ATP_MODE_BARE \<or> atp_mode (dcache_req_atp (dut w)) = ATP_MODE_SV39"
  shows "\<exists>v c w'. dcache_get_request sim_sys_calls w = (Inr (), w') \<and>
    responses (port w') = responses (port w) @ [response_due (port w) v c] \<and>
    (c \<noteq> EXC_CAUSE_NONE \<longleftrightarrow> request_faults sim_sys_calls w) \<and>
    (c \<noteq> EXC_CAUSE_NONE \<longrightarrow> byte_at (memory w') = byte_at (memory w) \<and>
       reservation (port w') = reservation (port w) \<and> host (memory w') = host (memory w))"
  using hosted_sim assms by (rule dcache_request_precise)

text \<open>An eight-byte load and a misaligned store; both fault.\<close>

definition far_load :: "(unit, host_state) dcache_world" where
  "far_load = (dcache_example 1 0 0 (sim_memory idle_sim))
     \<lparr>dut := (dcache_example_dut 1 0 0)\<lparr>dcache_req_address := 0xFFFFFFFFFFFFFFF8\<rparr>\<rparr>"

definition odd_store :: "(unit, host_state) dcache_world" where
  "odd_store = (dcache_example 2 7 0x8000000000000001 (sim_memory idle_sim))
     \<lparr>dut := (dcache_example_dut 2 7 0x8000000000000001)\<lparr>dcache_req_address := 0x2001\<rparr>\<rparr>"

lemma fault_examples:
  "wellformed_request far_load" "atp_mode (dcache_req_atp (dut far_load)) = ATP_MODE_BARE"
  "request_faults sim_sys_calls far_load" "responses (port far_load) = []"
  "wellformed_request odd_store" "atp_mode (dcache_req_atp (dut odd_store)) = ATP_MODE_SV39"
  "request_faults sim_sys_calls odd_store" "responses (port odd_store) = []"
  by (simp_all add: far_load_def odd_store_def wellformed_request_def req_op_def req_ext_def mem_op_of_def size_ext_of_def
      data_operation_def valid_ext_def atp_mode_def atp_mode_of_def request_faults_def req_aligned_def req_size_def
      access_faults_def access_ok_def MAX_PHYSICAL_ADDRESS_def mask_numeral new_data_cache_port_def
      dcache_example_def dcache_example_dut_def)

theorem dcache_faults_are_precise_witness:
  "(\<exists>v c w'. dcache_get_request sim_sys_calls far_load = (Inr (), w') \<and> c \<noteq> EXC_CAUSE_NONE \<and>
     responses (port w') = [response_due (port far_load) v c] \<and> byte_at (memory w') = byte_at (memory far_load)) \<and>
   (\<exists>v c w'. dcache_get_request sim_sys_calls odd_store = (Inr (), w') \<and> c \<noteq> EXC_CAUSE_NONE \<and>
     responses (port w') = [response_due (port odd_store) v c] \<and> byte_at (memory w') = byte_at (memory odd_store))"
  using dcache_faults_are_precise [OF fault_examples(1) disjI1 [OF fault_examples(2)]]
    dcache_faults_are_precise [OF fault_examples(5) disjI2 [OF fault_examples(6)]] fault_examples(3,4,7,8)
  by auto

end
