(* ===== verification/Core_Ports.thy ===== *)
theory Core_Ports
  imports Memory_Port
begin

text \<open>
  The two memory ports of \<open>core_harness.cc\<close>. The core has its own caches, so these ports
  serve eight-byte words without translation: \<open>MainMemoryPort\<close> writes whole words only and
  \<open>IoMemoryPort\<close> the aligned parts of a word that the write mask selects.
\<close>

section \<open>Signals\<close>

text \<open>The signals of \<open>core_wrapper\<close> that the ports use, with the widths declared there.\<close>

record core_signals =
  mem_en_o :: bool
  mem_we_o :: bool
  mem_addr_o :: "53 word"
  mem_wmask_o :: u8
  mem_wdata_o :: u64
  mem_rdata_i :: u64
  io_en_o :: bool
  io_we_o :: bool
  io_addr_o :: "53 word"
  io_wmask_o :: u8
  io_wdata_o :: u64
  io_rdata_i :: u64

type_synonym ('d, 'h) core_world = "(u64 memory_port, 'd core_signals_scheme, 'h) port_world"

section \<open>Main memory port\<close>

definition new_main_memory_port :: "u64 \<Rightarrow> u64 memory_port" where
  "new_main_memory_port c = new_memory_port c 1"

definition mem_can_receive_request :: "('d, 'h) core_world \<Rightarrow> bool" where
  "mem_can_receive_request w = mem_en_o (dut w)"

definition mem_get_request :: "'h sys_calls \<Rightarrow> (('d, 'h) core_world, unit) prog" where
  "mem_get_request env =
     bindM (gets mem_can_receive_request) (\<lambda>ready.
     bindM (assertM ready) (\<lambda>_.
     bindM (gets dut) (\<lambda>d.
     let address = push_bit 3 (ucast (mem_addr_o d)) in
     bindM (on_memory (read64 address)) (\<lambda>data_read.
     bindM
       (if mem_we_o d then
          if mem_wmask_o d \<noteq> 0xFF then fail (Exit 1)
          else on_memory (write64 env address (mem_wdata_o d))
        else ret ()) (\<lambda>_.
     queue_response data_read EXC_CAUSE_NONE)))))"

definition mem_can_send_response :: "('d, 'h) core_world \<Rightarrow> bool" where
  "mem_can_send_response w = True"

definition mem_send_response ::
  "u64 MemoryResponse \<Rightarrow> (('d, 'h) core_world, u64 MemoryResponse) prog" where
  "mem_send_response response =
     bindM (modify (\<lambda>w. w\<lparr>dut := (dut w)\<lparr>mem_rdata_i := resp_data response\<rparr>\<rparr>)) (\<lambda>_.
     ret (response\<lparr>resp_all_sent := True\<rparr>))"

definition mem_clear_response :: "(('d, 'h) core_world, unit) prog" where
  "mem_clear_response = ret ()"

definition mem_methods :: "'h sys_calls \<Rightarrow> (('d, 'h) core_world, u64) port_methods" where
  "mem_methods env =
     \<lparr>can_receive_request = mem_can_receive_request,
      get_request = mem_get_request env,
      can_send_response = mem_can_send_response,
      send_response = mem_send_response,
      clear_response = mem_clear_response\<rparr>"

section \<open>IO memory port\<close>

definition new_io_memory_port :: "u64 \<Rightarrow> u64 memory_port" where
  "new_io_memory_port c = new_memory_port c 1"

definition io_can_receive_request :: "('d, 'h) core_world \<Rightarrow> bool" where
  "io_can_receive_request w = io_en_o (dut w)"

text \<open>
  The switch over the write mask. The two cases for four bytes convert their data to
  \<open>uint16_t\<close> before \<open>write32\<close> widens it again, as the code does.
\<close>

definition io_write ::
  "'h sys_calls \<Rightarrow> MemoryAddress \<Rightarrow> u8 \<Rightarrow> u64 \<Rightarrow> ('h main_memory, unit) prog" where
  "io_write env address wmask data_write =
     (if wmask = 0x01 then write8 env (address + 0) (ucast (drop_bit 0 data_write))
      else if wmask = 0x02 then write8 env (address + 1) (ucast (drop_bit 8 data_write))
      else if wmask = 0x04 then write8 env (address + 2) (ucast (drop_bit 16 data_write))
      else if wmask = 0x08 then write8 env (address + 3) (ucast (drop_bit 24 data_write))
      else if wmask = 0x10 then write8 env (address + 4) (ucast (drop_bit 32 data_write))
      else if wmask = 0x20 then write8 env (address + 5) (ucast (drop_bit 40 data_write))
      else if wmask = 0x40 then write8 env (address + 6) (ucast (drop_bit 48 data_write))
      else if wmask = 0x80 then write8 env (address + 7) (ucast (drop_bit 56 data_write))
      else if wmask = 0x03 then write16 env (address + 0) (ucast (drop_bit 0 data_write))
      else if wmask = 0x0C then write16 env (address + 2) (ucast (drop_bit 16 data_write))
      else if wmask = 0x30 then write16 env (address + 4) (ucast (drop_bit 32 data_write))
      else if wmask = 0xC0 then write16 env (address + 6) (ucast (drop_bit 48 data_write))
      else if wmask = 0x0F then write32 env (address + 0) (ucast (ucast (drop_bit 0 data_write) :: u16))
      else if wmask = 0xF0 then write32 env (address + 4) (ucast (ucast (drop_bit 32 data_write) :: u16))
      else if wmask = 0xFF then write64 env address data_write
      else fail (Exit 1))"

definition io_get_request :: "'h sys_calls \<Rightarrow> (('d, 'h) core_world, unit) prog" where
  "io_get_request env =
     bindM (gets io_can_receive_request) (\<lambda>ready.
     bindM (assertM ready) (\<lambda>_.
     bindM (gets dut) (\<lambda>d.
     let address = push_bit 3 (ucast (io_addr_o d)) in
     bindM (on_memory (read64 address)) (\<lambda>data_read.
     bindM
       (if io_we_o d then on_memory (io_write env address (io_wmask_o d) (io_wdata_o d))
        else ret ()) (\<lambda>_.
     queue_response data_read EXC_CAUSE_NONE)))))"

definition io_can_send_response :: "('d, 'h) core_world \<Rightarrow> bool" where
  "io_can_send_response w = True"

definition io_send_response ::
  "u64 MemoryResponse \<Rightarrow> (('d, 'h) core_world, u64 MemoryResponse) prog" where
  "io_send_response response =
     bindM (modify (\<lambda>w. w\<lparr>dut := (dut w)\<lparr>io_rdata_i := resp_data response\<rparr>\<rparr>)) (\<lambda>_.
     ret (response\<lparr>resp_all_sent := True\<rparr>))"

definition io_clear_response :: "(('d, 'h) core_world, unit) prog" where
  "io_clear_response = ret ()"

definition io_methods :: "'h sys_calls \<Rightarrow> (('d, 'h) core_world, u64) port_methods" where
  "io_methods env =
     \<lparr>can_receive_request = io_can_receive_request,
      get_request = io_get_request env,
      can_send_response = io_can_send_response,
      send_response = io_send_response,
      clear_response = io_clear_response\<rparr>"

section \<open>The ports meet the contract of the base class\<close>

lemma mem_get_request_answers:
  assumes "mem_get_request env w = (Inr (), w')"
  shows "answers (port w) (port w')"
  using assms
  by (auto simp: mem_get_request_def prog_simps Let_def split: if_splits prod.splits sum.splits)

interpretation mem: memory_port "mem_methods env" for env
proof
  fix w w'
  assume "get_request (mem_methods env) w = (Inr (), w')"
  then show "answers (port w) (port w')"
    by (intro mem_get_request_answers) (simp add: mem_methods_def)
qed (auto simp: mem_methods_def mem_can_send_response_def mem_send_response_def
    mem_clear_response_def prog_simps same_queue_def)

lemma io_get_request_answers:
  assumes "io_get_request env w = (Inr (), w')"
  shows "answers (port w) (port w')"
  using assms
  by (auto simp: io_get_request_def prog_simps Let_def split: if_splits prod.splits sum.splits)

interpretation io: memory_port "io_methods env" for env
proof
  fix w w'
  assume "get_request (io_methods env) w = (Inr (), w')"
  then show "answers (port w) (port w')"
    by (intro io_get_request_answers) (simp add: io_methods_def)
qed (auto simp: io_methods_def io_can_send_response_def io_send_response_def
    io_clear_response_def prog_simps same_queue_def)

section \<open>Word addresses\<close>

text \<open>Byte addresses of 53-bit word addresses are aligned and never beyond the physical limit.\<close>

definition word_address :: "53 word \<Rightarrow> MemoryAddress" where
  "word_address a = push_bit 3 (ucast a)"

lemma unat_word_address: "unat (word_address a) = 8 * unat a" and unat_word_less: "unat a < 2 ^ 53"
proof -
  show l: "unat a < 2 ^ 53" using unsigned_less [of a, where ?'a = nat] by simp
  have u: "unat (ucast a :: u64) = unat a"
    using l by (simp add: unsigned_ucast_eq take_bit_nat_eq_self)
  show "unat (word_address a) = 8 * unat a"
    using l u by (simp add: word_address_def push_bit_eq_mult unat_word_ariths mult.commute)
qed

lemma unat_word_address_plus:
  "i < 8 \<Longrightarrow> unat (word_address a + of_nat i) = 8 * unat a + i"
  using unat_word_less [of a]
  by (simp add: unat_word_ariths unat_word_address unat_of_nat_u64)

lemma access_ok_word_address:
  assumes "i + unat k \<le> 8" "0 < unat k"
  shows "access_ok k (word_address a + of_nat i)"
proof -
  have eq: "word_address a + of_nat i + k - 1 = word_address a + of_nat (i + unat k - 1)"
    using assms by (simp add: of_nat_diff algebra_simps)
  have u: "unat (word_address a + of_nat (i + unat k - 1) :: u64) = 8 * unat a + (i + unat k - 1)"
    using assms by (intro unat_word_address_plus) simp
  show ?thesis
    unfolding access_ok_def eq word_le_nat_alt u
    using assms unat_word_less [of a] by (simp add: MAX_PHYSICAL_ADDRESS_def)
qed

section \<open>Write masks\<close>

text \<open>The byte lanes of the word at \<open>a\<close> that a mask selects receive the bytes of the data.\<close>

definition lanes :: "(MemoryAddress \<Rightarrow> u8) \<Rightarrow> MemoryAddress \<Rightarrow> u8 \<Rightarrow> u64 \<Rightarrow> MemoryAddress \<Rightarrow> u8" where
  "lanes f a wmask d = (\<lambda>x. let i = unat (x - a) in
     if i < 8 \<and> bit wmask i then ucast (drop_bit (8 * i) d) else f x)"

lemma lane_offset:
  assumes "off < 8" "off + n \<le> 8"
  shows "(off \<le> unat (x - a) \<and> unat (x - a) < off + n) \<longleftrightarrow> unat (x - (a + of_nat off :: u64)) < n"
    and "off \<le> unat (x - a) \<Longrightarrow> unat (x - (a + of_nat off)) = unat (x - a) - off"
proof -
  have o: "unat (of_nat off :: u64) = off" using assms by (simp add: unat_of_nat_u64)
  have y: "unat (y - of_nat off) = (if off \<le> unat y then unat y - off else unat y + 2 ^ 64 - off)"
    for y :: u64 by (simp add: unat_sub_if' o)
  have e: "x - (a + of_nat off) = (x - a) - of_nat off" by simp
  show "(off \<le> unat (x - a) \<and> unat (x - a) < off + n) \<longleftrightarrow> unat (x - (a + of_nat off)) < n"
    unfolding e y using assms by auto
  show "unat (x - (a + of_nat off)) = unat (x - a) - off" if "off \<le> unat (x - a)"
    unfolding e y using that by simp
qed

lemma poke_lanes:
  fixes v :: "'a::len word"
  assumes "off + n \<le> 8" "0 < n" "\<And>i. i < 8 \<Longrightarrow> bit wmask i \<longleftrightarrow> off \<le> i \<and> i < off + n"
    and "\<And>i. i < n \<Longrightarrow> le_bytes n v ! i = ucast (drop_bit (8 * (off + i)) d)"
  shows "poke f (a + of_nat off) (le_bytes n v) = lanes f a wmask d"
proof
  fix x
  let ?i = "unat (x - a)"
  have off: "off < 8" using assms(1,2) by simp
  show "poke f (a + of_nat off) (le_bytes n v) x = lanes f a wmask d x"
  proof (cases "off \<le> ?i \<and> ?i < off + n")
    case True
    then have u: "unat (x - (a + of_nat off)) = ?i - off" and "?i - off < n"
      using lane_offset(2) [OF off assms(1), of x a] by auto
    then have "le_bytes n v ! (?i - off) = ucast (drop_bit (8 * ?i) d)"
      using assms(4) [of "?i - off"] True by simp
    then show ?thesis
      using True assms(1,3) u \<open>?i - off < n\<close> by (simp add: poke_def lanes_def Let_def)
  next
    case False
    then have "\<not> (?i < 8 \<and> bit wmask ?i)" using assms(3) by blast
    with False show ?thesis
      using lane_offset(1) [OF off assms(1), of x a] by (auto simp: poke_def lanes_def Let_def)
  qed
qed

text \<open>A store of \<open>k\<close> bytes at an offset of the word at \<open>a\<close>, over the flat memory.\<close>

lemma store_lanes:
  fixes v :: "'w::len word"
  assumes "off + unat k \<le> 8" "0 < unat k" "plain_write env m (word_address a + of_nat off) (ucast v)"
    and "\<And>i. i < 8 \<Longrightarrow> bit wmask i \<longleftrightarrow> off \<le> i \<and> i < off + unat k"
    and "\<And>i. i < unat k \<Longrightarrow> (ucast (drop_bit (8 * i) v) :: u8) = ucast (drop_bit (8 * (off + i)) d)"
  shows "\<exists>m'. write_value k env (word_address a + of_nat off) v m = (Inr (), m') \<and>
    byte_at m' = lanes (byte_at m) (word_address a) wmask d"
proof -
  have k: "unat k \<le> 1048576" using assms(1) by simp
  have "poke (byte_at m) (word_address a + of_nat off) (le_bytes (unat k) v) =
      lanes (byte_at m) (word_address a) wmask d"
    using assms(1,2,4,5) by (intro poke_lanes) (simp_all add: nth_le_bytes)
  then show ?thesis
    using write_value_eq [OF k assms(3)] access_ok_word_address [OF assms(1,2), of a]
    by (simp add: byte_at_put_span k)
qed

lemma store_lane8:
  assumes "off < 8" "plain_write env m (word_address a + of_nat off) (ucast (v :: u8))"
    and "\<And>i. i < 8 \<Longrightarrow> bit wmask i \<longleftrightarrow> i = off" "v = ucast (drop_bit (8 * off) d)"
  shows "\<exists>m'. write8 env (word_address a + of_nat off) v m = (Inr (), m') \<and>
    byte_at m' = lanes (byte_at m) (word_address a) wmask d"
proof -
  have "poke (byte_at m) (word_address a + of_nat off) (le_bytes 1 v) =
      lanes (byte_at m) (word_address a) wmask d"
    using assms by (intro poke_lanes) (auto simp: nth_le_bytes)
  moreover have "le_bytes 1 v = [v]" by (simp add: le_bytes_def)
  ultimately show ?thesis
    using write8_eq [OF assms(2)] access_ok_word_address [of off 1 a] assms(1)
    by (simp add: byte_at_put_span)
qed

lemma lane_data:
  assumes "8 * Suc i \<le> LENGTH('w)"
  shows "(ucast (drop_bit (8 * i) (ucast (drop_bit (8 * off) d) :: 'w::len word)) :: u8) =
    ucast (drop_bit (8 * (off + i)) (d :: u64))"
proof (rule bit_word_eqI)
  fix n
  assume "n < LENGTH(8)"
  moreover from this have "8 * i + n < LENGTH('w)" using assms by simp
  ultimately show "bit (ucast (drop_bit (8 * i) (ucast (drop_bit (8 * off) d) :: 'w word)) :: u8) n =
      bit (ucast (drop_bit (8 * (off + i)) d) :: u8) n"
    by (simp add: bit_simps algebra_simps)
qed

text \<open>The cases of the switch by offset: which access a mask stands for.\<close>

lemma io_write_cases:
  "off < 8 \<Longrightarrow> io_write env a (2 ^ off) d = write8 env (a + of_nat off) (ucast (drop_bit (8 * off) d))"
  "j < 4 \<Longrightarrow> io_write env a (push_bit (2 * j) 3) d =
     write16 env (a + of_nat (2 * j)) (ucast (drop_bit (8 * (2 * j)) d))"
  "io_write env a 0xFF d = write64 env a d"
proof -
  assume "off < 8"
  then consider "off = 0" | "off = 1" | "off = 2" | "off = 3" | "off = 4" | "off = 5" | "off = 6" | "off = 7"
    by arith
  then show "io_write env a (2 ^ off) d = write8 env (a + of_nat off) (ucast (drop_bit (8 * off) d))"
    by cases (simp_all add: io_write_def)
next
  assume "j < 4"
  then consider "j = 0" | "j = 1" | "j = 2" | "j = 3" by arith
  then show "io_write env a (push_bit (2 * j) 3) d =
     write16 env (a + of_nat (2 * j)) (ucast (drop_bit (8 * (2 * j)) d))"
    by cases (simp_all add: io_write_def)
qed (simp add: io_write_def)

lemma bit_low_masks: "bit (3 :: int) n \<longleftrightarrow> n < 2" "bit (0xF :: int) n \<longleftrightarrow> n < 4"
  "bit (0xFF :: int) n \<longleftrightarrow> n < 8"
proof -
  have m: "bit (mask 2 :: int) n \<longleftrightarrow> n < 2" "bit (mask 4 :: int) n \<longleftrightarrow> n < 4"
    "bit (mask 8 :: int) n \<longleftrightarrow> n < 8" by (auto simp: bit_mask_iff)
  have "(mask 2 :: int) = 3" "(mask 4 :: int) = 0xF" "(mask 8 :: int) = 0xFF"
    by (simp_all add: mask_numeral)
  with m show "bit (3 :: int) n \<longleftrightarrow> n < 2" "bit (0xF :: int) n \<longleftrightarrow> n < 4"
    "bit (0xFF :: int) n \<longleftrightarrow> n < 8" by metis+
qed

text \<open>The masks whose accesses keep all selected bytes.\<close>

definition io_lane_mask :: "u8 \<Rightarrow> bool" where
  "io_lane_mask wmask \<longleftrightarrow> wmask \<in> set (map (\<lambda>i. 2 ^ i) [0..<8]) \<or>
     wmask \<in> set (map (\<lambda>j. push_bit (2 * j) 3) [0..<4]) \<or> wmask = 0xFF"

definition plain_word :: "'h sys_calls \<Rightarrow> 'h main_memory \<Rightarrow> 53 word \<Rightarrow> bool" where
  "plain_word env m a \<longleftrightarrow> (\<forall>i < 8. \<forall>d. plain_write env m (word_address a + of_nat i) d)"

lemma plain_wordD: "plain_word env m a \<Longrightarrow> i < 8 \<Longrightarrow> plain_write env m (word_address a + of_nat i) d"
  by (simp add: plain_word_def)

lemma io_write_lane_mask:
  assumes "io_lane_mask wmask" "plain_word env m a"
  shows "\<exists>m'. io_write env (word_address a) wmask d m = (Inr (), m') \<and>
    byte_at m' = lanes (byte_at m) (word_address a) wmask d"
  using assms(1) unfolding io_lane_mask_def
proof (elim disjE)
  assume "wmask \<in> set (map (\<lambda>i. 2 ^ i) [0..<8])"
  then obtain off where off: "off < 8" "wmask = 2 ^ off" by auto
  then show ?thesis
    using store_lane8 [of off env m a _ wmask d] assms(2)
    by (simp add: io_write_cases plain_word_def bit_simps)
next
  assume "wmask \<in> set (map (\<lambda>j. push_bit (2 * j) 3) [0..<4])"
  then obtain j where j: "j < 4" "wmask = push_bit (2 * j) 3" by auto
  let ?v = "ucast (drop_bit (8 * (2 * j)) d) :: u16"
  have bits: "bit wmask i \<longleftrightarrow> 2 * j \<le> i \<and> i < 2 * j + unat (2 :: u64)" if "i < 8" for i
    using that j by (auto simp: bit_push_bit_iff bit_low_masks simp del: push_bit_numeral)
  have data: "(ucast (drop_bit (8 * i) ?v) :: u8) = ucast (drop_bit (8 * (2 * j + i)) d)"
    if "i < unat (2 :: u64)" for i
    using that by (intro lane_data) simp
  have plain: "plain_write env m (word_address a + of_nat (2 * j)) (ucast ?v)"
    using plain_wordD [OF assms(2)] j by (simp del: of_nat_mult)
  have len: "2 * j + unat (2 :: u64) \<le> 8" "0 < unat (2 :: u64)" using j by simp_all
  from store_lanes [OF len plain bits data] show ?thesis
    by (simp only: j(2) io_write_cases(2) [OF j(1)] write16_def)
next
  assume w: "wmask = 0xFF"
  have "bit (0xFF :: u8) i" if "i < 8" for i using that by (simp add: bit_low_masks)
  then show ?thesis
    using store_lanes [of 0 8 env m a d wmask d] plain_wordD [OF assms(2), of 0 d] w
    by (simp add: io_write_cases write64_def)
qed

text \<open>The four-byte cases store only the low two bytes of their half and clear the others.\<close>

lemma io_write_half:
  assumes "h < 2" "plain_word env m a"
  shows "\<exists>m'. io_write env (word_address a) (push_bit (4 * h) 0xF) d m = (Inr (), m') \<and>
    byte_at m' = lanes (byte_at m) (word_address a) (push_bit (4 * h) 0xF)
      (push_bit (32 * h) (take_bit 16 (drop_bit (32 * h) d)))"
proof -
  let ?v = "ucast (ucast (drop_bit (32 * h) d) :: u16) :: u32"
  let ?d = "push_bit (32 * h) (take_bit 16 (drop_bit (32 * h) d))"
  have bits: "bit (push_bit (4 * h) 0xF :: u8) i \<longleftrightarrow> 4 * h \<le> i \<and> i < 4 * h + unat (4 :: u64)"
    if "i < 8" for i
    using that assms(1) by (auto simp: bit_push_bit_iff bit_low_masks simp del: push_bit_numeral)
  have byte: "(ucast (drop_bit (8 * i) ?v) :: u8) = ucast (drop_bit (8 * (4 * h + i)) ?d)"
    if "i < unat (4 :: u64)" for i
  proof (rule bit_word_eqI)
    fix n
    assume "n < LENGTH(8)"
    with that assms(1) show "bit (ucast (drop_bit (8 * i) ?v) :: u8) n =
        bit (ucast (drop_bit (8 * (4 * h + i)) ?d) :: u8) n"
      by (auto simp: bit_simps algebra_simps)
  qed
  have w: "io_write env (word_address a) (push_bit (4 * h) 0xF) d =
      write32 env (word_address a + of_nat (4 * h)) ?v"
    using assms(1) by (cases "h = 0") (auto simp: io_write_def less_2_cases_iff)
  have plain: "plain_write env m (word_address a + of_nat (4 * h)) (ucast ?v)"
    using plain_wordD [OF assms(2)] assms(1) by (simp del: of_nat_mult)
  have len: "4 * h + unat (4 :: u64) \<le> 8" "0 < unat (4 :: u64)" using assms(1) by simp_all
  from store_lanes [OF len plain bits byte] show ?thesis by (simp only: w write32_def)
qed

section \<open>Properties\<close>

lemma core_read64:
  "read64 (word_address a) m =
     (Inr (le_word (peek (byte_at m) (word_address a) 8)), touch_span 8 (word_address a) m)"
  using access_ok_word_address [of 0 8 a]
  by (simp add: read64_def read_value_eq)

lemma plain_word_touch [simp]: "plain_word env (touch_span k b m) a = plain_word env m a"
  by (simp add: plain_word_def plain_write_def)

definition core_example :: "bool \<Rightarrow> u8 \<Rightarrow> (unit, unit) core_world" where
  "core_example we wmask =
     \<lparr>port = new_main_memory_port 0,
      dut = \<lparr>mem_en_o = True, mem_we_o = we, mem_addr_o = 4, mem_wmask_o = wmask, mem_wdata_o = 7,
        mem_rdata_i = 0, io_en_o = True, io_we_o = we, io_addr_o = 4, io_wmask_o = wmask,
        io_wdata_o = 0x12345678, io_rdata_i = 0\<rparr>,
      memory = zeroed_memory\<rparr>"

lemma core_example_simps [simp]:
  "mem_en_o (dut (core_example we wmask))" "mem_we_o (dut (core_example we wmask)) = we"
  "mem_addr_o (dut (core_example we wmask)) = 4" "mem_wmask_o (dut (core_example we wmask)) = wmask"
  "mem_wdata_o (dut (core_example we wmask)) = 7"
  "io_en_o (dut (core_example we wmask))" "io_we_o (dut (core_example we wmask)) = we"
  "io_addr_o (dut (core_example we wmask)) = 4" "io_wmask_o (dut (core_example we wmask)) = wmask"
  "io_wdata_o (dut (core_example we wmask)) = 0x12345678"
  "memory (core_example we wmask) = zeroed_memory"
  by (simp_all add: core_example_def)

lemma plain_word_no_system_calls [simp]: "plain_word no_system_calls m a"
  by (simp add: plain_word_def plain_write_def no_system_calls_def)

text \<open>
  C18: The main memory port returns the word that was in memory before the request and writes
  the whole word if the request is a write with a full mask; a write with any other mask
  stops the simulator.
\<close>

theorem mem_port_reads_before_writing:
  assumes "mem_en_o (dut w)" "plain_word env (memory w) (mem_addr_o (dut w))"
  shows "if mem_we_o (dut w) \<and> mem_wmask_o (dut w) \<noteq> 0xFF
    then fst (mem_get_request env w) = Inl (Exit 1)
    else \<exists>w'. mem_get_request env w = (Inr (), w') \<and>
      port w' = queued (port w)
        (le_word (peek (byte_at (memory w)) (word_address (mem_addr_o (dut w))) 8)) EXC_CAUSE_NONE \<and>
      byte_at (memory w') =
        (if mem_we_o (dut w)
         then poke (byte_at (memory w)) (word_address (mem_addr_o (dut w))) (le_bytes 8 (mem_wdata_o (dut w)))
         else byte_at (memory w))"
proof -
  let ?a = "word_address (mem_addr_o (dut w))"
  have "plain_write env (touch_span 8 ?a (memory w)) ?a (mem_wdata_o (dut w))"
    using plain_wordD [OF assms(2), of 0] by (simp add: plain_write_def)
  then have wr: "write64 env ?a (mem_wdata_o (dut w)) (touch_span 8 ?a (memory w)) =
      (Inr (), put_span 8 ?a (le_bytes 8 (mem_wdata_o (dut w))) (touch_span 8 ?a (memory w)))"
    using access_ok_word_address [of 0 8 "mem_addr_o (dut w)"] by (simp add: write64_def write_value_eq)
  show ?thesis
    using assms(1) wr
    by (simp add: mem_get_request_def mem_can_receive_request_def prog_simps Let_def core_read64
        byte_at_put_span flip: word_address_def)
qed

theorem mem_port_reads_before_writing_witness:
  "fst (mem_get_request no_system_calls (core_example True 0x0F)) = Inl (Exit 1) \<and>
   byte_at (memory (snd (mem_get_request no_system_calls (core_example True 0xFF)))) =
     poke (byte_at zeroed_memory) (word_address 4) (le_bytes 8 (7 :: u64))"
  using mem_port_reads_before_writing [of "core_example True 0x0F" no_system_calls]
    mem_port_reads_before_writing [of "core_example True 0xFF" no_system_calls]
  by auto

text \<open>
  C19: A write of one, two or eight bytes to the IO port stores exactly the byte lanes its mask
  selects, and the response is the word before the write.
\<close>

theorem io_port_writes_lanes:
  assumes "io_en_o (dut w)" "io_we_o (dut w)" "io_lane_mask (io_wmask_o (dut w))"
    and "plain_word env (memory w) (io_addr_o (dut w))"
  shows "\<exists>w'. io_get_request env w = (Inr (), w') \<and>
    port w' = queued (port w)
      (le_word (peek (byte_at (memory w)) (word_address (io_addr_o (dut w))) 8)) EXC_CAUSE_NONE \<and>
    byte_at (memory w') = lanes (byte_at (memory w)) (word_address (io_addr_o (dut w)))
      (io_wmask_o (dut w)) (io_wdata_o (dut w))"
proof -
  let ?m = "touch_span 8 (word_address (io_addr_o (dut w))) (memory w)"
  have "plain_word env ?m (io_addr_o (dut w))" using assms(4) by simp
  from io_write_lane_mask [OF assms(3) this, of "io_wdata_o (dut w)"] show ?thesis
    using assms(1,2)
    by (auto simp: io_get_request_def io_can_receive_request_def prog_simps Let_def core_read64
        simp flip: word_address_def)
qed

theorem io_port_writes_lanes_witness:
  "\<exists>w'. io_get_request no_system_calls (core_example True 0x0C) = (Inr (), w') \<and>
     byte_at (memory w') = lanes (byte_at zeroed_memory) (word_address 4) 0x0C 0x12345678"
proof -
  have "io_lane_mask 0x0C"
    unfolding io_lane_mask_def by (intro disjI2 disjI1) (auto simp: image_iff intro!: bexI [of _ 1])
  then show ?thesis using io_port_writes_lanes [of "core_example True 0x0C" no_system_calls] by auto
qed

lemma half_bytes_iff:
  fixes d :: u64
  assumes "h < 2"
  defines "e \<equiv> push_bit (32 * h) (take_bit 16 (drop_bit (32 * h) d))"
  shows "(\<forall>i. 4 * h \<le> i \<and> i < 4 * h + 4 \<longrightarrow> (ucast (drop_bit (8 * i) e) :: u8) = ucast (drop_bit (8 * i) d)) \<longleftrightarrow>
    take_bit 16 (drop_bit (32 * h + 16) d) = 0" (is "?L \<longleftrightarrow> ?R")
proof
  assume L: ?L
  show ?R
  proof (rule bit_word_eqI)
    fix n
    assume "n < LENGTH(64)"
    show "bit (take_bit 16 (drop_bit (32 * h + 16) d)) n = bit (0 :: u64) n"
    proof (cases "n < 16")
      case True
      let ?i = "(32 * h + 16 + n) div 8" and ?b = "(32 * h + 16 + n) mod 8"
      have "4 * h \<le> ?i \<and> ?i < 4 * h + 4" using True by auto
      with L have "bit (ucast (drop_bit (8 * ?i) e) :: u8) ?b = bit (ucast (drop_bit (8 * ?i) d) :: u8) ?b"
        by simp
      then have "bit e (32 * h + 16 + n) = bit d (32 * h + 16 + n)" by (simp add: bit_simps)
      moreover have "\<not> bit e (32 * h + 16 + n)" by (simp add: e_def bit_simps)
      ultimately show ?thesis using True by (simp add: bit_simps)
    qed (simp add: bit_simps)
  qed
next
  assume R: ?R
  have zero: "\<not> bit d n" if "32 * h + 16 \<le> n" "n < 32 * h + 32" for n
  proof -
    have "\<not> bit (take_bit 16 (drop_bit (32 * h + 16) d)) (n - (32 * h + 16))" using R by simp
    with that show ?thesis by (simp add: bit_simps)
  qed
  show ?L
  proof (intro allI impI bit_word_eqI)
    fix i n
    assume i: "4 * h \<le> i \<and> i < 4 * h + 4" and "n < LENGTH(8)"
    then have n: "32 * h \<le> 8 * i + n" "8 * i + n < 32 * h + 32" "8 * i + n < 64"
      using assms(1) by auto
    then have "bit e (8 * i + n) = bit d (8 * i + n)"
      using zero [of "8 * i + n"]
      by (cases "32 * h + 16 \<le> 8 * i + n") (auto simp: e_def bit_simps)
    with \<open>n < LENGTH(8)\<close> show "bit (ucast (drop_bit (8 * i) e) :: u8) n = bit (ucast (drop_bit (8 * i) d) :: u8) n"
      by (simp add: bit_simps)
  qed
qed

text \<open>
  C20: A write of four bytes to the IO port stores its byte lanes exactly when the upper two
  bytes of the data are zero: the data is cut to 16 bits on the way.
\<close>

theorem io_port_half_word_iff:
  assumes "h < 2" "plain_word env m a"
  shows "byte_at (snd (io_write env (word_address a) (push_bit (4 * h) 0xF) d m)) =
      lanes (byte_at m) (word_address a) (push_bit (4 * h) 0xF) d \<longleftrightarrow>
    take_bit 16 (drop_bit (32 * h + 16) d) = 0"
proof -
  let ?a = "word_address a" and ?wm = "push_bit (4 * h) 0xF :: u8"
  let ?d = "push_bit (32 * h) (take_bit 16 (drop_bit (32 * h) d))"
  have wm: "bit ?wm i \<longleftrightarrow> 4 * h \<le> i \<and> i < 4 * h + 4" if "i < 8" for i
    using that assms(1) by (auto simp: bit_push_bit_iff bit_low_masks simp del: push_bit_numeral)
  have lane: "lanes f ?a ?wm e (?a + of_nat i) = ucast (drop_bit (8 * i) e)"
    if "4 * h \<le> i" "i < 4 * h + 4" for f e i
    using that wm [of i] assms(1) by (simp add: lanes_def Let_def unat_of_nat_u64)
  have same: "lanes f ?a ?wm ?d = lanes f ?a ?wm d \<longleftrightarrow>
      (\<forall>i. 4 * h \<le> i \<and> i < 4 * h + 4 \<longrightarrow> (ucast (drop_bit (8 * i) ?d) :: u8) = ucast (drop_bit (8 * i) d))"
    (is "?L \<longleftrightarrow> ?R") for f
  proof
    assume ?L
    then show ?R using lane by metis
  next
    assume ?R
    then show ?L by (auto simp: lanes_def Let_def fun_eq_iff wm)
  qed
  obtain m' where m': "io_write env ?a ?wm d m = (Inr (), m')" "byte_at m' = lanes (byte_at m) ?a ?wm ?d"
    using io_write_half [OF assms, of d] by blast
  show ?thesis unfolding m'(1) snd_conv m'(2) same half_bytes_iff [OF assms(1)] ..
qed

theorem io_port_half_word_iff_witness:
  "byte_at (snd (io_write no_system_calls (word_address 4) 0x0F 0x12345678 zeroed_memory)) \<noteq>
   lanes (byte_at zeroed_memory) (word_address 4) 0x0F 0x12345678"
proof -
  have "take_bit 16 (drop_bit 16 (0x12345678 :: u64)) \<noteq> 0" by simp
  then show ?thesis
    using io_port_half_word_iff [of 0 no_system_calls zeroed_memory 4 "0x12345678"] by simp
qed

end
