(* ===== verification/Harness.thy ===== *)
theory Harness
  imports Simulation Core_Ports
begin

text \<open>
  The two harnesses: \<open>pipeline_harness.cc\<close> connects the pipeline to the cache ports, and
  \<open>core_harness.cc\<close> connects the core to the word ports. Each supplies the virtual methods
  of the simulation. The design's evaluation is a parameter, since Verilator generates it. The
  signals include whether the design has executed \<open>$finish\<close>, which its evaluation may set.
\<close>

section \<open>Pipeline harness\<close>

record pipeline_signals = dcache_signals +
  clk_i :: bool
  rst_ni :: bool
  dcache_req_ready :: bool
  irq_timer_m_i :: bool
  irq_software_m_i :: bool
  irq_external_m_i :: bool
  irq_external_s_i :: bool
  hart_id_i :: u64
  dbg_pc_o :: u64
  dbg_trace_o :: instr_trace_t
  finish_called :: bool

text \<open>
  \<open>dbg_trace_o\<close> groups the debug outputs that are copied to the trace record, except for the
  program counter, which has a signal of its own.
\<close>

record pipeline_ports =
  instruction_port :: "u32 memory_port"
  data_port :: dcache_port

type_synonym 'd pipeline_sim = "(pipeline_ports, 'd pipeline_signals_scheme) sim"

text \<open>
  The constructor: the base class first, then the ports with the latency the base class has
  set. \<open>u\<close> gives the members that are left uninitialised.
\<close>

definition new_pipeline_simulation :: "string \<Rightarrow> 'd pipeline_sim \<Rightarrow> 'd pipeline_sim" where
  "new_pipeline_simulation name u =
     (let s = new_simulation name u; l = word_of_int (main_memory_latency s) in
      s\<lparr>sim_ports :=
        \<lparr>instruction_port = new_instruction_cache_port (current_cycle (instruction_port (sim_ports u))) l,
         data_port = new_data_cache_port (current_cycle (data_port (sim_ports u)))
           (reserved (data_port (sim_ports u))) l\<rparr>\<rparr>)"

definition on_instruction_port ::
  "((u32 memory_port, 'd pipeline_signals_scheme, host_state) port_world, 'a) prog \<Rightarrow>
     ('d pipeline_sim, 'a) prog" where
  "on_instruction_port m =
     (\<lambda>s. case m \<lparr>port = instruction_port (sim_ports s), dut = sim_dut s, memory = sim_memory s\<rparr> of
        (r, w) \<Rightarrow> (r, s\<lparr>sim_ports := (sim_ports s)\<lparr>instruction_port := port w\<rparr>,
          sim_dut := dut w, sim_memory := memory w\<rparr>))"

definition on_data_port ::
  "((dcache_port, 'd pipeline_signals_scheme, host_state) port_world, 'a) prog \<Rightarrow>
     ('d pipeline_sim, 'a) prog" where
  "on_data_port m =
     (\<lambda>s. case m \<lparr>port = data_port (sim_ports s), dut = sim_dut s, memory = sim_memory s\<rparr> of
        (r, w) \<Rightarrow> (r, s\<lparr>sim_ports := (sim_ports s)\<lparr>data_port := port w\<rparr>,
          sim_dut := dut w, sim_memory := memory w\<rparr>))"

definition pipeline_first_half ::
  "('d pipeline_signals_scheme \<Rightarrow> 'd pipeline_signals_scheme) \<Rightarrow> ('d pipeline_sim, unit) prog" where
  "pipeline_first_half eval =
     bindM (on_dut eval) (\<lambda>_.
     bindM (gets simulation_time) (\<lambda>t.
     bindM (on_instruction_port (MemoryPort_set_outputs (icache_methods sim_sys_calls) t)) (\<lambda>_.
     on_data_port (MemoryPort_set_outputs (dcache_methods sim_sys_calls) t))))"

definition pipeline_second_half ::
  "('d pipeline_signals_scheme \<Rightarrow> 'd pipeline_signals_scheme) \<Rightarrow> ('d pipeline_sim, unit) prog" where
  "pipeline_second_half eval =
     bindM (on_dut eval) (\<lambda>_.
     bindM (gets simulation_time) (\<lambda>t.
     bindM (on_instruction_port (MemoryPort_get_inputs (icache_methods sim_sys_calls) t)) (\<lambda>_.
     on_data_port (MemoryPort_get_inputs (dcache_methods sim_sys_calls) t))))"

definition pipeline_init :: "'d pipeline_signals_scheme \<Rightarrow> 'd pipeline_signals_scheme" where
  "pipeline_init d =
     d\<lparr>clk_i := True, rst_ni := True,
       icache_resp_valid := False, icache_resp_instr := 0xDEADBEEF, icache_resp_exception := False,
       dcache_req_ready := True, dcache_resp_valid := False, dcache_resp_value := 0xDEADBEEF,
       dcache_ex_valid := False, dcache_notif_ready := False,
       irq_timer_m_i := False, irq_software_m_i := False, irq_external_m_i := False,
       irq_external_s_i := False, hart_id_i := 0\<rparr>"

definition pipeline_trace_info :: "'d pipeline_signals_scheme \<Rightarrow> instr_trace_t" where
  "pipeline_trace_info d = (dbg_trace_o d)\<lparr>it_pc := dbg_pc_o d\<rparr>"

definition pipeline_methods ::
  "('d pipeline_signals_scheme \<Rightarrow> 'd pipeline_signals_scheme) \<Rightarrow>
   ('d pipeline_signals_scheme \<Rightarrow> 'd pipeline_signals_scheme) \<Rightarrow>
     (pipeline_ports, 'd pipeline_signals_scheme) sim_methods" where
  "pipeline_methods eval final =
     \<lparr>set_clock = \<lambda>v d. d\<lparr>clk_i := v \<noteq> 0\<rparr>,
      set_reset = \<lambda>v d. d\<lparr>rst_ni := \<not> (v \<noteq> 0)\<rparr>,
      sim_init = pipeline_init,
      cycle_first_half = pipeline_first_half eval,
      cycle_second_half = pipeline_second_half eval,
      get_program_counter = dbg_pc_o,
      get_trace_info = pipeline_trace_info,
      dut_eval = eval,
      dut_final = final,
      dut_finish = finish_called\<rparr>"

section \<open>Core harness\<close>

record core_dut_signals = core_signals +
  core_clk_i :: bool
  core_rst_ni :: bool
  core_irq_timer_m_i :: bool
  core_irq_software_m_i :: bool
  core_irq_external_m_i :: bool
  core_irq_external_s_i :: bool
  core_hart_id_i :: u64
  core_dbg_pc_o :: u64
  core_dbg_trace_o :: instr_trace_t
  core_finish_called :: bool

record core_ports =
  main_memory_port :: "u64 memory_port"
  io_memory_port :: "u64 memory_port"

type_synonym 'd core_sim = "(core_ports, 'd core_dut_signals_scheme) sim"

definition new_core_simulation :: "string \<Rightarrow> 'd core_sim \<Rightarrow> 'd core_sim" where
  "new_core_simulation name u =
     (new_simulation name u)\<lparr>sim_ports :=
        \<lparr>main_memory_port = new_main_memory_port (current_cycle (main_memory_port (sim_ports u))),
         io_memory_port = new_io_memory_port (current_cycle (io_memory_port (sim_ports u)))\<rparr>\<rparr>"

definition on_main_memory_port ::
  "((u64 memory_port, 'd core_dut_signals_scheme, host_state) port_world, 'a) prog \<Rightarrow>
     ('d core_sim, 'a) prog" where
  "on_main_memory_port m =
     (\<lambda>s. case m \<lparr>port = main_memory_port (sim_ports s), dut = sim_dut s, memory = sim_memory s\<rparr> of
        (r, w) \<Rightarrow> (r, s\<lparr>sim_ports := (sim_ports s)\<lparr>main_memory_port := port w\<rparr>,
          sim_dut := dut w, sim_memory := memory w\<rparr>))"

definition on_io_memory_port ::
  "((u64 memory_port, 'd core_dut_signals_scheme, host_state) port_world, 'a) prog \<Rightarrow>
     ('d core_sim, 'a) prog" where
  "on_io_memory_port m =
     (\<lambda>s. case m \<lparr>port = io_memory_port (sim_ports s), dut = sim_dut s, memory = sim_memory s\<rparr> of
        (r, w) \<Rightarrow> (r, s\<lparr>sim_ports := (sim_ports s)\<lparr>io_memory_port := port w\<rparr>,
          sim_dut := dut w, sim_memory := memory w\<rparr>))"

definition core_first_half ::
  "('d core_dut_signals_scheme \<Rightarrow> 'd core_dut_signals_scheme) \<Rightarrow> ('d core_sim, unit) prog" where
  "core_first_half eval =
     bindM (on_dut eval) (\<lambda>_.
     bindM (gets simulation_time) (\<lambda>t.
     bindM (on_main_memory_port (MemoryPort_set_outputs (mem_methods sim_sys_calls) t)) (\<lambda>_.
     on_io_memory_port (MemoryPort_set_outputs (io_methods sim_sys_calls) t))))"

definition core_second_half ::
  "('d core_dut_signals_scheme \<Rightarrow> 'd core_dut_signals_scheme) \<Rightarrow> ('d core_sim, unit) prog" where
  "core_second_half eval =
     bindM (on_dut eval) (\<lambda>_.
     bindM (gets simulation_time) (\<lambda>t.
     bindM (on_main_memory_port (MemoryPort_get_inputs (mem_methods sim_sys_calls) t)) (\<lambda>_.
     on_io_memory_port (MemoryPort_get_inputs (io_methods sim_sys_calls) t))))"

definition core_init :: "'d core_dut_signals_scheme \<Rightarrow> 'd core_dut_signals_scheme" where
  "core_init d =
     d\<lparr>core_clk_i := True, core_rst_ni := True, mem_rdata_i := 0xDEADBEEF, io_rdata_i := 0xDEADBEEF,
       core_irq_timer_m_i := False, core_irq_software_m_i := False, core_irq_external_m_i := False,
       core_irq_external_s_i := False, core_hart_id_i := 0\<rparr>"

definition core_trace_info :: "'d core_dut_signals_scheme \<Rightarrow> instr_trace_t" where
  "core_trace_info d = (core_dbg_trace_o d)\<lparr>it_pc := core_dbg_pc_o d\<rparr>"

definition core_methods ::
  "('d core_dut_signals_scheme \<Rightarrow> 'd core_dut_signals_scheme) \<Rightarrow>
   ('d core_dut_signals_scheme \<Rightarrow> 'd core_dut_signals_scheme) \<Rightarrow>
     (core_ports, 'd core_dut_signals_scheme) sim_methods" where
  "core_methods eval final =
     \<lparr>set_clock = \<lambda>v d. d\<lparr>core_clk_i := v \<noteq> 0\<rparr>,
      set_reset = \<lambda>v d. d\<lparr>core_rst_ni := \<not> (v \<noteq> 0)\<rparr>,
      sim_init = core_init,
      cycle_first_half = core_first_half eval,
      cycle_second_half = core_second_half eval,
      get_program_counter = core_dbg_pc_o,
      get_trace_info = core_trace_info,
      dut_eval = eval,
      dut_final = final,
      dut_finish = core_finish_called\<rparr>"

section \<open>Main programs\<close>

text \<open>
  \<open>main\<close> drops the name of the simulator, parses the arguments, runs and returns the exit
  code. The result is the process's exit status, or the failure that ended it; it is \<open>None\<close> if the
  clock loop runs forever.
\<close>

definition sim_main ::
  "('p, 'd) sim_methods \<Rightarrow> elf_h \<Rightarrow> (nat \<Rightarrow> u8) \<Rightarrow> (string \<rightharpoonup> u8 list) \<Rightarrow> string list \<Rightarrow>
     (('p, 'd) sim, int) loop" where
  "sim_main M E junk fs argv =
     bind_loop (ending (sim_parse_args E junk fs (tl argv))) (\<lambda>_.
     bind_loop (run M) (\<lambda>_. ending (gets return_code)))"

definition pipeline_main where
  "pipeline_main eval final E junk fs argv u =
     sim_main (pipeline_methods eval final) E junk fs argv (new_pipeline_simulation ''muntjac_pipeline'' u)"

definition core_main where
  "core_main eval final E junk fs argv u =
     sim_main (core_methods eval final) E junk fs argv (new_core_simulation ''muntjac_core'' u)"

section \<open>The harnesses and the clock\<close>

lemma keeps_on_ports [keeps_intros]:
  "keeps clock_of (on_instruction_port m)" "keeps clock_of (on_data_port n)"
  "keeps clock_of (on_main_memory_port p)" "keeps clock_of (on_io_memory_port q)"
  "keeps waves_of (on_instruction_port m)" "keeps waves_of (on_data_port n)"
  "keeps waves_of (on_main_memory_port p)" "keeps waves_of (on_io_memory_port q)"
  by (simp_all add: keeps_def view_defs on_instruction_port_def on_data_port_def on_main_memory_port_def
      on_io_memory_port_def split: prod.split)

interpretation pipeline: clocked "pipeline_methods eval final" for eval final
  by unfold_locales
    (simp_all add: pipeline_methods_def pipeline_first_half_def pipeline_second_half_def,
      (intro keeps_intros; simp add: view_defs)+)

interpretation core: clocked "core_methods eval final" for eval final
  by unfold_locales
    (simp_all add: core_methods_def core_first_half_def core_second_half_def,
      (intro keeps_intros; simp add: view_defs)+)

section \<open>The ports in a run\<close>

text \<open>
  The state just before cycle \<open>k\<close>: reset and initial requests are done, and \<open>k\<close> cycles
  of the loop have returned.
\<close>

inductive before_cycle :: "('p, 'd) sim_methods \<Rightarrow> ('p, 'd) sim \<Rightarrow> nat \<Rightarrow> ('p, 'd) sim \<Rightarrow> bool"
  for M s0 where
  started: "run_start M s0 = (Inr (), s) \<Longrightarrow> before_cycle M s0 0 s"
| cycled: "before_cycle M s0 k s \<Longrightarrow> run_cycle M s = (Inr (), s') \<Longrightarrow> before_cycle M s0 (Suc k) s'"

definition instruction_world where
  "instruction_world s = \<lparr>port = instruction_port (sim_ports s), dut = sim_dut s, memory = sim_memory s\<rparr>"

definition data_world where
  "data_world s = \<lparr>port = data_port (sim_ports s), dut = sim_dut s, memory = sim_memory s\<rparr>"

lemma before_cycle_half_cycles:
  assumes "before_cycle (pipeline_methods eval final) s0 k s" "half_cycles s0 = 0" "k \<le> 2 ^ 52"
  shows "half_cycles s = 2 * k"
  using assms
proof (induction rule: before_cycle.induct)
  case (started s)
  then show ?case using keepsD [OF pipeline.run_start_clock started(1)] by (simp add: clock_of_def)
next
  case (cycled k s s')
  then show ?case using pipeline.run_cycle_steps [OF cycled.hyps(2)] by simp
qed

text \<open>The effect of each half of a cycle on the two ports.\<close>

lemma on_instruction_port_Inr:
  assumes "on_instruction_port m s = (Inr (), s')"
  shows "\<exists>w'. m (instruction_world s) = (Inr (), w') \<and> port (instruction_world s') = port w' \<and>
    data_port (sim_ports s') = data_port (sim_ports s) \<and> half_cycles s' = half_cycles s"
  using assms by (auto simp: on_instruction_port_def instruction_world_def split: prod.splits)

lemma on_data_port_Inr:
  assumes "on_data_port m s = (Inr (), s')"
  shows "\<exists>w'. m (data_world s) = (Inr (), w') \<and> port (data_world s') = port w' \<and>
    instruction_port (sim_ports s') = instruction_port (sim_ports s) \<and> half_cycles s' = half_cycles s"
  using assms by (auto simp: on_data_port_def data_world_def split: prod.splits)

lemma half_Inr:
  assumes "bindM (on_dut eval) (\<lambda>_. bindM (gets simulation_time) (\<lambda>t.
      bindM (on_instruction_port (f t)) (\<lambda>_. on_data_port (g t)))) s = (Inr (), s')"
  shows "\<exists>wi wi' wd wd'. port wi = instruction_port (sim_ports s) \<and>
      f (simulation_time s) wi = (Inr (), wi') \<and> instruction_port (sim_ports s') = port wi' \<and>
      port wd = data_port (sim_ports s) \<and>
      g (simulation_time s) wd = (Inr (), wd') \<and> data_port (sim_ports s') = port wd' \<and>
      half_cycles s' = half_cycles s"
proof -
  let ?s = "s\<lparr>sim_dut := eval (sim_dut s)\<rparr>"
  obtain s1 where i: "on_instruction_port (f (simulation_time s)) ?s = (Inr (), s1)"
    and d: "on_data_port (g (simulation_time s)) s1 = (Inr (), s')"
    using assms by (auto simp: bindM_Inr on_dut_apply gets_apply simulation_time_def)
  from on_instruction_port_Inr [OF i] obtain wi' where
    wi: "f (simulation_time s) (instruction_world ?s) = (Inr (), wi')"
      "instruction_port (sim_ports s1) = port wi'" "data_port (sim_ports s1) = data_port (sim_ports s)"
      "half_cycles s1 = half_cycles s"
    by (auto simp: instruction_world_def)
  from on_data_port_Inr [OF d] obtain wd' where
    wd: "g (simulation_time s) (data_world s1) = (Inr (), wd')" "data_port (sim_ports s') = port wd'"
      "instruction_port (sim_ports s') = instruction_port (sim_ports s1)" "half_cycles s' = half_cycles s1"
    by (auto simp: data_world_def)
  show ?thesis
    by (intro exI [of _ "instruction_world ?s"] exI [of _ wi'] exI [of _ "data_world s1"] exI [of _ wd'])
      (use wi wd in \<open>simp add: instruction_world_def data_world_def\<close>)
qed

lemma run_start_Inr:
  assumes "run_start (pipeline_methods eval final) s0 = (Inr (), s)"
  shows "\<exists>s1. pipeline_second_half eval s1 = (Inr (), s) \<and> sim_ports s1 = sim_ports s0 \<and>
    half_cycles s1 = half_cycles s0"
proof -
  let ?M = "pipeline_methods eval final"
  let ?m = "bindM (modify (\<lambda>s. s\<lparr>sim_pc := 0\<rparr>)) (\<lambda>_. bindM trace_init (\<lambda>_. bindM (on_dut (sim_init ?M))
    (\<lambda>_. sim_reset ?M)))"
  have "run_start ?M = bindM ?m (\<lambda>_. pipeline_second_half eval)"
    by (simp add: run_start_def run_reset_def bindM_assoc pipeline_methods_def)
  with assms obtain s1 where s1: "?m s0 = (Inr (), s1)" "pipeline_second_half eval s1 = (Inr (), s)"
    by (auto simp: bindM_Inr)
  have "keeps schedule_of ?m" by (intro keeps_intros) (simp_all add: schedule_of_def)
  from keepsD [OF this s1(1)] s1(2) show ?thesis by (auto simp: schedule_of_def)
qed

lemma run_cycle_Inr:
  assumes "run_cycle (pipeline_methods eval final) s = (Inr (), s')"
  shows "\<exists>s1 s2 s3 s4. pipeline_first_half eval s1 = (Inr (), s2) \<and> pipeline_second_half eval s3 = (Inr (), s4) \<and>
    sim_ports s1 = sim_ports s \<and> half_cycles s1 = half_cycles s \<and>
    sim_ports s3 = sim_ports s2 \<and> half_cycles s3 = min (half_cycles s2 + 1) (2 ^ 53) \<and>
    sim_ports s' = sim_ports s4"
  using assms
  by (fastforce simp: run_cycle_def bindM_Inr on_dut_apply advance_def modify_apply pipeline_methods_def
      trace_state_change_def Simulation_trace_state_change_def on_waves_def muntjac_log_def Let_def)

text \<open>Both ports of a run follow the schedule of the base class.\<close>

type_synonym 'd instruction_world = "(u32 memory_port, 'd pipeline_signals_scheme, host_state) port_world"

type_synonym 'd data_world = "(dcache_port, 'd pipeline_signals_scheme, host_state) port_world"

lemma pipeline_cycle_schedule:
  fixes eval :: "'d pipeline_signals_scheme \<Rightarrow> 'd pipeline_signals_scheme"
    and ui :: "'d instruction_world" and ud :: "'d data_world"
  assumes "run_cycle (pipeline_methods eval final) s = (Inr (), s')" "half_cycles s = 2 * k" "k < 2 ^ 52"
    and u: "port ui = instruction_port (sim_ports s)" "port_run (icache_methods sim_sys_calls) l k ui"
      "port ud = data_port (sim_ports s)" "port_run (dcache_methods sim_sys_calls) l k ud"
  shows "(\<exists>w :: 'd instruction_world. port w = instruction_port (sim_ports s') \<and> port_run (icache_methods sim_sys_calls) l (Suc k) w) \<and>
    (\<exists>w :: 'd data_world. port w = data_port (sim_ports s') \<and> port_run (dcache_methods sim_sys_calls) l (Suc k) w)"
proof -
  from run_cycle_Inr [OF assms(1)] obtain s1 s2 s3 s4 where
    f: "pipeline_first_half eval s1 = (Inr (), s2)" "sim_ports s1 = sim_ports s" "half_cycles s1 = half_cycles s"
    and g: "pipeline_second_half eval s3 = (Inr (), s4)" "sim_ports s3 = sim_ports s2"
      "half_cycles s3 = min (half_cycles s2 + 1) (2 ^ 53)" "sim_ports s' = sim_ports s4"
    by blast
  from half_Inr [OF f(1) [unfolded pipeline_first_half_def]] obtain
    wi wi' :: "'d instruction_world" and wd wd' :: "'d data_world" where
    a: "port wi = instruction_port (sim_ports s)" "instruction_port (sim_ports s2) = port wi'"
      "MemoryPort_set_outputs (icache_methods sim_sys_calls) (of_nat k) wi = (Inr (), wi')"
      "port wd = data_port (sim_ports s)" "data_port (sim_ports s2) = port wd'"
      "MemoryPort_set_outputs (dcache_methods sim_sys_calls) (of_nat k) wd = (Inr (), wd')"
      "half_cycles s2 = half_cycles s1"
    using f(2,3) assms(2) by (auto simp: simulation_time_def)
  from half_Inr [OF g(1) [unfolded pipeline_second_half_def]] obtain
    vi vi' :: "'d instruction_world" and vd vd' :: "'d data_world" where
    b: "port vi = port wi'" "instruction_port (sim_ports s') = port vi'"
      "MemoryPort_get_inputs (icache_methods sim_sys_calls) (of_nat k) vi = (Inr (), vi')"
      "port vd = port wd'" "data_port (sim_ports s') = port vd'"
      "MemoryPort_get_inputs (dcache_methods sim_sys_calls) (of_nat k) vd = (Inr (), vd')"
    using g(2-4) a(2,5,7) f(3) assms(2,3) by (auto simp: simulation_time_def)
  have "port_run (icache_methods sim_sys_calls) l (Suc k) vi'"
    using port_run.cycle [OF u(2) _ a(3) b(1) b(3)] u(1) a(1) by simp
  moreover have "port_run (dcache_methods sim_sys_calls) l (Suc k) vd'"
    using port_run.cycle [OF u(4) _ a(6) b(4) b(6)] u(3) a(4) by simp
  ultimately show ?thesis using b(2,5) by metis
qed

lemma pipeline_run_schedule:
  fixes eval :: "'d pipeline_signals_scheme \<Rightarrow> 'd pipeline_signals_scheme"
  assumes "before_cycle (pipeline_methods eval final) s0 k s" "half_cycles s0 = 0" "k \<le> 2 ^ 52"
    and "responses (instruction_port (sim_ports s0)) = []" "latency (instruction_port (sim_ports s0)) = l"
    and "responses (data_port (sim_ports s0)) = []" "latency (data_port (sim_ports s0)) = l"
  shows "(\<exists>w :: 'd instruction_world. port w = instruction_port (sim_ports s) \<and> port_run (icache_methods sim_sys_calls) l k w) \<and>
    (\<exists>w :: 'd data_world. port w = data_port (sim_ports s) \<and> port_run (dcache_methods sim_sys_calls) l k w)"
  using assms
proof (induction rule: before_cycle.induct)
  case (started s)
  from run_start_Inr [OF started.hyps] obtain s1 where
    s1: "pipeline_second_half eval s1 = (Inr (), s)" "sim_ports s1 = sim_ports s0"
      "half_cycles s1 = half_cycles s0" by blast
  have t: "simulation_time s1 = 0" using s1(3) started.prems(1) by (simp add: simulation_time_def)
  from half_Inr [OF s1(1) [unfolded pipeline_second_half_def]] obtain
    wi wi' :: "'d instruction_world" and wd wd' :: "'d data_world" where
    a: "port wi = instruction_port (sim_ports s0)" "instruction_port (sim_ports s) = port wi'"
      "MemoryPort_get_inputs (icache_methods sim_sys_calls) 0 wi = (Inr (), wi')"
      "port wd = data_port (sim_ports s0)" "data_port (sim_ports s) = port wd'"
      "MemoryPort_get_inputs (dcache_methods sim_sys_calls) 0 wd = (Inr (), wd')"
    unfolding t s1(2) by blast
  have "port_run (icache_methods sim_sys_calls) l 0 wi'"
    using port_run.start [OF _ _ a(3)] a(1) started.prems by simp
  moreover have "port_run (dcache_methods sim_sys_calls) l 0 wd'"
    using port_run.start [OF _ _ a(6)] a(4) started.prems by simp
  ultimately show ?case using a(2,5) by metis
next
  case (cycled k s s')
  have k: "k \<le> 2 ^ 52" "k < 2 ^ 52" using cycled.prems(2) by simp_all
  have "half_cycles s = 2 * k" using before_cycle_half_cycles [OF cycled.hyps(1) cycled.prems(1) k(1)] .
  with cycled.IH [OF cycled.prems(1) k(1) cycled.prems(3-6)] cycled.hyps(2) k(2)
  show ?case using pipeline_cycle_schedule by metis
qed

section \<open>Properties\<close>

text \<open>
  C26: A run of either harness ends, whatever the design does: for a timeout of at most
  \<open>2 ^ 52\<close> cycles the loop of \<open>run\<close> is left. The clock never passes the timeout. \<open>run\<close> returns to its caller
  only before the timeout, and only if a system call of the program or a \<open>$finish\<close> of the design
  has set the finish flag; a run that reaches the timeout ends the process with exit status 1.
\<close>

theorem harness_run_ends:
  assumes "half_cycles s = 0" "unat (timeout s) \<le> 2 ^ 52" "half_cycles t = 0" "unat (timeout t) \<le> 2 ^ 52"
  shows "(\<exists>r s'. run (pipeline_methods eval final) s = Some (r, s') \<and>
      timeout s' = timeout s \<and> half_cycles s' \<le> 2 * unat (timeout s) \<and>
      (r = Inr () \<longrightarrow> half_cycles s' < 2 * unat (timeout s) \<and>
         (got_finish (host (sim_memory s')) \<or> (\<exists>d. finish_called d \<and> sim_dut s' = final d))) \<and>
      (0 < timeout s \<and> half_cycles s' = 2 * unat (timeout s) \<longrightarrow> r = Inl (Exit 1))) \<and>
    (\<exists>r t'. run (core_methods eval' final') t = Some (r, t') \<and>
      timeout t' = timeout t \<and> half_cycles t' \<le> 2 * unat (timeout t) \<and>
      (r = Inr () \<longrightarrow> half_cycles t' < 2 * unat (timeout t) \<and>
         (got_finish (host (sim_memory t')) \<or> (\<exists>d. core_finish_called d \<and> sim_dut t' = final' d))) \<and>
      (0 < timeout t \<and> half_cycles t' = 2 * unat (timeout t) \<longrightarrow> r = Inl (Exit 1)))"
  using pipeline.run_outcome [OF assms(1,2), of eval final] core.run_outcome [OF assms(3,4), of eval' final']
  by (simp add: pipeline_methods_def core_methods_def)

text \<open>
  C28: A run of either harness leaves well-formed waveforms, for every build: a file that is in
  use is attached and opened once, then the design is dumped exactly once per half cycle at the
  times 0, 5, 10 and so on. The files are flushed and closed if the run returns and if it reaches the
  timeout; exactly the other runs, which an exception ends on the way, leave them open after the last
  half cycle that was completed. The timeout lies between 1 and \<open>2 ^ 49\<close>, so that the times are exact.
\<close>

theorem harness_waveforms:
  assumes "half_cycles s = 0" "0 < timeout s" "unat (timeout s) \<le> 2 ^ 49"
    and "half_cycles t = 0" "0 < timeout t" "unat (timeout t) \<le> 2 ^ 49"
  shows "(\<exists>r s'. run (pipeline_methods eval final) s = Some (r, s') \<and>
      waves_of s' = waves_append (\<lambda>n. [Attached 100, Opened n] @ dumps 0 (half_cycles s') @
        (if r = Inr () \<or> half_cycles s' = 2 * unat (timeout s) then [Flushed, Closed] else [])) (waves_of s)) \<and>
    (\<exists>r t'. run (core_methods eval' final') t = Some (r, t') \<and>
      waves_of t' = waves_append (\<lambda>n. [Attached 100, Opened n] @ dumps 0 (half_cycles t') @
        (if r = Inr () \<or> half_cycles t' = 2 * unat (timeout t) then [Flushed, Closed] else [])) (waves_of t))"
  using pipeline.run_waves [OF assms(1-3)] core.run_waves [OF assms(4-6)] by (rule conjI)

lemma new_pipeline_ports:
  "latency (instruction_port (sim_ports (new_pipeline_simulation name u))) = 10"
  "responses (instruction_port (sim_ports (new_pipeline_simulation name u))) = []"
  "latency (data_port (sim_ports (new_pipeline_simulation name u))) = 10"
  "responses (data_port (sim_ports (new_pipeline_simulation name u))) = []"
  "half_cycles (new_pipeline_simulation name u) = 0"
  by (simp_all add: new_pipeline_simulation_def new_simulation_def new_Simulation_def new_instruction_cache_port_def
      new_memory_port_def new_data_cache_port_def Let_def)

definition idle_signals :: pipeline_signals where
  "idle_signals =
     \<lparr>icache_req_valid = False, icache_req_pc = 0, icache_req_prv = False, icache_req_sum = False,
      icache_req_atp = 0, icache_resp_valid = False, icache_resp_instr = 0, icache_resp_exception = False,
      icache_resp_ex_code = 0,
      dcache_req_valid = False, dcache_req_address = 0, dcache_req_value = 0, dcache_req_op = 0,
      dcache_req_size = 0, dcache_req_size_ext = 0, dcache_req_amo = 0, dcache_req_prv = False,
      dcache_req_sum = False, dcache_req_mxr = False, dcache_req_atp = 0, dcache_resp_valid = False,
      dcache_resp_value = 0, dcache_ex_valid = False, dcache_ex_exception = (0, 0, 0),
      dcache_notif_valid = False, dcache_notif_ready = False,
      clk_i = False, rst_ni = False, dcache_req_ready = False, irq_timer_m_i = False,
      irq_software_m_i = False, irq_external_m_i = False, irq_external_s_i = False, hart_id_i = 0,
      dbg_pc_o = 0, dbg_trace_o = get_trace_info idle_methods (), finish_called = False\<rparr>"

definition idle_pipeline :: "unit pipeline_sim" where
  "idle_pipeline =
     \<lparr>sim_build = vcd_build, sim_name = ''idle'', sim_dut = idle_signals,
      sim_ports = \<lparr>instruction_port = new_instruction_cache_port 0 10, data_port = new_data_cache_port 0 0 10\<rparr>,
      sim_memory = sim_memory idle_sim, half_cycles = 0, timeout = 100, sim_args = simulation_args vcd_build ''idle'',
      coverage_on = False, coverage_file = [], coverage_written = [], vcd_wave = vcd_on_wave,
      fst_wave = fst_off_wave, trace_ever_on = False, log_level = 0, main_memory_latency = 10, csv_on = False,
      csv_filename = [], csv_trace = [], csv_is_open = False, sim_pc = 0, binary_position = None,
      sim_entry_point = 0x80000000, std_output = [], std_error = []\<rparr>"

definition idle_core_sim :: "unit core_sim" where
  "idle_core_sim =
     \<lparr>sim_build = vcd_build, sim_name = ''idle'',
      sim_dut = \<lparr>mem_en_o = False, mem_we_o = False, mem_addr_o = 0, mem_wmask_o = 0, mem_wdata_o = 0,
        mem_rdata_i = 0, io_en_o = False, io_we_o = False, io_addr_o = 0, io_wmask_o = 0, io_wdata_o = 0,
        io_rdata_i = 0, core_clk_i = False, core_rst_ni = False, core_irq_timer_m_i = False,
        core_irq_software_m_i = False, core_irq_external_m_i = False, core_irq_external_s_i = False,
        core_hart_id_i = 0, core_dbg_pc_o = 0, core_dbg_trace_o = get_trace_info idle_methods (), core_finish_called = False\<rparr>,
      sim_ports = \<lparr>main_memory_port = new_main_memory_port 0, io_memory_port = new_io_memory_port 0\<rparr>,
      sim_memory = sim_memory idle_sim, half_cycles = 0, timeout = 100, sim_args = simulation_args vcd_build ''idle'',
      coverage_on = False, coverage_file = [], coverage_written = [], vcd_wave = vcd_on_wave,
      fst_wave = fst_off_wave, trace_ever_on = False, log_level = 0, main_memory_latency = 10, csv_on = False,
      csv_filename = [], csv_trace = [], csv_is_open = False, sim_pc = 0, binary_position = None,
      sim_entry_point = 0x80000000, std_output = [], std_error = []\<rparr>"

lemma idle_start:
  "half_cycles idle_pipeline = 0" "timeout idle_pipeline = 100" "half_cycles idle_core_sim = 0" "timeout idle_core_sim = 100"
  "waves_of idle_pipeline = (vcd_build, vcd_on_wave, fst_off_wave)"
  by (simp_all add: idle_pipeline_def idle_core_sim_def waves_of_def)

lemma idle_bounds: "unat (100 :: u64) \<le> 2 ^ 52" "unat (100 :: u64) \<le> 2 ^ 49" "0 < (100 :: u64)"
  by simp_all

theorem harness_run_ends_witness:
  "\<exists>r s'. run (pipeline_methods (\<lambda>d. d) (\<lambda>d. d)) idle_pipeline = Some (r, s') \<and> half_cycles s' \<le> 200 \<and>
     (half_cycles s' < 200 \<or> r = Inl (Exit 1))"
  using harness_run_ends [of idle_pipeline idle_core_sim "\<lambda>d. d" "\<lambda>d. d" "\<lambda>d. d" "\<lambda>d. d"]
  unfolding idle_start by auto

theorem harness_waveforms_witness:
  "\<exists>r s'. run (pipeline_methods (\<lambda>d. d) (\<lambda>d. d)) idle_pipeline = Some (r, s') \<and>
     wave_events (vcd_wave s') = [Attached 100, Opened ''idle.vcd''] @ dumps 0 (half_cycles s') @
       (if r = Inr () \<or> half_cycles s' = 200 then [Flushed, Closed] else [])"
proof -
  from harness_waveforms [of idle_pipeline idle_core_sim "\<lambda>d. d" "\<lambda>d. d" "\<lambda>d. d" "\<lambda>d. d", unfolded idle_start,
      OF refl idle_bounds(3,2) refl idle_bounds(3,2)]
  obtain r s' where "run (pipeline_methods (\<lambda>d. d) (\<lambda>d. d)) idle_pipeline = Some (r, s')"
    "waves_of s' = waves_append (\<lambda>n. [Attached 100, Opened n] @ dumps 0 (half_cycles s') @
      (if r = Inr () \<or> half_cycles s' = 200 then [Flushed, Closed] else [])) (vcd_build, vcd_on_wave, fst_off_wave)"
    by auto
  then show ?thesis
    by (intro exI [of _ r] exI [of _ s']) (simp add: waves_of_def vcd_build_def vcd_on_wave_def)
qed

end
