(* ===== verification/Program_Start.thy ===== *)
theory Program_Start
  imports Harness
begin

text \<open>
  From the command line to the first cycle: the options, the program and its arguments, the
  symbols of the host interface and the boot code, composed as the main programs compose them.
  From there on, the schedule of the two ports of the pipeline in every run.
\<close>

section \<open>Options\<close>

text \<open>
  A step on the options that always succeeds when the parsed arguments are \<open>p\<close>, and that keeps
  them, the memory and the position of the program.
\<close>

definition smooth :: "ArgumentParser \<Rightarrow> (('p, 'd) sim, unit) prog \<Rightarrow> bool" where
  "smooth p m \<longleftrightarrow> (\<forall>s. sim_args s = p \<longrightarrow> (\<exists>s'. m s = (Inr (), s') \<and> sim_args s' = p \<and>
     sim_memory s' = sim_memory s \<and> binary_position s' = binary_position s))"

lemma smoothD:
  assumes "smooth p m" "sim_args s = p"
  obtains s' where "m s = (Inr (), s')" "sim_args s' = p" "sim_memory s' = sim_memory s"
    "binary_position s' = binary_position s"
  using assms unfolding smooth_def by blast

lemma smooth_bindM:
  assumes "smooth p m" "smooth p n"
  shows "smooth p (bindM m (\<lambda>_. n))"
  unfolding smooth_def
proof (intro allI impI)
  fix s :: "('a, 'b) sim"
  assume "sim_args s = p"
  with assms(1) obtain s1 where s1: "m s = (Inr (), s1)" "sim_args s1 = p" "sim_memory s1 = sim_memory s"
    "binary_position s1 = binary_position s" by (rule smoothD)
  with assms(2) obtain s2 where "n s1 = (Inr (), s2)" "sim_args s2 = p" "sim_memory s2 = sim_memory s1"
    "binary_position s2 = binary_position s1" by (elim smoothD)
  with s1 show "\<exists>s'. bindM m (\<lambda>_. n) s = (Inr (), s') \<and> sim_args s' = p \<and> sim_memory s' = sim_memory s \<and>
      binary_position s' = binary_position s" by (simp add: bindM_apply)
qed

lemma smooth_modify:
  "(\<And>s. sim_args (f s) = sim_args s \<and> sim_memory (f s) = sim_memory s \<and> binary_position (f s) = binary_position s) \<Longrightarrow>
     smooth p (modify f)"
  by (simp add: smooth_def modify_apply)

lemma smooth_ret: "smooth p (ret ())"
  by (simp add: smooth_def ret_apply)

lemma smooth_when_build: "smooth p m \<Longrightarrow> smooth p (when_build b m)"
  by (simp add: smooth_def when_build_def prog_simps)

lemma smooth_when_arg: "(found_arg name p \<Longrightarrow> smooth p m) \<Longrightarrow> smooth p (when_arg name m)"
  by (auto simp: smooth_def when_arg_def prog_simps)

text \<open>An option with a value: the value is there, and the action on it may depend on its contents.\<close>

lemma smooth_arg_value:
  assumes "found_arg name p" "\<And>v. get_arg name p = Inr v \<Longrightarrow> smooth p (k v)"
  shows "smooth p (bindM (arg_value name) k)"
proof -
  obtain v where "get_arg name p = Inr v" using assms(1) by (auto simp: found_arg_def get_arg_def)
  then show ?thesis using assms(2) by (auto simp: smooth_def arg_value_def prog_simps)
qed

lemma smooth_stoi: "stoi v = Inr i \<Longrightarrow> smooth p (k i) \<Longrightarrow> smooth p (bindM (of_sum (stoi v)) k)"
  by (simp add: smooth_def prog_simps)

text \<open>Options whose values are numbers where the code expects them.\<close>

definition options_ok :: "ArgumentParser \<Rightarrow> bool" where
  "options_ok p \<longleftrightarrow> \<not> found_arg ''--help'' p \<and>
     (\<forall>v. get_arg ''--timeout'' p = Inr v \<longrightarrow> \<not> isl (stoi v)) \<and>
     (\<forall>v. get_arg ''--memory-latency'' p = Inr v \<longrightarrow> \<not> isl (stoi v))"

lemma not_isl: "\<not> isl x \<Longrightarrow> \<exists>y. x = Inr y"
  by (cases x) simp_all

lemma smooth_number:
  assumes "\<forall>v. get_arg name p = Inr v \<longrightarrow> \<not> isl (stoi v)" "\<And>i. smooth p (k i)"
  shows "smooth p (when_arg name (bindM (arg_value name) (\<lambda>v. bindM (of_sum (stoi v)) k)))"
  using assms by (intro smooth_when_arg smooth_arg_value) (auto dest!: not_isl intro: smooth_stoi)

lemma Simulation_parse_args_ok:
  assumes "parse_args argv (sim_args s) = (Inr (), p)" "options_ok p"
  shows "\<exists>s'. Simulation_parse_args argv s = (Inr (), s') \<and> sim_args s' = p \<and> sim_memory s' = sim_memory s \<and>
    binary_position s' = binary_position s"
proof -
  let ?rest = "bindM (when_arg ''--timeout'' (bindM (arg_value ''--timeout'') (\<lambda>v. bindM (of_sum (stoi v)) (\<lambda>t.
       modify (\<lambda>s. s\<lparr>timeout := word_of_int t\<rparr>))))) (\<lambda>_.
     bindM (when_arg ''--coverage'' (bindM (arg_value ''--coverage'') (\<lambda>v.
       modify (\<lambda>s. s\<lparr>coverage_on := True, coverage_file := v\<rparr>)))) (\<lambda>_.
     bindM (when_build FST_ENABLE (when_arg ''--fst'' (bindM (arg_value ''--fst'') (\<lambda>v.
       modify (\<lambda>s. s\<lparr>fst_wave := (fst_wave s)\<lparr>wave_filename := v, wave_on := True\<rparr>\<rparr>))))) (\<lambda>_.
     bindM (when_build VCD_ENABLE (when_arg ''--vcd'' (bindM (arg_value ''--vcd'') (\<lambda>v.
       modify (\<lambda>s. s\<lparr>vcd_wave := (vcd_wave s)\<lparr>wave_filename := v, wave_on := True\<rparr>\<rparr>))))) (\<lambda>_.
     bindM (when_arg ''-v'' (modify (\<lambda>s. s\<lparr>log_level := 1\<rparr>))) (\<lambda>_.
     bindM (when_arg ''-vv'' (modify (\<lambda>s. s\<lparr>log_level := 2\<rparr>))) (\<lambda>_.
     when_arg ''--help'' (bindM (gets (\<lambda>s. print_help (sim_args s))) (\<lambda>t.
       bindM (print_to_stdout t) (\<lambda>_. fail (Exit 0))))))))))"
  have smooth: "smooth p ?rest"
    using assms(2) unfolding options_ok_def
    by (intro smooth_bindM smooth_number smooth_when_build smooth_when_arg smooth_arg_value smooth_modify) auto
  have run: "Simulation_parse_args argv s = ?rest (s\<lparr>sim_args := p\<rparr>)"
    using assms(1) by (simp add: Simulation_parse_args_def bindM_apply [of "zoom g h m" for g h m] zoom_apply)
  obtain s' where "?rest (s\<lparr>sim_args := p\<rparr>) = (Inr (), s')" "sim_args s' = p"
    "sim_memory s' = sim_memory s" "binary_position s' = binary_position s"
    by (rule smoothD [OF smooth, of "s\<lparr>sim_args := p\<rparr>"]) simp_all
  then show ?thesis unfolding run by blast
qed

section \<open>The program\<close>

definition sections_ok :: "elf_h \<Rightarrow> u8 list \<Rightarrow> Elf64_Ehdr \<Rightarrow> bool" where
  "sections_ok E bs h \<longleftrightarrow> (\<forall>i < unat (e_shnum h). header_in_file E bs h i \<and>
     (loaded E (section_header E bs h i) \<longrightarrow> section_in_file bs (section_header E bs h i) \<and>
        block_ok (section_block bs (section_header E bs h i))))"

text \<open>Memory after the loader: the arguments, overlaid by the sections with contents in the order of their table.\<close>

definition loaded_image :: "elf_h \<Rightarrow> u8 list \<Rightarrow> Elf64_Ehdr \<Rightarrow> data_block \<Rightarrow> (u64 \<Rightarrow> u8) \<Rightarrow> u64 \<Rightarrow> u8" where
  "loaded_image E bs h args M = fold store_block (map (section_block bs)
     (filter (loaded E) (map (section_header E bs h) [0..<unat (e_shnum h)]))) (store_block args M)"

lemma byte_at_host [simp]: "byte_at (m\<lparr>host := x\<rparr>) = byte_at m"
  by (cases m) (simp add: byte_at_def fun_eq_iff split: option.split)

lemma arguments_block_ok:
  assumes "12 + 8 * length argv + length (concat argv) < 1024"
  shows "\<exists>args. arguments junk argv = Inr args \<and> block_ok args"
proof -
  obtain b where b: "arguments junk argv = Inr b" "db_address b = 0" "length (db_data b) = 1024"
    "unat (db_num_bytes b) = 12 + 8 * length argv + length (concat argv)"
    using arguments_block [OF assms] by blast
  have "1 \<le> db_num_bytes b" using b(4) by (simp add: word_le_nat_alt)
  then have "unat (db_num_bytes b - 1) < 1024" using b(4) assms by (simp add: unat_sub)
  then show ?thesis using b assms by (auto simp: block_ok_def access_ok_def MAX_PHYSICAL_ADDRESS_def word_le_nat_alt)
qed

lemma entry_point_ok:
  assumes "fs path = Some bs" "sizeof_Ehdr E \<le> length bs"
    and "h = decode_Ehdr E (buf_slice bs 0 (sizeof_Ehdr E))" "e_machine h = EM_RISCV"
  shows "entry_point E junk fs path = Inr (e_entry h)"
  using get_elf_header_ok [OF assms(2-4), of junk] assms(1)
  by (simp add: entry_point_def open_file_def bindM_apply ret_apply)

lemma read_binary_ok:
  assumes "12 + 8 * length (prog # rest) + length (concat (prog # rest)) < 1024"
    and "fs prog = Some bs" "sizeof_Ehdr E \<le> length bs"
    and "h = decode_Ehdr E (buf_slice bs 0 (sizeof_Ehdr E))" "e_machine h = EM_RISCV" "sections_ok E bs h"
    and "symbol_location E junk fs prog ''tohost'' = Inr t" "symbol_location E junk fs prog ''fromhost'' = Inr f"
  shows "\<exists>args s'. arguments junk (prog # rest) = Inr args \<and> read_binary E junk fs (prog # rest) s = (Inr (), s') \<and>
    host (sim_memory s') = (host (sim_memory s))\<lparr>tohost := t, fromhost := f\<rparr> \<and> sim_entry_point s' = e_entry h \<and>
    byte_at (sim_memory s') = loaded_image E bs h args (byte_at (sim_memory s))"
proof -
  obtain args where args: "arguments junk (prog # rest) = Inr args" "block_ok args"
    using arguments_block_ok [OF assms(1)] by blast
  have "\<exists>m'. load_elf E junk fs (prog # rest) (sim_memory s) = (Inr (), m') \<and> host m' = host (sim_memory s) \<and>
      byte_at m' = fold store_block (map (section_block bs)
        (filter (loaded E) (map (section_header E bs h) [0..<unat (e_shnum h)]))) (store_block args (byte_at (sim_memory s)))"
    by (rule load_elf_ok) (use args assms(2-6) in \<open>auto simp: sections_ok_def\<close>)
  then obtain m' where m': "load_elf E junk fs (prog # rest) (sim_memory s) = (Inr (), m')"
    "host m' = host (sim_memory s)" "byte_at m' = loaded_image E bs h args (byte_at (sim_memory s))"
    by (auto simp: loaded_image_def)
  have "read_binary E junk fs (prog # rest) s = (Inr (), s\<lparr>sim_memory := m'\<lparr>host := (host m')\<lparr>tohost := t, fromhost := f\<rparr>\<rparr>,
      sim_entry_point := e_entry h\<rparr>)"
    using m'(1) entry_point_ok [where fs = fs and path = prog and junk = junk, OF assms(2-5)] assms(7,8)
    by (simp add: read_binary_def on_sim_memory_def prog_simps)
  then show ?thesis using args(1) m'(2,3) by simp
qed

lemma sim_parse_args_ok:
  assumes "parse_args argv (sim_args s) = (Inr (), p)" "options_ok p" "drop (args_parsed p) argv = prog # rest"
    and "\<not> (prog \<noteq> [] \<and> hd prog = CHR ''-'')"
  shows "\<exists>s1. sim_memory s1 = sim_memory s \<and> sim_parse_args E junk fs argv s = read_binary E junk fs (prog # rest) s1"
proof -
  have pos: "args_parsed p < length argv" "argv ! args_parsed p = prog"
    using assms(3) by (metis drop_all linorder_not_less list.discI, metis assms(3) hd_drop_conv_nth drop_all linorder_not_less list.discI list.sel(1))
  obtain s' where s': "Simulation_parse_args argv s = (Inr (), s')" "sim_args s' = p" "sim_memory s' = sim_memory s"
    using Simulation_parse_args_ok [OF assms(1,2)] by blast
  let ?rest = "bindM (when_arg ''--memory-latency'' (bindM (arg_value ''--memory-latency'') (\<lambda>v.
      bindM (of_sum (stoi v)) (\<lambda>l. modify (\<lambda>s. s\<lparr>main_memory_latency := l\<rparr>))))) (\<lambda>_.
    when_arg ''--csv'' (bindM (arg_value ''--csv'') (\<lambda>v. modify (\<lambda>s. s\<lparr>csv_filename := v, csv_on := True\<rparr>))))"
  have "smooth p ?rest"
    using assms(2) unfolding options_ok_def
    by (intro smooth_bindM smooth_number smooth_when_arg smooth_arg_value smooth_modify) auto
  then obtain s1 where s1: "?rest (s'\<lparr>binary_position := Some (args_parsed p)\<rparr>) = (Inr (), s1)"
    "sim_memory s1 = sim_memory s" "binary_position s1 = Some (args_parsed p)"
    by (rule smoothD [of p _ "s'\<lparr>binary_position := Some (args_parsed p)\<rparr>"]) (simp_all add: s')
  have "sim_parse_args E junk fs argv s = bindM ?rest (\<lambda>_. bindM (gets binary_position) (\<lambda>bp. case bp of
      None \<Rightarrow> fail Undefined | Some p \<Rightarrow> read_binary E junk fs (drop p argv))) (s'\<lparr>binary_position := Some (args_parsed p)\<rparr>)"
    using s' pos assms(4)
    by (auto simp: sim_parse_args_def bindM_eval [where m = "Simulation_parse_args argv", OF s'(1)] bindM_assoc
        get_args_parsed_def bindM_apply [of "gets f" for f] gets_apply bindM_apply [of "modify f" for f] modify_apply Let_def)
  also have "\<dots> = read_binary E junk fs (prog # rest) s1"
    using s1 assms(3) by (simp add: bindM_eval [where m = ?rest, OF s1(1)] bindM_apply gets_apply)
  finally show ?thesis using s1(2) by blast
qed

section \<open>The first cycle\<close>

lemma run_reset_ok:
  assumes "\<forall>a \<in> {0, 8, 16}. a \<noteq> tohost (host (sim_memory s)) \<and> a \<noteq> fromhost (host (sim_memory s))"
  shows "\<exists>s'. run_reset M s = (Inr (), s') \<and> host (sim_memory s') = host (sim_memory s) \<and>
    byte_at (sim_memory s') = poke (byte_at (sim_memory s)) 0
      (le_bytes 8 (0x0105350300000517 :: u64) @ le_bytes 8 (0x8502 :: u64) @ le_bytes 8 (sim_entry_point s))"
proof -
  let ?m = "bindM (modify (\<lambda>s. s\<lparr>sim_pc := 0\<rparr>)) (\<lambda>_. bindM trace_init (\<lambda>_. on_dut (sim_init M)))"
  obtain s1 where s1: "?m s = (Inr (), s1)" "sim_memory s1 = sim_memory s" "sim_entry_point s1 = sim_entry_point s"
    by (auto simp: prog_simps trace_init_def Simulation_trace_init_def on_waves_def)
  have "run_reset M s = sim_reset M s1"
    by (simp add: run_reset_def bindM_eval [where m = ?m, OF s1(1), where k = "\<lambda>_. sim_reset M", simplified bindM_assoc])
  then show ?thesis using sim_reset_boot [of s1 M] assms s1(2,3) by simp
qed

text \<open>
  C27: From the command line to the first cycle, for every design and both harnesses. Let the
  command line consist of options with proper values and of a program with its arguments, which
  fit into their block, and let the file be a well-formed executable whose symbols \<open>tohost\<close> and
  \<open>fromhost\<close> are not at the three boot words. Then the arguments are parsed, the program is loaded
  and reset ends without failure. Memory then holds the block of arguments, overlaid by exactly the
  sections that are to be loaded, overlaid by the boot code and the entry point of the
  executable in its first 24 bytes; every other byte is as it was when memory was constructed, and
  the two symbols are the addresses of the host interface.
\<close>

theorem program_starts:
  assumes "parse_args argv (sim_args s) = (Inr (), p)" "options_ok p" "drop (args_parsed p) argv = prog # rest"
    and "\<not> (prog \<noteq> [] \<and> hd prog = CHR ''-'')"
    and "12 + 8 * length (prog # rest) + length (concat (prog # rest)) < 1024"
    and "fs prog = Some bs" "sizeof_Ehdr E \<le> length bs"
    and "h = decode_Ehdr E (buf_slice bs 0 (sizeof_Ehdr E))" "e_machine h = EM_RISCV" "sections_ok E bs h"
    and "symbol_location E junk fs prog ''tohost'' = Inr t" "symbol_location E junk fs prog ''fromhost'' = Inr f"
    and "\<forall>a \<in> {0, 8, 16}. a \<noteq> t \<and> a \<noteq> f"
  shows "\<exists>args s1 s2. arguments junk (prog # rest) = Inr args \<and>
    sim_parse_args E junk fs argv s = (Inr (), s1) \<and> run_reset M s1 = (Inr (), s2) \<and>
    tohost (host (sim_memory s2)) = t \<and> fromhost (host (sim_memory s2)) = f \<and>
    byte_at (sim_memory s2) = poke (loaded_image E bs h args (byte_at (sim_memory s))) 0
      (le_bytes 8 (0x0105350300000517 :: u64) @ le_bytes 8 (0x8502 :: u64) @ le_bytes 8 (e_entry h))"
proof -
  obtain s0 where s0: "sim_memory s0 = sim_memory s" "sim_parse_args E junk fs argv s = read_binary E junk fs (prog # rest) s0"
    using sim_parse_args_ok [OF assms(1-4)] by blast
  obtain args s1 where s1: "arguments junk (prog # rest) = Inr args" "read_binary E junk fs (prog # rest) s0 = (Inr (), s1)"
    "host (sim_memory s1) = (host (sim_memory s0))\<lparr>tohost := t, fromhost := f\<rparr>" "sim_entry_point s1 = e_entry h"
    "byte_at (sim_memory s1) = loaded_image E bs h args (byte_at (sim_memory s))"
    using read_binary_ok [where fs = fs and prog = prog and s = s0, OF assms(5-12)] s0(1) by auto
  have "\<forall>a \<in> {0, 8, 16}. a \<noteq> tohost (host (sim_memory s1)) \<and> a \<noteq> fromhost (host (sim_memory s1))"
    using assms(13) s1(3) by simp
  from run_reset_ok [OF this, of M] show ?thesis using s0(2) s1 by auto
qed

text \<open>One option, a program and an argument; the symbols are missing, and their address is the largest one.\<close>

lemma example_line:
  assumes "sim_args s = simulation_args vcd_build ''idle''"
  shows "\<exists>p. parse_args [''-v'', ''a'', ''x''] (sim_args s) = (Inr (), p) \<and> args_parsed p = 1 \<and>
    args_found p = [(''-v'', [])]"
  by (simp add: assms parse_args_def simulation_args_def base_args_def add_argument_def set_description_def
      new_argument_parser_def vcd_build_def split_argument_def record_found_def)

lemma example_file:
  "([''a'' \<mapsto> [7, 9]] :: string \<rightharpoonup> u8 list) ''a'' = Some [7, 9]" "sizeof_Ehdr example_elf_h \<le> length [7, 9 :: u8]"
  "sections_ok example_elf_h [7, 9] example_header"
  using example_sections by (simp_all add: example_header_fields sections_ok_def)

lemma example_symbol: "symbol_location example_elf_h (\<lambda>_. 0) [''a'' \<mapsto> [7, 9]] ''a'' name = Inr (- 1)"
  using symbol_location_ok [where fs = "[''a'' \<mapsto> [7, 9]]" and path = "''a''" and name = name,
    OF example_file(1,2) example_header_def example_header_fields(1) example_no_tables]
  by (simp add: example_no_symbols)

lemma example_options: "args_found p = [(''-v'', [])] \<Longrightarrow> options_ok p"
  by (simp add: options_ok_def found_arg_def get_arg_def)

theorem program_starts_witness:
  "\<exists>args s1 s2. sim_parse_args example_elf_h (\<lambda>_. 0) [''a'' \<mapsto> [7, 9]] [''-v'', ''a'', ''x''] idle_sim = (Inr (), s1) \<and>
     run_reset idle_methods s1 = (Inr (), s2) \<and>
     byte_at (sim_memory s2) = poke (poke (store_block args (byte_at (sim_memory idle_sim))) 0x1000 [7, 9]) 0
       (le_bytes 8 (0x0105350300000517 :: u64) @ le_bytes 8 (0x8502 :: u64) @ le_bytes 8 (0x1000 :: u64))"
proof -
  obtain p where p: "parse_args [''-v'', ''a'', ''x''] (sim_args idle_sim) = (Inr (), p)" "args_parsed p = 1"
    "args_found p = [(''-v'', [])]"
    using example_line [of idle_sim] by (auto simp: idle_sim_def)
  have line: "drop (args_parsed p) [''-v'', ''a'', ''x''] = ''a'' # [''x'']" using p(2) by simp
  have image: "loaded_image example_elf_h [7, 9] example_header args M = poke (store_block args M) 0x1000 [7, 9]" for args M
    using example_section_block by (simp add: loaded_image_def example_header_fields store_block_def)
  from program_starts [where fs = "[''a'' \<mapsto> [7, 9]]" and M = idle_methods, OF p(1) example_options [OF p(3)] line _ _
      example_file(1,2) example_header_def example_header_fields(1) example_file(3) example_symbol example_symbol]
  show ?thesis by (simp add: image example_header_fields) blast
qed

section \<open>The ports in a run\<close>

text \<open>
  C29: In every run of the pipeline harness up to cycle \<open>2 ^ 52\<close>, after any command line and for any design, both ports keep
  the schedule of the memory port with its default latency of ten cycles: before cycle \<open>k\<close> there are at
  most eleven responses in each queue, none is due later than ten cycles from then, and the one at
  position \<open>i\<close> can still leave in the cycle after the one it is due in, so that every answer
  leaves at the latest eleven cycles after its request. The command line has no influence: parsing
  \<open>--memory-latency\<close> never reaches the ports, which were built before it.
\<close>

theorem pipeline_ports_keep_schedule:
  fixes eval :: "'d pipeline_signals_scheme \<Rightarrow> 'd pipeline_signals_scheme"
  assumes "sim_parse_args E junk fs argv (new_pipeline_simulation name u) = (r, s0)"
    and "before_cycle (pipeline_methods eval final) s0 k s" "k \<le> 2 ^ 52"
  shows "length (responses (instruction_port (sim_ports s))) \<le> 11 \<and>
    length (responses (data_port (sim_ports s))) \<le> 11 \<and>
    (\<forall>i < length (responses (instruction_port (sim_ports s))).
       k + i \<le> unat (resp_time (responses (instruction_port (sim_ports s)) ! i)) + 1 \<and>
       unat (resp_time (responses (instruction_port (sim_ports s)) ! i)) \<le> k + 10) \<and>
    (\<forall>i < length (responses (data_port (sim_ports s))).
       k + i \<le> unat (resp_time (responses (data_port (sim_ports s)) ! i)) + 1 \<and>
       unat (resp_time (responses (data_port (sim_ports s)) ! i)) \<le> k + 10)"
proof -
  have p: "sim_ports s0 = sim_ports (new_pipeline_simulation name u)" "half_cycles s0 = 0"
    using keepsD [OF keeps_sim_parse_args assms(1)] by (simp_all add: schedule_of_def new_pipeline_ports)
  obtain wi :: "'d instruction_world" and wd :: "'d data_world" where
    i: "port wi = instruction_port (sim_ports s)" "port_run (icache_methods sim_sys_calls) 10 k wi"
    and d: "port wd = data_port (sim_ports s)" "port_run (dcache_methods sim_sys_calls) 10 k wd"
    using pipeline_run_schedule [OF assms(2) p(2) assms(3)] by (auto simp: p(1) new_pipeline_ports)
  have k: "k < 2 ^ 63" using assms(3) by simp
  show ?thesis
    using icache.run_queue_bounds [OF i(2) k] dcache.run_queue_bounds [OF d(2) k]
    by (simp add: i(1) d(1))
qed

text \<open>A design that fetches the first word of the boot code in every half cycle.\<close>

definition fetching_signals :: pipeline_signals where
  "fetching_signals = idle_signals\<lparr>icache_req_valid := True\<rparr>"

lemma fetching_simps [simp]:
  "icache_req_valid fetching_signals" "icache_req_atp fetching_signals = 0" "icache_req_pc fetching_signals = 0"
  "\<not> dcache_req_valid fetching_signals"
  by (simp_all add: fetching_signals_def idle_signals_def)

lemma fetching_second_half:
  assumes "sim_ports s = \<lparr>instruction_port = new_instruction_cache_port c 10, data_port = d\<rparr>" "half_cycles s = 0"
  shows "\<exists>s'. pipeline_second_half (\<lambda>_. fetching_signals) s = (Inr (), s') \<and>
    map resp_time (responses (instruction_port (sim_ports s'))) = [10] \<and>
    map resp_data (responses (instruction_port (sim_ports s'))) = [le_word (peek (byte_at (sim_memory s)) 0 4)]"
proof -
  let ?w = "\<lparr>port = new_instruction_cache_port 0 10, dut = fetching_signals, memory = sim_memory s\<rparr>"
  have "atp_mode 0 = ATP_MODE_BARE" by (simp add: atp_mode_def atp_mode_of_def)
  then have w': "icache_get_request sim_sys_calls ?w = (Inr (), ?w\<lparr>memory := touch_span 4 0 (sim_memory s),
      port := queued (port ?w) (le_word (peek (byte_at (sim_memory s)) 0 4)) EXC_CAUSE_NONE\<rparr>)"
    using access_ok_low [of 0]
    by (simp add: icache_get_request_def icache_can_receive_request_def icache_translate_def prog_simps read32_eq)
  show ?thesis
    using w' assms
    by (simp add: pipeline_second_half_def on_instruction_port_def on_data_port_def MemoryPort_get_inputs_def
        icache_methods_def dcache_methods_def icache_can_receive_request_def dcache_can_receive_request_def set_cycle_def
        prog_simps new_instruction_cache_port_def new_memory_port_def response_due_def simulation_time_def split_beta)
qed

lemma fetching_start:
  assumes "host (sim_memory s) = h\<lparr>tohost := - 1, fromhost := - 1\<rparr>" "half_cycles s = 0"
    and "sim_ports s = \<lparr>instruction_port = new_instruction_cache_port c 10, data_port = d\<rparr>"
  shows "\<exists>s'. before_cycle (pipeline_methods (\<lambda>_. fetching_signals) (\<lambda>d. d)) s 0 s' \<and>
    map resp_time (responses (instruction_port (sim_ports s'))) = [10]"
proof -
  let ?M = "pipeline_methods (\<lambda>_. fetching_signals) (\<lambda>d. d)"
  from run_reset_ok [of s ?M] assms(1) obtain s1 where s1: "run_reset ?M s = (Inr (), s1)" by auto
  have "keeps schedule_of (run_reset ?M)" unfolding run_reset_def by (intro keeps_intros) (simp_all add: schedule_of_def)
  from keepsD [OF this s1] assms(2,3) have
    "sim_ports s1 = \<lparr>instruction_port = new_instruction_cache_port c 10, data_port = d\<rparr>" "half_cycles s1 = 0"
    by (simp_all add: schedule_of_def)
  from fetching_second_half [OF this] obtain s' where
    s': "pipeline_second_half (\<lambda>_. fetching_signals) s1 = (Inr (), s')"
      "map resp_time (responses (instruction_port (sim_ports s'))) = [10]" by metis
  have "run_start ?M s = (Inr (), s')"
    using s'(1) by (simp add: run_start_def bindM_eval [where m = "run_reset ?M", OF s1]) (simp add: pipeline_methods_def)
  from before_cycle.started [OF this] s'(2) show ?thesis by (intro exI [of _ s'] conjI)
qed

theorem pipeline_ports_keep_schedule_witness:
  "\<exists>s0 s. sim_parse_args example_elf_h (\<lambda>_. 0) [''a'' \<mapsto> [7, 9]] [''-v'', ''a'', ''x'']
       (new_pipeline_simulation ''idle'' idle_pipeline) = (Inr (), s0) \<and>
     before_cycle (pipeline_methods (\<lambda>_. fetching_signals) (\<lambda>d. d)) s0 0 s \<and>
     length (responses (instruction_port (sim_ports s))) = 1 \<and>
     0 + 0 \<le> unat (resp_time (responses (instruction_port (sim_ports s)) ! 0)) + 1 \<and>
     unat (resp_time (responses (instruction_port (sim_ports s)) ! 0)) \<le> 0 + 10"
proof -
  let ?n = "new_pipeline_simulation ''idle'' idle_pipeline"
  have args: "sim_args ?n = simulation_args vcd_build ''idle''"
    by (simp add: new_pipeline_simulation_def new_simulation_def new_Simulation_def idle_pipeline_def Let_def)
  obtain p where p: "parse_args [''-v'', ''a'', ''x''] (sim_args ?n) = (Inr (), p)" "args_parsed p = 1"
    "args_found p = [(''-v'', [])]" using example_line [OF args] by blast
  have line: "drop (args_parsed p) [''-v'', ''a'', ''x''] = ''a'' # [''x'']" using p(2) by simp
  obtain s1 where s1: "sim_parse_args example_elf_h (\<lambda>_. 0) [''a'' \<mapsto> [7, 9]] [''-v'', ''a'', ''x''] ?n =
      read_binary example_elf_h (\<lambda>_. 0) [''a'' \<mapsto> [7, 9]] [''a'', ''x''] s1"
    using sim_parse_args_ok [OF p(1) example_options [OF p(3)] line, where E = example_elf_h and junk = "\<lambda>_. 0" and
        fs = "[''a'' \<mapsto> [7, 9]]"] by auto
  obtain s0 where s0: "read_binary example_elf_h (\<lambda>_. 0) [''a'' \<mapsto> [7, 9]] [''a'', ''x''] s1 = (Inr (), s0)"
    "host (sim_memory s0) = (host (sim_memory s1))\<lparr>tohost := - 1, fromhost := - 1\<rparr>"
    using read_binary_ok [where fs = "[''a'' \<mapsto> [7, 9]]" and prog = "''a''" and rest = "[''x'']" and s = s1, OF _
        example_file(1,2) example_header_def example_header_fields(1) example_file(3) example_symbol example_symbol] by auto
  note parsed = s1 [unfolded s0(1)]
  have "schedule_of s0 = schedule_of ?n" by (rule keepsD [OF keeps_sim_parse_args parsed])
  then have "half_cycles s0 = 0" "sim_ports s0 = \<lparr>instruction_port = new_instruction_cache_port 0 10,
      data_port = data_port (sim_ports ?n)\<rparr>"
    by (simp_all add: schedule_of_def new_pipeline_simulation_def new_simulation_def new_Simulation_def idle_pipeline_def
        new_instruction_cache_port_def new_memory_port_def Let_def)
  from fetching_start [OF s0(2) this] obtain s where
    s: "before_cycle (pipeline_methods (\<lambda>_. fetching_signals) (\<lambda>d. d)) s0 0 s"
      "map resp_time (responses (instruction_port (sim_ports s))) = [10]" by metis
  have one: "length (responses (instruction_port (sim_ports s))) = 1"
    using arg_cong [OF s(2), of length] by simp
  from pipeline_ports_keep_schedule [OF parsed s(1)] have "\<forall>i < 1.
      0 + i \<le> unat (resp_time (responses (instruction_port (sim_ports s)) ! i)) + 1 \<and>
      unat (resp_time (responses (instruction_port (sim_ports s)) ! i)) \<le> 0 + 10"
    unfolding one by simp
  then have "0 + 0 \<le> unat (resp_time (responses (instruction_port (sim_ports s)) ! 0)) + 1 \<and>
      unat (resp_time (responses (instruction_port (sim_ports s)) ! 0)) \<le> 0 + 10" by simp
  with parsed s(1) one show ?thesis by blast
qed

end
