(* ===== verification/TL_Types.thy ===== *)
theory TL_Types
  imports Muntjac_Prelude "HOL-Library.Signed_Division"
begin

text \<open>
  The vocabulary of the TileLink traffic generator: the messages of the five channels
  (\<open>tilelink.h\<close>), the random choices (\<open>tl_random.h\<close>) and the arithmetic on addresses, sizes
  and masks at the start of \<open>tl_messages.cc\<close>. The C library's \<open>rand\<close> is a sequence of
  values with the position of the next one.
\<close>

section \<open>Messages\<close>

datatype tl_protocol_e = TL_UL | TL_UH | TL_C_IO_TERM | TL_C_ROM_TERM | TL_C

fun protocol_value :: "tl_protocol_e \<Rightarrow> int" where
  "protocol_value TL_UL = 0"
| "protocol_value TL_UH = 1"
| "protocol_value TL_C_IO_TERM = 2"
| "protocol_value TL_C_ROM_TERM = 3"
| "protocol_value TL_C = 4"

text \<open>
  Opcodes. A cast from an integer can give a value that has no name; each enumeration has a
  constructor for these.
\<close>

datatype tl_a_op_e =
    PutFullData | PutPartialData | ArithmeticData | LogicalData | Get | Intent
  | AcquireBlock | AcquirePerm | A_unnamed int

datatype tl_b_op_e = ProbeBlock | ProbePerm | B_unnamed int

datatype tl_c_op_e = ProbeAck | ProbeAckData | Release | ReleaseData | C_unnamed int

datatype tl_d_op_e =
    AccessAck | AccessAckData | HintAck | Grant | GrantData | ReleaseAck | D_unnamed int

definition a_op_of :: "int \<Rightarrow> tl_a_op_e" where
  "a_op_of i =
     (if i = 0 then PutFullData else if i = 1 then PutPartialData else if i = 2 then ArithmeticData
      else if i = 3 then LogicalData else if i = 4 then Get else if i = 5 then Intent
      else if i = 6 then AcquireBlock else if i = 7 then AcquirePerm else A_unnamed i)"

definition b_op_of :: "int \<Rightarrow> tl_b_op_e" where
  "b_op_of i = (if i = 6 then ProbeBlock else if i = 7 then ProbePerm else B_unnamed i)"

definition c_op_of :: "int \<Rightarrow> tl_c_op_e" where
  "c_op_of i =
     (if i = 4 then ProbeAck else if i = 5 then ProbeAckData else if i = 6 then Release
      else if i = 7 then ReleaseData else C_unnamed i)"

definition d_op_of :: "int \<Rightarrow> tl_d_op_e" where
  "d_op_of i =
     (if i = 0 then AccessAck else if i = 1 then AccessAckData else if i = 2 then HintAck
      else if i = 4 then Grant else if i = 5 then GrantData else if i = 6 then ReleaseAck
      else D_unnamed i)"

record tl_a =
  a_opcode :: tl_a_op_e
  a_param :: int
  a_size :: int
  a_source :: int
  a_address :: u64
  a_mask :: int
  a_corrupt :: bool
  a_data :: u64

record tl_b =
  b_opcode :: tl_b_op_e
  b_param :: int
  b_size :: int
  b_source :: int
  b_address :: u64

record tl_c =
  c_opcode :: tl_c_op_e
  c_param :: int
  c_size :: int
  c_source :: int
  c_address :: u64
  c_corrupt :: bool
  c_data :: u64

record tl_d =
  d_opcode :: tl_d_op_e
  d_param :: int
  d_size :: int
  d_source :: int
  d_sink :: int
  d_denied :: bool
  d_corrupt :: bool
  d_data :: u64

record tl_e =
  e_sink :: int

section \<open>Random choices\<close>

text \<open>
  \<open>rand_values i\<close> is what the \<open>i\<close>-th call of \<open>rand\<close> returns. \<open>rounds\<close> bounds the loops that
  draw until they succeed.
\<close>

record rng =
  rand_values :: "nat \<Rightarrow> nat"
  rand_next :: nat
  rounds :: nat

definition rand :: "(rng, int) prog" where
  "rand = (\<lambda>g. (Inr (int (rand_values g (rand_next g))), g\<lparr>rand_next := rand_next g + 1\<rparr>))"

definition random_sample :: "int \<Rightarrow> int \<Rightarrow> (rng, int) prog" where
  "random_sample mn mx =
     (if mx - mn + 1 = 0 then fail Undefined
      else bindM rand (\<lambda>r. ret (mn + r mod \<bar>mx - mn + 1\<bar>)))"

text \<open>
  The probability is given in thousandths: \<open>1000 * prob_true\<close> is a whole number for every
  probability in the sources.
\<close>

definition random_bool :: "int \<Rightarrow> (rng, bool) prog" where
  "random_bool thousandths = bindM rand (\<lambda>r. ret (r mod 1000 < thousandths))"

definition pick :: "'a list \<Rightarrow> (rng, 'a) prog" where
  "pick xs = bindM (random_sample 0 (int (length xs) - 1)) (\<lambda>i. ret (xs ! nat i))"

definition random_a_opcode :: "tl_protocol_e \<Rightarrow> (rng, tl_a_op_e) prog" where
  "random_a_opcode protocol =
     (case protocol of
        TL_UL \<Rightarrow> pick [PutFullData, PutPartialData, Get]
      | TL_UH \<Rightarrow> pick [PutFullData, PutPartialData, Get, ArithmeticData, LogicalData, Intent]
      | _ \<Rightarrow> pick [PutFullData, PutPartialData, Get, ArithmeticData, LogicalData, Intent,
               AcquireBlock, AcquirePerm])"

definition random_b_opcode :: "tl_protocol_e \<Rightarrow> (rng, tl_b_op_e) prog" where
  "random_b_opcode protocol =
     (if protocol \<noteq> TL_C then fail Assertion
      else bindM (random_sample 6 7) (\<lambda>i. ret (b_op_of i)))"

definition random_c_opcode :: "tl_protocol_e \<Rightarrow> (rng, tl_c_op_e) prog" where
  "random_c_opcode protocol =
     (case protocol of
        TL_C_ROM_TERM \<Rightarrow> pick [Release]
      | TL_C \<Rightarrow> pick [Release, ReleaseData]
      | _ \<Rightarrow> fail Assertion)"

definition random_arithmetic_data_param :: "(rng, int) prog" where
  "random_arithmetic_data_param = random_sample 0 4"

definition random_logical_data_param :: "(rng, int) prog" where
  "random_logical_data_param = random_sample 0 3"

definition random_intent_param :: "(rng, int) prog" where
  "random_intent_param = random_sample 0 1"

definition random_cap_permission :: "(rng, int) prog" where
  "random_cap_permission = random_sample 0 2"

definition random_grow_permission :: "(rng, int) prog" where
  "random_grow_permission = random_sample 0 2"

definition random_prune_permission :: "(rng, int) prog" where
  "random_prune_permission = random_sample 0 2"

definition random_report_permission :: "(rng, int) prog" where
  "random_report_permission = random_sample 3 5"

section \<open>Addresses, sizes and masks\<close>

text \<open>\<open>1 << n\<close> on a 32-bit \<open>int\<close>: defined while the result is representable.\<close>

definition one_shl :: "int \<Rightarrow> failure + int" where
  "one_shl n = (if 0 \<le> n \<and> n \<le> 30 then Inr (2 ^ nat n) else Inl Undefined)"

definition max_common_protocol :: "tl_protocol_e \<Rightarrow> tl_protocol_e \<Rightarrow> tl_protocol_e" where
  "max_common_protocol p1 p2 = (if protocol_value p1 > protocol_value p2 then p2 else p1)"

definition get_address :: "u64 \<Rightarrow> int \<Rightarrow> failure + u64" where
  "get_address address device =
     (if - (2 ^ 31) \<le> device * 0x10000000 \<and> device * 0x10000000 < 2 ^ 31
      then Inr (address + word_of_int (device * 0x10000000)) else Inl Undefined)"

definition align_address :: "u64 \<Rightarrow> u64 \<Rightarrow> failure + u64" where
  "align_address address unit =
     (if unit = 0 then Inl Undefined else Inr (address - address mod unit))"

definition bind_sum :: "failure + 'a \<Rightarrow> ('a \<Rightarrow> failure + 'b) \<Rightarrow> failure + 'b" where
  "bind_sum x k = (case x of Inl e \<Rightarrow> Inl e | Inr y \<Rightarrow> k y)"

definition complete_mask :: "u64 \<Rightarrow> int \<Rightarrow> int \<Rightarrow> failure + u64" where
  "complete_mask address size_bytes channel_bytes =
     (if size_bytes \<ge> channel_bytes
      then bind_sum (one_shl channel_bytes) (\<lambda>m. Inr (word_of_int (m - 1)))
      else if channel_bytes = 0 then Inl Undefined
      else bind_sum (one_shl size_bytes) (\<lambda>m.
        let shift = unat (address mod word_of_int channel_bytes) in
        if shift < 64 then Inr (push_bit shift (word_of_int (m - 1))) else Inl Undefined))"

definition full_mask :: "int \<Rightarrow> failure + int" where
  "full_mask size' = bind_sum (one_shl size') (\<lambda>num_bytes.
     bind_sum (one_shl num_bytes) (\<lambda>m. Inr (m - 1)))"

definition size_to_bytes :: "int \<Rightarrow> failure + int" where
  "size_to_bytes size' = one_shl size'"

definition size_to_bits :: "int \<Rightarrow> failure + int" where
  "size_to_bits size' = bind_sum (size_to_bytes size') (\<lambda>b.
     if 8 * b < 2 ^ 31 then Inr (8 * b) else Inl Undefined)"

fun ilog2 :: "nat \<Rightarrow> nat" where
  "ilog2 n = (if n < 2 then 0 else Suc (ilog2 (n div 2)))"

declare ilog2.simps [simp del]

definition bits_to_size :: "int \<Rightarrow> failure + int" where
  "bits_to_size bits =
     (if bits sdiv 8 \<le> 0 then Inl Undefined else Inr (int (ilog2 (nat (bits sdiv 8)))))"

text \<open>The number of beats of a message with or without a payload.\<close>

definition payload_beats :: "bool \<Rightarrow> int \<Rightarrow> int \<Rightarrow> failure + int" where
  "payload_beats payload size' channel_width_bytes =
     (if payload then
        bind_sum (one_shl size') (\<lambda>b.
          if channel_width_bytes = 0 then Inl Undefined else Inr (max 1 (b sdiv channel_width_bytes)))
      else Inr 1)"

fun has_payload_a :: "tl_a_op_e \<Rightarrow> bool" where
  "has_payload_a opcode \<longleftrightarrow>
     opcode = PutFullData \<or> opcode = PutPartialData \<or> opcode = ArithmeticData \<or> opcode = LogicalData"

fun has_payload_b :: "tl_b_op_e \<Rightarrow> bool" where
  "has_payload_b opcode = False"

fun has_payload_c :: "tl_c_op_e \<Rightarrow> bool" where
  "has_payload_c opcode \<longleftrightarrow> opcode = ProbeAckData \<or> opcode = ReleaseData"

fun has_payload_d :: "tl_d_op_e \<Rightarrow> bool" where
  "has_payload_d opcode \<longleftrightarrow> opcode = AccessAckData \<or> opcode = GrantData"

fun requires_response_a :: "tl_a_op_e \<Rightarrow> bool" where
  "requires_response_a opcode = True"

fun requires_response_b :: "tl_b_op_e \<Rightarrow> bool" where
  "requires_response_b opcode = True"

fun requires_response_c :: "tl_c_op_e \<Rightarrow> bool" where
  "requires_response_c opcode \<longleftrightarrow> opcode = Release \<or> opcode = ReleaseData"

fun requires_response_d :: "tl_d_op_e \<Rightarrow> bool" where
  "requires_response_d opcode \<longleftrightarrow> opcode = Grant \<or> opcode = GrantData"

definition num_beats_a :: "tl_a_op_e \<Rightarrow> int \<Rightarrow> int \<Rightarrow> failure + int" where
  "num_beats_a opcode = payload_beats (has_payload_a opcode)"

definition num_beats_b :: "tl_b_op_e \<Rightarrow> int \<Rightarrow> int \<Rightarrow> failure + int" where
  "num_beats_b opcode = payload_beats (has_payload_b opcode)"

definition num_beats_c :: "tl_c_op_e \<Rightarrow> int \<Rightarrow> int \<Rightarrow> failure + int" where
  "num_beats_c opcode = payload_beats (has_payload_c opcode)"

definition num_beats_d :: "tl_d_op_e \<Rightarrow> int \<Rightarrow> int \<Rightarrow> failure + int" where
  "num_beats_d opcode = payload_beats (has_payload_d opcode)"

end
