(* ===== verification/TL_Endpoints.thy ===== *)
theory TL_Endpoints
  imports TL_Types
begin

text \<open>
  What the ends of all TileLink channels have in common (\<open>tl_channels.h\<close>, \<open>tl_messages.h\<close>):
  routing tables, the parameters of hosts and devices, the counters of a message, and the
  sender with its transaction identifiers. The signals of the design that belong to a channel
  end are kept with it: each signal is indexed by the position of one host or device.
\<close>

section \<open>Routing\<close>

record RoutingTable =
  rt_base :: "int list"
  rt_mask :: "int list"
  rt_target :: "int list"

definition new_RoutingTable :: "int list \<Rightarrow> int list \<Rightarrow> int list \<Rightarrow> failure + RoutingTable" where
  "new_RoutingTable bs ms ts =
     (if length bs = length ms \<and> length bs = length ts
      then Inr \<lparr>rt_base = bs, rt_mask = ms, rt_target = ts\<rparr> else Inl Assertion)"

fun owner_loop :: "int \<Rightarrow> int list \<Rightarrow> int list \<Rightarrow> int list \<Rightarrow> int \<Rightarrow> int" where
  "owner_loop i (b # bs) (m # ms) (t # ts) owner =
     owner_loop i bs ms ts (if i AND NOT m = b then t else owner)"
| "owner_loop i _ _ _ owner = owner"

definition get_owner :: "RoutingTable \<Rightarrow> int \<Rightarrow> int" where
  "get_owner rt i = owner_loop i (rt_base rt) (rt_mask rt) (rt_target rt) 0"

text \<open>The search of \<open>get_any_id\<close>: identifiers from \<open>i\<close> on, \<open>n\<close> of them left.\<close>

fun any_id_loop :: "RoutingTable \<Rightarrow> int \<Rightarrow> nat \<Rightarrow> int \<Rightarrow> failure + int" where
  "any_id_loop rt link 0 i = Inl Assertion"
| "any_id_loop rt link (Suc n) i =
     (if get_owner rt i = link then Inr i else any_id_loop rt link n (i + 1))"

definition get_any_id :: "RoutingTable \<Rightarrow> int \<Rightarrow> failure + int" where
  "get_any_id rt link = any_id_loop rt link 1024 0"

section \<open>Hosts and devices\<close>

record endpoint =
  ep_position :: int
  ep_protocol :: tl_protocol_e
  ep_bit_width :: int
  ep_first_id :: int
  ep_last_id :: int
  ep_max_size :: int
  ep_fifo :: bool
  ep_can_deny :: bool
  ep_routing :: RoutingTable

text \<open>
  The parts of the whole simulation that single channels look at, and the value of the data
  field of a request that is never assigned.
\<close>

record network =
  net_hosts :: "endpoint list"
  net_devices :: "endpoint list"
  net_garbage :: u64

definition get_b_id :: "endpoint \<Rightarrow> int \<Rightarrow> u64 \<Rightarrow> int" where
  "get_b_id device source_id address =
     uint (address AND 0xFFF) + push_bit 16 (get_owner (ep_routing device) source_id)"

definition device_get_routing_id :: "endpoint \<Rightarrow> int \<Rightarrow> failure + int" where
  "device_get_routing_id device position = get_any_id (ep_routing device) position"

definition beat_size :: "endpoint \<Rightarrow> failure + int" where
  "beat_size ep = bits_to_size (ep_bit_width ep)"

text \<open>The number of beats as a receiver counts them.\<close>

definition channel_num_beats :: "endpoint \<Rightarrow> int \<Rightarrow> failure + int" where
  "channel_num_beats ep size' =
     bind_sum (size_to_bits size') (\<lambda>total_bits.
       let beat_bits = ep_bit_width ep in
       if total_bits > beat_bits
       then (if beat_bits = 0 then Inl Undefined else Inr (total_bits sdiv beat_bits))
       else Inr 1)"

section \<open>Message counters\<close>

record 'c tl_message =
  channel_width_bytes :: int
  beats_to_send :: int
  beats_ready :: int
  beats_generated :: int
  header :: 'c

definition new_message_base :: "int \<Rightarrow> int \<Rightarrow> int \<Rightarrow> 'c \<Rightarrow> failure + 'c tl_message" where
  "new_message_base width num_beats ready h =
     (if num_beats > 0 \<and> ready \<ge> 0 \<and> num_beats \<ge> ready \<and> width > 0
      then Inr \<lparr>channel_width_bytes = width, beats_to_send = num_beats, beats_ready = ready,
        beats_generated = 0, header = h\<rparr>
      else Inl Assertion)"

definition in_progress :: "('c, 'z) tl_message_scheme \<Rightarrow> bool" where
  "in_progress m \<longleftrightarrow> beats_generated m > 0"

definition can_send :: "('c, 'z) tl_message_scheme \<Rightarrow> bool" where
  "can_send m \<longleftrightarrow> beats_generated m < beats_ready m"

definition finished :: "('c, 'z) tl_message_scheme \<Rightarrow> bool" where
  "finished m \<longleftrightarrow> beats_to_send m = beats_generated m"

definition complete :: "('c, 'z) tl_message_scheme \<Rightarrow> bool" where
  "complete m \<longleftrightarrow> beats_to_send m = beats_ready m"

definition unsend :: "('c, 'z) tl_message_scheme \<Rightarrow> ('c, 'z) tl_message_scheme" where
  "unsend m = m\<lparr>beats_generated := beats_generated m - 1\<rparr>"

definition new_beat_ready :: "('c, 'z) tl_message_scheme \<Rightarrow> failure + ('c, 'z) tl_message_scheme" where
  "new_beat_ready m =
     (if beats_ready m < beats_to_send m then Inr (m\<lparr>beats_ready := beats_ready m + 1\<rparr>)
      else Inl Assertion)"

section \<open>Senders\<close>

record 'c wires =
  wire_valid :: bool
  wire_ready :: bool
  wire_data :: 'c

type_synonym updates = "string \<rightharpoonup> int"

record 'c sender =
  parent :: endpoint
  ids_in_use :: "int set"
  to_send :: "'c tl_message list"
  modifications :: "updates list"
  beat_accepted :: bool
  channel :: "'c wires"

text \<open>A program of a channel end: it draws random values and works on its own state.\<close>

type_synonym ('s, 'a) tl = "(rng \<times> 's, 'a) prog"

definition randomly :: "(rng, 'a) prog \<Rightarrow> ('s, 'a) tl" where
  "randomly m = (\<lambda>(g, s). case m g of (r, g') \<Rightarrow> (r, (g', s)))"

definition own :: "('s \<Rightarrow> 'a) \<Rightarrow> ('s, 'a) tl" where
  "own f = gets (\<lambda>(g, s). f s)"

definition change :: "('s \<Rightarrow> 's) \<Rightarrow> ('s, unit) tl" where
  "change f = modify (\<lambda>(g, s). (g, f s))"

definition part :: "('s \<Rightarrow> 't) \<Rightarrow> ('t \<Rightarrow> 's \<Rightarrow> 's) \<Rightarrow> ('t, 'a) tl \<Rightarrow> ('s, 'a) tl" where
  "part get put m = (\<lambda>(g, s). case m (g, get s) of (r, (g', t)) \<Rightarrow> (r, (g', put t s)))"

lemma randomly_apply [prog_simps]: "randomly m (g, s) = (case m g of (r, g') \<Rightarrow> (r, (g', s)))"
  by (simp add: randomly_def)

lemma own_apply [prog_simps]: "own f (g, s) = (Inr (f s), (g, s))"
  by (simp add: own_def gets_apply)

lemma change_apply [prog_simps]: "change f (g, s) = (Inr (), (g, f s))"
  by (simp add: change_def modify_apply)

lemma part_apply [prog_simps]:
  "part get put m (g, s) = (case m (g, get s) of (r, (g', t)) \<Rightarrow> (r, (g', put t s)))"
  by (simp add: part_def)

definition new_sender :: "endpoint \<Rightarrow> 'c wires \<Rightarrow> 'c sender" where
  "new_sender ep w =
     \<lparr>parent = ep, ids_in_use = {}, to_send = [], modifications = [], beat_accepted = False, channel = w\<rparr>"

definition change_next_beat :: "updates \<Rightarrow> ('c, 'z) sender_scheme \<Rightarrow> ('c, 'z) sender_scheme" where
  "change_next_beat u s = s\<lparr>modifications := modifications s @ [u]\<rparr>"

definition set_valid :: "bool \<Rightarrow> ('c, 'z) sender_scheme \<Rightarrow> ('c, 'z) sender_scheme" where
  "set_valid v s = s\<lparr>channel := (channel s)\<lparr>wire_valid := v\<rparr>\<rparr>"

text \<open>
  The fields are assigned to input ports of the design, which are as wide as the design makes them; the
  generated types hold at least the values that are legal TileLink, in particular sizes up to 15. The
  model keeps the fields as they are, so that its results are about messages whose fields fit their ports.
\<close>

definition set_data :: "'c \<Rightarrow> ('c, 'z) sender_scheme \<Rightarrow> ('c, 'z) sender_scheme" where
  "set_data d s = s\<lparr>channel := (channel s)\<lparr>wire_data := d\<rparr>\<rparr>"

definition get_valid :: "('c, 'z) sender_scheme \<Rightarrow> bool" where
  "get_valid s = wire_valid (channel s)"

definition get_ready :: "('c, 'z) sender_scheme \<Rightarrow> bool" where
  "get_ready s = wire_ready (channel s)"

subsection \<open>Transaction identifiers\<close>

definition id_range :: "endpoint \<Rightarrow> int" where
  "id_range ep = ep_last_id ep - ep_first_id ep + 1"

text \<open>
  \<open>ids_in_use.size()\<close> is unsigned, so the comparison is one of unsigned 64-bit values: a
  negative range counts as a huge one.
\<close>

definition can_start_new_transaction :: "('c, 'z) sender_scheme \<Rightarrow> bool" where
  "can_start_new_transaction s \<longleftrightarrow>
     int (card (ids_in_use s)) < id_range (parent s) mod 2 ^ 64"

definition transaction_id_available :: "('c, 'z) sender_scheme \<Rightarrow> int \<Rightarrow> bool" where
  "transaction_id_available s i \<longleftrightarrow> i \<notin> ids_in_use s"

definition random_id :: "endpoint \<Rightarrow> (rng, int) prog" where
  "random_id ep =
     (if id_range ep = 0 then fail Undefined
      else bindM rand (\<lambda>r. ret (ep_first_id ep + r mod \<bar>id_range ep\<bar>)))"

fun draw_id :: "nat \<Rightarrow> (('c, 'z) sender_scheme, int) tl" where
  "draw_id 0 = fail Unbounded"
| "draw_id (Suc n) =
     bindM (own parent) (\<lambda>ep.
     bindM (randomly (random_id ep)) (\<lambda>i.
     bindM (own (\<lambda>s. transaction_id_available s i)) (\<lambda>free.
     if free then ret i else draw_id n)))"

text \<open>The search for the first free identifier, with \<open>n\<close> candidates left.\<close>

fun first_free_id :: "int set \<Rightarrow> nat \<Rightarrow> int \<Rightarrow> failure + int" where
  "first_free_id used 0 i = Inl Assertion"
| "first_free_id used (Suc n) i = (if i \<notin> used then Inr i else first_free_id used n (i + 1))"

definition get_transaction_id :: "bool \<Rightarrow> (('c, 'z) sender_scheme, int) tl" where
  "get_transaction_id randomise =
     bindM (own can_start_new_transaction) (\<lambda>can_start.
     if \<not> can_start then fail (Throw NoAvailableIDException)
     else if randomise then bindM (gets (\<lambda>(g, s). rounds g)) draw_id
     else bindM (own (\<lambda>s. first_free_id (ids_in_use s) (nat (id_range (parent s))) (ep_first_id (parent s)))) of_sum)"

definition get_routing_id :: "bool \<Rightarrow> (('c, 'z) sender_scheme, int) tl" where
  "get_routing_id randomise =
     bindM (own parent) (\<lambda>ep. if randomise then randomly (random_id ep) else ret (ep_first_id ep))"

definition start_transaction :: "int \<Rightarrow> (('c, 'z) sender_scheme, unit) tl" where
  "start_transaction i =
     bindM (own (\<lambda>s. transaction_id_available s i)) (\<lambda>free.
     bindM (assertM free) (\<lambda>_.
     change (\<lambda>s. s\<lparr>ids_in_use := insert i (ids_in_use s)\<rparr>)))"

definition end_transaction :: "int \<Rightarrow> (('c, 'z) sender_scheme, unit) tl" where
  "end_transaction i =
     bindM (own (\<lambda>s. transaction_id_available s i)) (\<lambda>free.
     bindM (assertM (\<not> free)) (\<lambda>_.
     change (\<lambda>s. s\<lparr>ids_in_use := ids_in_use s - {i}\<rparr>)))"

end
