(* ===== verification/TL_Messages.thy ===== *)
theory TL_Messages
  imports TL_Endpoints
begin

text \<open>
  The messages of the five channels (\<open>tl_messages.cc\<close>): requests made up at random or with
  default contents, responses to requests of another channel, the beats of a message one
  after the other, and the modification of single fields. Operands of one expression that
  both draw random values are evaluated from left to right.
\<close>

section \<open>Shared steps\<close>

fun random_endpoint :: "nat \<Rightarrow> endpoint list \<Rightarrow> tl_protocol_e \<Rightarrow> (rng, endpoint) prog" where
  "random_endpoint 0 eps min_protocol = fail Unbounded"
| "random_endpoint (Suc n) eps min_protocol =
     (if eps = [] then fail Undefined
      else bindM rand (\<lambda>r.
        let ep = eps ! nat (r mod int (length eps)) in
        if protocol_value (ep_protocol ep) \<ge> protocol_value min_protocol then ret ep
        else random_endpoint n eps min_protocol))"

definition random_host :: "network \<Rightarrow> tl_protocol_e \<Rightarrow> (rng, endpoint) prog" where
  "random_host net min_protocol =
     bindM (gets rounds) (\<lambda>n. random_endpoint n (net_hosts net) min_protocol)"

definition random_device :: "network \<Rightarrow> tl_protocol_e \<Rightarrow> (rng, endpoint) prog" where
  "random_device net min_protocol =
     bindM (gets rounds) (\<lambda>n. random_endpoint n (net_devices net) min_protocol)"

text \<open>A round number in both hex and dec.\<close>

definition random_data :: "(rng, u64) prog" where
  "random_data =
     bindM rand (\<lambda>hi. bindM rand (\<lambda>lo. bindM (of_sum (align_address (word_of_int lo) 160)) (\<lambda>l.
       ret (push_bit 32 (word_of_int hi) OR l))))"

definition random_address :: "int \<Rightarrow> int \<Rightarrow> (rng, u64) prog" where
  "random_address size' position =
     bindM (random_sample 0 (0x1000 - 1)) (\<lambda>raw_address.
     bindM (of_sum (one_shl size')) (\<lambda>unit.
     bindM (of_sum (align_address (word_of_int raw_address) (word_of_int unit))) (\<lambda>aligned_address.
     of_sum (get_address (word_of_int (sint (ucast aligned_address :: u32))) position))))"

definition width_bytes :: "endpoint \<Rightarrow> int" where
  "width_bytes ep = ep_bit_width ep sdiv 8"

definition mask_of :: "u64 \<Rightarrow> int" where
  "mask_of m = sint (ucast m :: u32)"

definition update_field :: "updates \<Rightarrow> string \<Rightarrow> (int \<Rightarrow> 'c \<Rightarrow> 'c) \<Rightarrow> 'c \<Rightarrow> 'c" where
  "update_field u name f c = (case u name of None \<Rightarrow> c | Some v \<Rightarrow> f v c)"

text \<open>A message from a header with a given number of beats.\<close>

definition message_given :: "endpoint \<Rightarrow> 'c \<Rightarrow> int \<Rightarrow> failure + 'c tl_message" where
  "message_given ep h num_beats = new_message_base (width_bytes ep) num_beats num_beats h"

text \<open>A message whose number of beats follows from its header; \<open>ready\<close> of them can be sent.\<close>

definition sized_message :: "endpoint \<Rightarrow> 'c \<Rightarrow> failure + int \<Rightarrow> (int \<Rightarrow> int) \<Rightarrow> ('s, 'c tl_message) tl" where
  "sized_message ep h num_beats ready =
     bindM (of_sum num_beats) (\<lambda>n.
     bindM (assertM (n > 0)) (\<lambda>_.
     ret \<lparr>channel_width_bytes = width_bytes ep, beats_to_send = n, beats_ready = ready n,
       beats_generated = 0, header = h\<rparr>))"

section \<open>Channel A\<close>

definition random_a_param :: "tl_a_op_e \<Rightarrow> (rng, int) prog" where
  "random_a_param opcode =
     (case opcode of
        ArithmeticData \<Rightarrow> random_arithmetic_data_param
      | LogicalData \<Rightarrow> random_logical_data_param
      | Intent \<Rightarrow> random_intent_param
      | AcquireBlock \<Rightarrow> random_grow_permission
      | AcquirePerm \<Rightarrow> random_grow_permission
      | _ \<Rightarrow> ret 0)"

definition new_a_request_random :: "network \<Rightarrow> ((tl_a, 'z) sender_scheme, tl_a) tl" where
  "new_a_request_random net =
     bindM (own parent) (\<lambda>ep.
     bindM (randomly (random_device net TL_UL)) (\<lambda>device.
     bindM (randomly (random_a_opcode (max_common_protocol (ep_protocol ep) (ep_protocol device)))) (\<lambda>opcode.
     bindM (randomly (random_a_param opcode)) (\<lambda>param.
     bindM (randomly (random_sample 0 (ep_max_size ep))) (\<lambda>size'.
     bindM (get_transaction_id True) (\<lambda>source.
     bindM (randomly (random_address size' (ep_position device))) (\<lambda>address.
     bindM (of_sum (one_shl size')) (\<lambda>size_bytes.
     bindM (of_sum (complete_mask address size_bytes (width_bytes ep))) (\<lambda>m.
     bindM (if opcode = PutPartialData then bindM (randomly rand) (\<lambda>r. ret (mask_of m AND r))
            else ret (mask_of m)) (\<lambda>msk.
     bindM (if has_payload_a opcode
            then bindM (randomly (random_bool 50)) (\<lambda>c. bindM (randomly random_data) (\<lambda>d. ret (c, d)))
            else ret (False, net_garbage net)) (\<lambda>(corrupt, data).
     ret \<lparr>a_opcode = opcode, a_param = param, a_size = size', a_source = source, a_address = address,
       a_mask = msk, a_corrupt = corrupt, a_data = data\<rparr>)))))))))))"

definition new_a_request_default :: "((tl_a, 'z) sender_scheme, tl_a) tl" where
  "new_a_request_default =
     bindM (own parent) (\<lambda>ep.
     bindM (of_sum (beat_size ep)) (\<lambda>size'.
     bindM (get_transaction_id False) (\<lambda>source.
     bindM (of_sum (get_address 0x3000 0)) (\<lambda>address.
     bindM (of_sum (full_mask size')) (\<lambda>msk.
     ret \<lparr>a_opcode = PutFullData, a_param = 0, a_size = size', a_source = source, a_address = address,
       a_mask = msk, a_corrupt = False, a_data = 0xDEADBEEFCAFEF00D\<rparr>)))))"

definition new_a_request :: "network \<Rightarrow> bool \<Rightarrow> ((tl_a, 'z) sender_scheme, tl_a) tl" where
  "new_a_request net randomise = (if randomise then new_a_request_random net else new_a_request_default)"

definition modify_a :: "tl_a \<Rightarrow> updates \<Rightarrow> tl_a" where
  "modify_a beat u =
     update_field u ''data'' (\<lambda>v b. b\<lparr>a_data := word_of_int v\<rparr>)
     (update_field u ''corrupt'' (\<lambda>v b. b\<lparr>a_corrupt := v \<noteq> 0\<rparr>)
     (update_field u ''mask'' (\<lambda>v b. b\<lparr>a_mask := v\<rparr>)
     (update_field u ''address'' (\<lambda>v b. b\<lparr>a_address := word_of_int v\<rparr>)
     (update_field u ''source'' (\<lambda>v b. b\<lparr>a_source := v\<rparr>)
     (update_field u ''size'' (\<lambda>v b. b\<lparr>a_size := v\<rparr>)
     (update_field u ''param'' (\<lambda>v b. b\<lparr>a_param := v\<rparr>)
     (update_field u ''opcode'' (\<lambda>v b. b\<lparr>a_opcode := a_op_of v\<rparr>) beat)))))))"

definition message_a :: "network \<Rightarrow> bool \<Rightarrow> updates \<Rightarrow> ((tl_a, 'z) sender_scheme, tl_a tl_message) tl" where
  "message_a net randomise requirements =
     bindM (own parent) (\<lambda>ep.
     bindM (assertM (width_bytes ep > 0)) (\<lambda>_.
     bindM (new_a_request net randomise) (\<lambda>request.
     let h = modify_a request requirements in
     sized_message ep h (num_beats_a (a_opcode h) (a_size h) (width_bytes ep)) (\<lambda>n. n))))"

definition next_beat_a :: "bool \<Rightarrow> tl_a tl_message \<Rightarrow> (rng, tl_a \<times> tl_a tl_message) prog" where
  "next_beat_a randomise m =
     (let beat = (header m)\<lparr>a_data := a_data (header m) + word_of_int (beats_generated m)\<rparr>;
          m' = m\<lparr>beats_generated := beats_generated m + 1\<rparr> in
      if randomise then
        bindM (if a_opcode beat = PutPartialData then
                 bindM (of_sum (one_shl (a_size beat))) (\<lambda>size_bytes.
                 bindM (of_sum (complete_mask (a_address beat) size_bytes (channel_width_bytes m))) (\<lambda>k.
                 bindM rand (\<lambda>r. ret (beat\<lparr>a_mask := mask_of (k AND word_of_int r)\<rparr>))))
               else ret beat) (\<lambda>beat1.
        bindM (if has_payload_a (a_opcode beat1)
               then bindM (random_bool 50) (\<lambda>c. ret (beat1\<lparr>a_corrupt := c\<rparr>)) else ret beat1) (\<lambda>beat2.
        ret (beat2, m')))
      else ret (beat, m'))"

section \<open>Channel B\<close>

text \<open>The search for an unused combination of address and source.\<close>

fun draw_b_address :: "nat \<Rightarrow> int \<Rightarrow> int \<Rightarrow> ((tl_b, 'z) sender_scheme, u64) tl" where
  "draw_b_address 0 size' source = fail Unbounded"
| "draw_b_address (Suc n) size' source =
     bindM (own parent) (\<lambda>device.
     bindM (randomly (random_sample 0 (0x1000 - 1))) (\<lambda>raw_address.
     bindM (of_sum (get_address (word_of_int raw_address) (ep_position device))) (\<lambda>device_address.
     bindM (of_sum (one_shl size')) (\<lambda>unit.
     bindM (of_sum (align_address (word_of_int (sint (ucast device_address :: u32))) (word_of_int unit))) (\<lambda>address.
     bindM (own (\<lambda>s. transaction_id_available s (get_b_id device source address))) (\<lambda>free.
     if free then ret address else draw_b_address n size' source))))))"

fun next_b_address :: "nat \<Rightarrow> int \<Rightarrow> int \<Rightarrow> u64 \<Rightarrow> ((tl_b, 'z) sender_scheme, u64) tl" where
  "next_b_address 0 size' source address = fail Unbounded"
| "next_b_address (Suc n) size' source address =
     bindM (own (\<lambda>s. transaction_id_available s (get_b_id (parent s) source address))) (\<lambda>free.
     if free then ret address
     else bindM (of_sum (size_to_bits size')) (\<lambda>bits.
       next_b_address n size' source (address + word_of_int (bits sdiv 8))))"

definition new_b_request :: "network \<Rightarrow> bool \<Rightarrow> ((tl_b, 'z) sender_scheme, tl_b) tl" where
  "new_b_request net randomise =
     bindM (randomly (random_host net TL_C)) (\<lambda>host.
     bindM (own parent) (\<lambda>device.
     if randomise then
       bindM (randomly (random_b_opcode (ep_protocol device))) (\<lambda>opcode.
       bindM (randomly random_cap_permission) (\<lambda>param.
       bindM (randomly (random_sample 0 (ep_max_size device))) (\<lambda>size'.
       bindM (of_sum (device_get_routing_id device (ep_position host))) (\<lambda>source.
       bindM (gets (\<lambda>(g, s). rounds g)) (\<lambda>n.
       bindM (draw_b_address n size' source) (\<lambda>address.
       ret \<lparr>b_opcode = opcode, b_param = param, b_size = size', b_source = source, b_address = address\<rparr>))))))
     else
       bindM (of_sum (beat_size device)) (\<lambda>size'.
       bindM (of_sum (device_get_routing_id device (ep_position host))) (\<lambda>source.
       bindM (of_sum (get_address 0x3000 (ep_position device))) (\<lambda>start.
       bindM (gets (\<lambda>(g, s). rounds g)) (\<lambda>n.
       bindM (next_b_address n size' source start) (\<lambda>address.
       ret \<lparr>b_opcode = ProbeBlock, b_param = 0, b_size = size', b_source = source, b_address = address\<rparr>)))))))"

definition modify_b :: "tl_b \<Rightarrow> updates \<Rightarrow> tl_b" where
  "modify_b beat u =
     update_field u ''address'' (\<lambda>v b. b\<lparr>b_address := word_of_int v\<rparr>)
     (update_field u ''source'' (\<lambda>v b. b\<lparr>b_source := v\<rparr>)
     (update_field u ''size'' (\<lambda>v b. b\<lparr>b_size := v\<rparr>)
     (update_field u ''param'' (\<lambda>v b. b\<lparr>b_param := v\<rparr>)
     (update_field u ''opcode'' (\<lambda>v b. b\<lparr>b_opcode := b_op_of v\<rparr>) beat))))"

definition message_b :: "network \<Rightarrow> bool \<Rightarrow> updates \<Rightarrow> ((tl_b, 'z) sender_scheme, tl_b tl_message) tl" where
  "message_b net randomise requirements =
     bindM (own parent) (\<lambda>ep.
     bindM (assertM (width_bytes ep > 0)) (\<lambda>_.
     bindM (new_b_request net randomise) (\<lambda>request.
     let h = modify_b request requirements in
     sized_message ep h (num_beats_b (b_opcode h) (b_size h) (width_bytes ep)) (\<lambda>n. n))))"

definition new_b_response :: "tl_a \<Rightarrow> bool \<Rightarrow> (rng, tl_b) prog" where
  "new_b_response request randomise =
     bindM (case a_opcode request of
              AcquireBlock \<Rightarrow> ret ProbeBlock
            | AcquirePerm \<Rightarrow> ret ProbePerm
            | _ \<Rightarrow> fail Assertion) (\<lambda>opcode.
     bindM (if randomise
            then bindM random_cap_permission (\<lambda>p. bindM rand (\<lambda>s. ret (p, s)))
            else ret (0, 0)) (\<lambda>(param, source).
     ret \<lparr>b_opcode = opcode, b_param = param, b_size = a_size request, b_source = source,
       b_address = a_address request\<rparr>))"

text \<open>
  The base class is constructed before the header although the initialisers are written the
  other way round; the number of beats it computes from the header is 1 in any case.
\<close>

definition message_b_response :: "tl_a \<Rightarrow> bool \<Rightarrow> ((tl_b, 'z) sender_scheme, tl_b tl_message) tl" where
  "message_b_response request randomise =
     bindM (own parent) (\<lambda>ep.
     bindM (assertM (width_bytes ep > 0)) (\<lambda>_.
     bindM (randomly (new_b_response request randomise)) (\<lambda>h.
     bindM (of_sum (num_beats_b (b_opcode h) (b_size h) (width_bytes ep))) (\<lambda>n.
     of_sum (new_message_base (width_bytes ep) n n h)))))"

definition next_beat_b :: "bool \<Rightarrow> tl_b tl_message \<Rightarrow> (rng, tl_b \<times> tl_b tl_message) prog" where
  "next_beat_b randomise m =
     bindM (assertM (beats_generated m = 0)) (\<lambda>_.
     ret (header m, m\<lparr>beats_generated := beats_generated m + 1\<rparr>))"

section \<open>Channel C\<close>

definition random_c_param :: "(rng, int) prog" where
  "random_c_param =
     bindM (random_bool 500) (\<lambda>b. if b then random_prune_permission else random_report_permission)"

definition random_payload_c :: "network \<Rightarrow> tl_c_op_e \<Rightarrow> (rng, bool \<times> u64) prog" where
  "random_payload_c net opcode =
     (if has_payload_c opcode
      then bindM (random_bool 50) (\<lambda>c. bindM random_data (\<lambda>d. ret (c, d)))
      else ret (False, net_garbage net))"

definition new_c_request :: "network \<Rightarrow> bool \<Rightarrow> ((tl_c, 'z) sender_scheme, tl_c) tl" where
  "new_c_request net randomise =
     bindM (own parent) (\<lambda>ep.
     if randomise then
       bindM (randomly (random_device net TL_C_IO_TERM)) (\<lambda>device.
       bindM (randomly (random_c_opcode (ep_protocol ep))) (\<lambda>opcode.
       bindM (randomly random_c_param) (\<lambda>param.
       bindM (randomly (random_sample 0 (ep_max_size ep))) (\<lambda>size'.
       bindM (get_transaction_id True) (\<lambda>source.
       bindM (randomly (random_address size' (ep_position device))) (\<lambda>address.
       bindM (randomly (random_payload_c net opcode)) (\<lambda>(corrupt, data).
       ret \<lparr>c_opcode = opcode, c_param = param, c_size = size', c_source = source, c_address = address,
         c_corrupt = corrupt, c_data = data\<rparr>)))))))
     else
       bindM (of_sum (beat_size ep)) (\<lambda>size'.
       bindM (get_transaction_id False) (\<lambda>source.
       bindM (of_sum (get_address 0x3000 0)) (\<lambda>address.
       ret \<lparr>c_opcode = Release, c_param = 0, c_size = size', c_source = source, c_address = address,
         c_corrupt = False, c_data = 0xDEADBEEFCAFEF00D\<rparr>))))"

definition modify_c :: "tl_c \<Rightarrow> updates \<Rightarrow> tl_c" where
  "modify_c beat u =
     update_field u ''data'' (\<lambda>v b. b\<lparr>c_data := word_of_int v\<rparr>)
     (update_field u ''corrupt'' (\<lambda>v b. b\<lparr>c_corrupt := v \<noteq> 0\<rparr>)
     (update_field u ''address'' (\<lambda>v b. b\<lparr>c_address := word_of_int v\<rparr>)
     (update_field u ''source'' (\<lambda>v b. b\<lparr>c_source := v\<rparr>)
     (update_field u ''size'' (\<lambda>v b. b\<lparr>c_size := v\<rparr>)
     (update_field u ''param'' (\<lambda>v b. b\<lparr>c_param := v\<rparr>)
     (update_field u ''opcode'' (\<lambda>v b. b\<lparr>c_opcode := c_op_of v\<rparr>) beat))))))"

definition message_c :: "network \<Rightarrow> bool \<Rightarrow> updates \<Rightarrow> ((tl_c, 'z) sender_scheme, tl_c tl_message) tl" where
  "message_c net randomise requirements =
     bindM (own parent) (\<lambda>ep.
     bindM (assertM (width_bytes ep > 0)) (\<lambda>_.
     bindM (new_c_request net randomise) (\<lambda>request.
     let h = modify_c request requirements in
     sized_message ep h (num_beats_c (c_opcode h) (c_size h) (width_bytes ep)) (\<lambda>n. n))))"

definition new_c_response :: "network \<Rightarrow> tl_b \<Rightarrow> bool \<Rightarrow> (rng, tl_c) prog" where
  "new_c_response net request randomise =
     bindM (case b_opcode request of
              ProbeBlock \<Rightarrow> ret ()
            | ProbePerm \<Rightarrow> ret ()
            | _ \<Rightarrow> fail Assertion) (\<lambda>_.
     if randomise then
       bindM (if b_opcode request = ProbeBlock then random_bool 200 else ret False) (\<lambda>with_data.
       let opcode = (if with_data then ProbeAckData else ProbeAck) in
       bindM random_c_param (\<lambda>param.
       bindM (random_payload_c net opcode) (\<lambda>(corrupt, data).
       ret \<lparr>c_opcode = opcode, c_param = param, c_size = b_size request, c_source = b_source request,
         c_address = b_address request, c_corrupt = corrupt, c_data = data\<rparr>)))
     else
       ret \<lparr>c_opcode = ProbeAck, c_param = 0, c_size = b_size request, c_source = b_source request,
         c_address = b_address request, c_corrupt = False, c_data = 0\<rparr>)"

definition message_c_response ::
  "network \<Rightarrow> tl_b \<Rightarrow> bool \<Rightarrow> ((tl_c, 'z) sender_scheme, tl_c tl_message) tl" where
  "message_c_response net request randomise =
     bindM (own parent) (\<lambda>ep.
     bindM (assertM (width_bytes ep > 0)) (\<lambda>_.
     bindM (randomly (new_c_response net request randomise)) (\<lambda>h.
     sized_message ep h (num_beats_c (c_opcode h) (c_size h) (width_bytes ep)) (\<lambda>n. n))))"

definition next_beat_c :: "bool \<Rightarrow> tl_c tl_message \<Rightarrow> (rng, tl_c \<times> tl_c tl_message) prog" where
  "next_beat_c randomise m =
     (let beat = (header m)\<lparr>c_data := c_data (header m) + word_of_int (beats_generated m)\<rparr>;
          m' = m\<lparr>beats_generated := beats_generated m + 1\<rparr> in
      if randomise \<and> has_payload_c (c_opcode beat)
      then bindM (random_bool 50) (\<lambda>c. ret (beat\<lparr>c_corrupt := c\<rparr>, m'))
      else ret (beat, m'))"

section \<open>Channel D\<close>

text \<open>The switch over the opcode of the request has no default branch.\<close>

fun d_response_opcode :: "tl_a_op_e \<Rightarrow> failure + tl_d_op_e" where
  "d_response_opcode PutFullData = Inr AccessAck"
| "d_response_opcode PutPartialData = Inr AccessAck"
| "d_response_opcode ArithmeticData = Inr AccessAckData"
| "d_response_opcode LogicalData = Inr AccessAckData"
| "d_response_opcode Get = Inr AccessAckData"
| "d_response_opcode Intent = Inr HintAck"
| "d_response_opcode AcquireBlock = Inr Grant"
| "d_response_opcode AcquirePerm = Inr Grant"
| "d_response_opcode (A_unnamed i) = Inl Undefined"

definition new_d_response_random ::
  "bool \<Rightarrow> tl_a \<Rightarrow> tl_d_op_e \<Rightarrow> int \<Rightarrow> (rng, tl_d) prog" where
  "new_d_response_random can_deny request opcode0 sink =
     bindM (if a_opcode request = AcquireBlock then random_bool 200 else ret False) (\<lambda>with_data.
     let opcode = (if with_data then GrantData else opcode0) in
     bindM (if opcode = Grant \<or> opcode = GrantData then random_cap_permission else ret 0) (\<lambda>param.
     bindM (if can_deny then random_bool 100 else ret False) (\<lambda>denied.
     bindM (if has_payload_d opcode then if denied then ret True else random_bool 100 else ret False) (\<lambda>corrupt.
     bindM random_data (\<lambda>data.
     ret \<lparr>d_opcode = opcode, d_param = param, d_size = a_size request, d_source = a_source request,
       d_sink = sink, d_denied = denied, d_corrupt = corrupt, d_data = data\<rparr>)))))"

definition new_d_response_a :: "tl_a \<Rightarrow> bool \<Rightarrow> ((tl_d, 'z) sender_scheme, tl_d) tl" where
  "new_d_response_a request randomise =
     bindM (own parent) (\<lambda>ep.
     bindM (of_sum (d_response_opcode (a_opcode request))) (\<lambda>opcode.
     bindM (if requires_response_d opcode then get_transaction_id randomise
            else get_routing_id randomise) (\<lambda>sink.
     if randomise then randomly (new_d_response_random (ep_can_deny ep) request opcode sink)
     else ret \<lparr>d_opcode = opcode, d_param = 0, d_size = a_size request, d_source = a_source request,
       d_sink = sink, d_denied = False, d_corrupt = False, d_data = 0xDEADBEEFCAFEF00D\<rparr>)))"

definition message_d_of_a :: "tl_a \<Rightarrow> bool \<Rightarrow> ((tl_d, 'z) sender_scheme, tl_d tl_message) tl" where
  "message_d_of_a request randomise =
     bindM (own parent) (\<lambda>ep.
     bindM (assertM (width_bytes ep > 0)) (\<lambda>_.
     bindM (new_d_response_a request randomise) (\<lambda>h.
     sized_message ep h (num_beats_d (d_opcode h) (d_size h) (width_bytes ep))
       (\<lambda>n. if a_opcode request = LogicalData \<or> a_opcode request = ArithmeticData then 1 else n))))"

definition new_d_response_c :: "tl_c \<Rightarrow> bool \<Rightarrow> ((tl_d, 'z) sender_scheme, tl_d) tl" where
  "new_d_response_c request randomise =
     bindM (case c_opcode request of
              Release \<Rightarrow> ret ReleaseAck
            | ReleaseData \<Rightarrow> ret ReleaseAck
            | _ \<Rightarrow> fail Assertion) (\<lambda>opcode.
     bindM (get_routing_id randomise) (\<lambda>sink.
     ret \<lparr>d_opcode = opcode, d_param = 0, d_size = c_size request, d_source = c_source request,
       d_sink = sink, d_denied = False, d_corrupt = False, d_data = 0\<rparr>))"

definition message_d_of_c :: "tl_c \<Rightarrow> bool \<Rightarrow> ((tl_d, 'z) sender_scheme, tl_d tl_message) tl" where
  "message_d_of_c request randomise =
     bindM (own parent) (\<lambda>ep.
     bindM (assertM (width_bytes ep > 0)) (\<lambda>_.
     bindM (new_d_response_c request randomise) (\<lambda>h.
     sized_message ep h (num_beats_d (d_opcode h) (d_size h) (width_bytes ep)) (\<lambda>n. n))))"

definition next_beat_d :: "bool \<Rightarrow> tl_d tl_message \<Rightarrow> (rng, tl_d \<times> tl_d tl_message) prog" where
  "next_beat_d randomise m =
     (let beat = (header m)\<lparr>d_data := d_data (header m) + word_of_int (beats_generated m)\<rparr>;
          m' = m\<lparr>beats_generated := beats_generated m + 1\<rparr> in
      if randomise \<and> has_payload_d (d_opcode beat)
      then bindM (if d_denied beat then ret True else random_bool 50) (\<lambda>c.
        ret (beat\<lparr>d_corrupt := c\<rparr>, m'))
      else ret (beat, m'))"

definition modify_d :: "tl_d \<Rightarrow> updates \<Rightarrow> tl_d" where
  "modify_d beat u =
     update_field u ''data'' (\<lambda>v b. b\<lparr>d_data := word_of_int v\<rparr>)
     (update_field u ''corrupt'' (\<lambda>v b. b\<lparr>d_corrupt := v \<noteq> 0\<rparr>)
     (update_field u ''denied'' (\<lambda>v b. b\<lparr>d_denied := v \<noteq> 0\<rparr>)
     (update_field u ''sink'' (\<lambda>v b. b\<lparr>d_sink := v\<rparr>)
     (update_field u ''source'' (\<lambda>v b. b\<lparr>d_source := v\<rparr>)
     (update_field u ''size'' (\<lambda>v b. b\<lparr>d_size := v\<rparr>)
     (update_field u ''param'' (\<lambda>v b. b\<lparr>d_param := v\<rparr>)
     (update_field u ''opcode'' (\<lambda>v b. b\<lparr>d_opcode := d_op_of v\<rparr>) beat)))))))"

section \<open>Channel E\<close>

definition new_e_response :: "tl_d \<Rightarrow> tl_e" where
  "new_e_response request = \<lparr>e_sink = d_sink request\<rparr>"

definition message_e_response :: "tl_d \<Rightarrow> ((tl_e, 'z) sender_scheme, tl_e tl_message) tl" where
  "message_e_response request =
     bindM (own parent) (\<lambda>ep. of_sum (new_message_base (width_bytes ep) 1 1 (new_e_response request)))"

definition next_beat_e :: "bool \<Rightarrow> tl_e tl_message \<Rightarrow> (rng, tl_e \<times> tl_e tl_message) prog" where
  "next_beat_e randomise m =
     bindM (assertM (beats_generated m = 0)) (\<lambda>_.
     ret (header m, m\<lparr>beats_generated := beats_generated m + 1\<rparr>))"

definition modify_e :: "tl_e \<Rightarrow> updates \<Rightarrow> tl_e" where
  "modify_e beat u = update_field u ''sink'' (\<lambda>v b. b\<lparr>e_sink := v\<rparr>) beat"

end
