(* ===== verification/TL_Senders.thy ===== *)
theory TL_Senders
  imports TL_Messages
begin

text \<open>
  The sending ends of the five channels (\<open>TileLinkSender\<close> and its subclasses in
  \<open>tl_channels.h\<close> and \<open>tl_channels.cc\<close>): flow control, the queue of messages, responses to
  requests of other channels and new requests. What the subclasses override is a record of
  operations.
\<close>

section \<open>The generic sender\<close>

record ('s, 'c) sender_methods =
  sm_next_beat :: "bool \<Rightarrow> 'c tl_message \<Rightarrow> (rng, 'c \<times> 'c tl_message) prog"
  sm_modify :: "'c \<Rightarrow> updates \<Rightarrow> 'c"
  sm_respond :: "('s, unit) tl"
  sm_reorder_requests :: "'s \<Rightarrow> 's"

definition sender_set_flow_control :: "('c, 'z) sender_scheme \<Rightarrow> ('c, 'z) sender_scheme" where
  "sender_set_flow_control s =
     (if beat_accepted s then set_valid False s else s)\<lparr>beat_accepted := False\<rparr>"

definition sender_get_inputs :: "('c, 'z) sender_scheme \<Rightarrow> ('c, 'z) sender_scheme" where
  "sender_get_inputs s = (if get_valid s \<and> get_ready s then s\<lparr>beat_accepted := True\<rparr> else s)"

definition push_message :: "'c tl_message \<Rightarrow> ('c, 'z) sender_scheme \<Rightarrow> ('c, 'z) sender_scheme" where
  "push_message m s = s\<lparr>to_send := to_send s @ [m]\<rparr>"

definition set_front_message :: "'c tl_message \<Rightarrow> ('c, 'z) sender_scheme \<Rightarrow> ('c, 'z) sender_scheme" where
  "set_front_message m s = s\<lparr>to_send := m # tl (to_send s)\<rparr>"

definition clear_completed :: "('c, 'z) sender_scheme \<Rightarrow> ('c, 'z) sender_scheme" where
  "clear_completed s =
     (if to_send s \<noteq> [] \<and> finished (hd (to_send s)) then s\<lparr>to_send := tl (to_send s)\<rparr> else s)"

definition rotate_queue :: "'a list \<Rightarrow> 'a list" where
  "rotate_queue q = (if q \<noteq> [] then tl q @ [hd q] else q)"

definition reorder_responses :: "('c, 'z) sender_scheme \<Rightarrow> ('c, 'z) sender_scheme" where
  "reorder_responses s =
     (if to_send s \<noteq> [] \<and> \<not> in_progress (hd (to_send s)) \<and> complete (last (to_send s))
      then s\<lparr>to_send := rotate_queue (to_send s)\<rparr> else s)"

text \<open>
  Handling of a beat that is still on the channel; the result says whether \<open>set_outputs\<close>
  returns early because the beat stays.
\<close>

definition pending_beat :: "bool \<Rightarrow> (('c, 'z) sender_scheme, bool) tl" where
  "pending_beat randomise =
     bindM (own get_valid) (\<lambda>valid.
     if valid then
       bindM (own to_send) (\<lambda>q.
       bindM (assertM (q \<noteq> [])) (\<lambda>_.
       bindM (if randomise then randomly (random_bool 200) else ret False) (\<lambda>retract.
       if retract
       then bindM (change (\<lambda>s. set_front_message (unsend (hd (to_send s))) (set_valid False s))) (\<lambda>_. ret False)
       else ret True)))
     else ret False)"

text \<open>The next beat of the front message, with the pending modification, put on the channel.\<close>

definition send_beat ::
  "(('c, 'z) sender_scheme, 'c) sender_methods \<Rightarrow> bool \<Rightarrow> (('c, 'z) sender_scheme, unit) tl" where
  "send_beat M randomise =
     bindM (own (\<lambda>s. hd (to_send s))) (\<lambda>front.
     bindM (randomly (sm_next_beat M randomise front)) (\<lambda>(beat0, message).
     bindM (change (set_front_message message)) (\<lambda>_.
     bindM (own modifications) (\<lambda>mods.
     let updates = (case mods of [] \<Rightarrow> Map.empty | u # _ \<Rightarrow> u);
         beat = (case mods of [] \<Rightarrow> beat0 | u # _ \<Rightarrow> sm_modify M beat0 u) in
     bindM (change (\<lambda>s. s\<lparr>modifications := tl mods\<rparr>)) (\<lambda>_.
     bindM (if updates ''duplicate_beat'' \<noteq> None
            then change (\<lambda>s. set_front_message (unsend (hd (to_send s))) s) else ret ()) (\<lambda>_.
     if updates ''drop_beat'' = None
     then change (\<lambda>s. set_valid True (set_data beat s)) else ret ()))))))"

definition sender_set_outputs ::
  "(('c, 'z) sender_scheme, 'c) sender_methods \<Rightarrow> bool \<Rightarrow> (('c, 'z) sender_scheme, unit) tl" where
  "sender_set_outputs M randomise =
     bindM (pending_beat randomise) (\<lambda>keep.
     if keep then ret ()
     else
       bindM (change clear_completed) (\<lambda>_.
       bindM (own (\<lambda>s. ep_fifo (parent s))) (\<lambda>fifo.
       bindM (if \<not> fifo \<and> randomise then randomly (random_bool 500) else ret False) (\<lambda>reorder.
       bindM (if reorder then change (\<lambda>s. reorder_responses (sm_reorder_requests M s)) else ret ()) (\<lambda>_.
       bindM (if randomise then randomly (random_bool 800) else ret True) (\<lambda>respond_now.
       bindM (if respond_now then sm_respond M else ret ()) (\<lambda>_.
       bindM (own (\<lambda>s. to_send s \<noteq> [] \<and> can_send (hd (to_send s)))) (\<lambda>available.
       bindM (if available \<and> randomise then randomly (random_bool 200) else ret False) (\<lambda>stall.
       if available \<and> \<not> stall then send_beat M randomise else ret ())))))))))"

definition send :: "'c \<Rightarrow> (('c, 'z) sender_scheme, unit) tl" where
  "send data =
     bindM (own parent) (\<lambda>ep.
     bindM (of_sum (message_given ep data 1)) (\<lambda>m. change (push_message m)))"

text \<open>
  The loop over a queue of pending requests that all \<open>respond\<close> methods share: each request
  is tried once; one that finds no free identifier ends the loop on a FIFO component and goes
  to the end of the queue otherwise.
\<close>

fun respond_loop ::
  "('s \<Rightarrow> bool) \<Rightarrow> ('s \<Rightarrow> 'r list) \<Rightarrow> ('r list \<Rightarrow> 's \<Rightarrow> 's) \<Rightarrow> ('r \<Rightarrow> ('s, unit) tl) \<Rightarrow> nat \<Rightarrow> ('s, bool) tl" where
  "respond_loop fifo get put act 0 = ret True"
| "respond_loop fifo get put act (Suc n) =
     bindM (own (\<lambda>s. hd (get s))) (\<lambda>request.
     bindM (tryM (act request)) (\<lambda>outcome.
     bindM (own fifo) (\<lambda>in_order.
     case outcome of
       Inr u \<Rightarrow> bindM (change (\<lambda>s. put (tl (get s)) s)) (\<lambda>_. respond_loop fifo get put act n)
     | Inl e \<Rightarrow>
         if e \<noteq> Throw NoAvailableIDException then fail e
         else if in_order then ret False
         else bindM (change (\<lambda>s. put (tl (get s) @ [request]) s)) (\<lambda>_. respond_loop fifo get put act n))))"

definition respond_all ::
  "('s \<Rightarrow> bool) \<Rightarrow> ('s \<Rightarrow> 'r list) \<Rightarrow> ('r list \<Rightarrow> 's \<Rightarrow> 's) \<Rightarrow> ('r \<Rightarrow> ('s, unit) tl) \<Rightarrow> ('s, bool) tl" where
  "respond_all fifo get put act = bindM (own (\<lambda>s. length (get s))) (respond_loop fifo get put act)"

definition sender_fifo :: "('c, 'z) sender_scheme \<Rightarrow> bool" where
  "sender_fifo s = ep_fifo (parent s)"

section \<open>Channel A\<close>

type_synonym sender_a = "tl_a sender"

definition queue_request_a :: "network \<Rightarrow> bool \<Rightarrow> updates \<Rightarrow> (sender_a, unit) tl" where
  "queue_request_a net randomise requirements =
     bindM (own can_start_new_transaction) (\<lambda>can_start.
     if \<not> can_start then ret ()
     else
       bindM (message_a net randomise requirements) (\<lambda>request.
       bindM (change (push_message request)) (\<lambda>_.
       start_transaction (a_source (header request)))))"

definition methods_a :: "(sender_a, tl_a) sender_methods" where
  "methods_a = \<lparr>sm_next_beat = next_beat_a, sm_modify = modify_a, sm_respond = ret (),
     sm_reorder_requests = \<lambda>s. s\<rparr>"

section \<open>Channel B\<close>

record sender_b = "tl_b sender" +
  b_a_requests :: "(bool \<times> tl_a) list"

definition handle_request_b :: "bool \<Rightarrow> tl_a \<Rightarrow> sender_b \<Rightarrow> sender_b" where
  "handle_request_b randomise request s = s\<lparr>b_a_requests := b_a_requests s @ [(randomise, request)]\<rparr>"

text \<open>Probes to all masters; \<open>NoAvailableIDException\<close> leaves those already queued behind.\<close>

fun probe_hosts :: "tl_b tl_message \<Rightarrow> endpoint list \<Rightarrow> (sender_b, unit) tl" where
  "probe_hosts response [] = ret ()"
| "probe_hosts response (host # hosts) =
     (if ep_protocol host \<noteq> TL_C then probe_hosts response hosts
      else
        bindM (own parent) (\<lambda>device.
        bindM (of_sum (device_get_routing_id device (ep_position host))) (\<lambda>source.
        let response' = response\<lparr>header := (header response)\<lparr>b_source := source\<rparr>\<rparr>;
            transaction = get_b_id device source (b_address (header response)) in
        bindM (own (\<lambda>s. transaction \<in> ids_in_use s)) (\<lambda>used.
        if used then fail (Throw NoAvailableIDException)
        else
          bindM (change (push_message response')) (\<lambda>_.
          bindM (start_transaction transaction) (\<lambda>_.
          probe_hosts response' hosts))))))"

definition respond_b_to :: "network \<Rightarrow> bool \<times> tl_a \<Rightarrow> (sender_b, unit) tl" where
  "respond_b_to net = (\<lambda>(randomise, request).
     bindM (own (\<lambda>s. ep_protocol (parent s))) (\<lambda>protocol.
     bindM (assertM (protocol = TL_C)) (\<lambda>_.
     bindM (message_b_response request randomise) (\<lambda>response.
     probe_hosts response (net_hosts net)))))"

definition respond_b :: "network \<Rightarrow> (sender_b, unit) tl" where
  "respond_b net =
     bindM (respond_all sender_fifo b_a_requests (\<lambda>q s. s\<lparr>b_a_requests := q\<rparr>) (respond_b_to net)) (\<lambda>_. ret ())"

text \<open>
  The check of all identifiers before anything is sent. \<open>None\<close> says that one is in use. The
  source of each probe is that of the host it goes to.
\<close>

fun pending_probes ::
  "tl_b tl_message \<Rightarrow> endpoint list \<Rightarrow> tl_b tl_message list \<Rightarrow> (sender_b, tl_b tl_message list option) tl" where
  "pending_probes request [] pending = ret (Some pending)"
| "pending_probes request (host # hosts) pending =
     (if ep_protocol host \<noteq> TL_C then pending_probes request hosts pending
      else
        bindM (own parent) (\<lambda>device.
        bindM (of_sum (device_get_routing_id device (ep_position host))) (\<lambda>source.
        let request' = request\<lparr>header := (header request)\<lparr>b_source := source\<rparr>\<rparr> in
        bindM (own (\<lambda>s. transaction_id_available s (get_b_id device source (b_address (header request'))))) (\<lambda>free.
        if free then pending_probes request' hosts (pending @ [request']) else ret None))))"

fun send_probes :: "tl_b tl_message list \<Rightarrow> (sender_b, unit) tl" where
  "send_probes [] = ret ()"
| "send_probes (request # pending) =
     bindM (change (push_message request)) (\<lambda>_.
     bindM (own parent) (\<lambda>device.
     bindM (start_transaction (get_b_id device (b_source (header request)) (b_address (header request)))) (\<lambda>_.
     send_probes pending)))"

definition queue_request_b :: "network \<Rightarrow> bool \<Rightarrow> updates \<Rightarrow> (sender_b, unit) tl" where
  "queue_request_b net randomise requirements =
     bindM (own (\<lambda>s. ep_protocol (parent s) = TL_C \<and> can_start_new_transaction s)) (\<lambda>go.
     if \<not> go then ret ()
     else
       bindM (message_b net randomise requirements) (\<lambda>request.
       bindM (pending_probes request (net_hosts net) []) (\<lambda>pending.
       case pending of None \<Rightarrow> ret () | Some ps \<Rightarrow> send_probes ps)))"

definition methods_b :: "network \<Rightarrow> (sender_b, tl_b) sender_methods" where
  "methods_b net = \<lparr>sm_next_beat = next_beat_b, sm_modify = modify_b, sm_respond = respond_b net,
     sm_reorder_requests = \<lambda>s. s\<lparr>b_a_requests := rotate_queue (b_a_requests s)\<rparr>\<rparr>"

section \<open>Channel C\<close>

record sender_c = "tl_c sender" +
  c_b_requests :: "(bool \<times> tl_b) list"

definition handle_request_c :: "bool \<Rightarrow> tl_b \<Rightarrow> sender_c \<Rightarrow> sender_c" where
  "handle_request_c randomise request s = s\<lparr>c_b_requests := c_b_requests s @ [(randomise, request)]\<rparr>"

definition respond_c_to :: "network \<Rightarrow> bool \<times> tl_b \<Rightarrow> (sender_c, unit) tl" where
  "respond_c_to net = (\<lambda>(randomise, request).
     bindM (own (\<lambda>s. ep_protocol (parent s))) (\<lambda>protocol.
     bindM (assertM (protocol = TL_C \<or> protocol = TL_C_IO_TERM)) (\<lambda>_.
     bindM (message_c_response net request randomise) (\<lambda>response.
     change (push_message response)))))"

definition respond_c :: "network \<Rightarrow> (sender_c, unit) tl" where
  "respond_c net =
     bindM (respond_all sender_fifo c_b_requests (\<lambda>q s. s\<lparr>c_b_requests := q\<rparr>) (respond_c_to net)) (\<lambda>_. ret ())"

definition queue_request_c :: "network \<Rightarrow> bool \<Rightarrow> updates \<Rightarrow> (sender_c, unit) tl" where
  "queue_request_c net randomise requirements =
     bindM (own (\<lambda>s. (ep_protocol (parent s) = TL_C \<or> ep_protocol (parent s) = TL_C_ROM_TERM) \<and>
       can_start_new_transaction s)) (\<lambda>go.
     if \<not> go then ret ()
     else
       bindM (message_c net randomise requirements) (\<lambda>request.
       bindM (change (push_message request)) (\<lambda>_.
       if requires_response_c (c_opcode (header request))
       then start_transaction (c_source (header request)) else ret ())))"

definition methods_c :: "network \<Rightarrow> (sender_c, tl_c) sender_methods" where
  "methods_c net = \<lparr>sm_next_beat = next_beat_c, sm_modify = modify_c, sm_respond = respond_c net,
     sm_reorder_requests = \<lambda>s. s\<lparr>c_b_requests := rotate_queue (c_b_requests s)\<rparr>\<rparr>"

section \<open>Channel D\<close>

record sender_d = "tl_d sender" +
  d_a_requests :: "(bool \<times> tl_a) list"
  d_c_requests :: "(bool \<times> tl_c) list"
  lock_output_buffer :: bool

definition handle_request_d_a :: "bool \<Rightarrow> tl_a \<Rightarrow> sender_d \<Rightarrow> sender_d" where
  "handle_request_d_a randomise request s = s\<lparr>d_a_requests := d_a_requests s @ [(randomise, request)]\<rparr>"

definition handle_request_d_c :: "bool \<Rightarrow> tl_c \<Rightarrow> sender_d \<Rightarrow> sender_d" where
  "handle_request_d_c randomise request s = s\<lparr>d_c_requests := d_c_requests s @ [(randomise, request)]\<rparr>"

definition is_atomic :: "tl_a_op_e \<Rightarrow> bool" where
  "is_atomic opcode \<longleftrightarrow> opcode = ArithmeticData \<or> opcode = LogicalData"

definition continue_response :: "(sender_d, unit) tl" where
  "continue_response =
     bindM (own (\<lambda>s. new_beat_ready (last (to_send s)))) (\<lambda>r.
     bindM (of_sum r) (\<lambda>m.
     change (\<lambda>s. s\<lparr>to_send := butlast (to_send s) @ [m], lock_output_buffer := \<not> complete m\<rparr>)))"

definition register_sink :: "tl_d \<Rightarrow> (sender_d, unit) tl" where
  "register_sink h = (if requires_response_d (d_opcode h) then start_transaction (d_sink h) else ret ())"

definition respond_d_to_a :: "bool \<times> tl_a \<Rightarrow> (sender_d, unit) tl" where
  "respond_d_to_a = (\<lambda>(randomise, request).
     bindM (own (\<lambda>s. is_atomic (a_opcode request) \<and> to_send s \<noteq> [] \<and> \<not> complete (last (to_send s)))) (\<lambda>continuation.
     if continuation then continue_response
     else
       bindM (own lock_output_buffer) (\<lambda>locked.
       bindM (assertM (\<not> locked)) (\<lambda>_.
       bindM (message_d_of_a request randomise) (\<lambda>response.
       bindM (change (push_message response)) (\<lambda>_.
       bindM (change (\<lambda>s. s\<lparr>lock_output_buffer := \<not> complete response\<rparr>)) (\<lambda>_.
       register_sink (header response))))))))"

definition respond_d_to_c :: "bool \<times> tl_c \<Rightarrow> (sender_d, unit) tl" where
  "respond_d_to_c = (\<lambda>(randomise, request).
     bindM (own lock_output_buffer) (\<lambda>locked.
     bindM (assertM (\<not> locked)) (\<lambda>_.
     bindM (message_d_of_c request randomise) (\<lambda>response.
     bindM (change (push_message response)) (\<lambda>_.
     register_sink (header response))))))"

definition respond_d :: "(sender_d, unit) tl" where
  "respond_d =
     bindM (respond_all sender_fifo d_a_requests (\<lambda>q s. s\<lparr>d_a_requests := q\<rparr>) respond_d_to_a) (\<lambda>all_tried.
     if \<not> all_tried then ret ()
     else
       bindM (own lock_output_buffer) (\<lambda>locked.
       if locked then ret ()
       else bindM (respond_all sender_fifo d_c_requests (\<lambda>q s. s\<lparr>d_c_requests := q\<rparr>) respond_d_to_c) (\<lambda>_. ret ())))"

definition reorder_requests_d :: "sender_d \<Rightarrow> sender_d" where
  "reorder_requests_d s =
     s\<lparr>d_a_requests :=
         (if d_a_requests s \<noteq> [] \<and> \<not> is_atomic (a_opcode (snd (hd (d_a_requests s)))) \<and>
             \<not> is_atomic (a_opcode (snd (last (d_a_requests s))))
          then rotate_queue (d_a_requests s) else d_a_requests s),
       d_c_requests := rotate_queue (d_c_requests s)\<rparr>"

definition methods_d :: "(sender_d, tl_d) sender_methods" where
  "methods_d = \<lparr>sm_next_beat = next_beat_d, sm_modify = modify_d, sm_respond = respond_d,
     sm_reorder_requests = reorder_requests_d\<rparr>"

section \<open>Channel E\<close>

record sender_e = "tl_e sender" +
  e_d_requests :: "(bool \<times> tl_d) list"

definition handle_request_e :: "bool \<Rightarrow> tl_d \<Rightarrow> sender_e \<Rightarrow> sender_e" where
  "handle_request_e randomise request s = s\<lparr>e_d_requests := e_d_requests s @ [(randomise, request)]\<rparr>"

definition respond_e_to :: "bool \<times> tl_d \<Rightarrow> (sender_e, unit) tl" where
  "respond_e_to = (\<lambda>(randomise, request).
     bindM (own (\<lambda>s. ep_protocol (parent s))) (\<lambda>protocol.
     bindM (assertM (protocol_value protocol > protocol_value TL_UH)) (\<lambda>_.
     bindM (message_e_response request) (\<lambda>response.
     change (push_message response)))))"

definition respond_e :: "(sender_e, unit) tl" where
  "respond_e =
     bindM (respond_all sender_fifo e_d_requests (\<lambda>q s. s\<lparr>e_d_requests := q\<rparr>) respond_e_to) (\<lambda>_. ret ())"

definition methods_e :: "(sender_e, tl_e) sender_methods" where
  "methods_e = \<lparr>sm_next_beat = next_beat_e, sm_modify = modify_e, sm_respond = respond_e,
     sm_reorder_requests = \<lambda>s. s\<lparr>e_d_requests := rotate_queue (e_d_requests s)\<rparr>\<rparr>"

end
