(* ===== verification/TL_Devices.thy ===== *)
theory TL_Devices
  imports TL_Senders
begin

text \<open>
  The receiving ends of the five channels and the hosts and devices that combine senders and
  receivers (\<open>TileLinkReceiver\<close>, \<open>TileLinkHost\<close>, \<open>TileLinkDevice\<close>). A received beat is handed
  to the senders of the same component, so the handlers work on the whole component.
\<close>

section \<open>The generic receiver\<close>

record 'c receiver =
  r_parent :: endpoint
  beats_remaining :: int
  recv_ready :: bool
  r_channel :: "'c wires"

definition new_receiver :: "endpoint \<Rightarrow> 'c wires \<Rightarrow> 'c receiver" where
  "new_receiver ep w = \<lparr>r_parent = ep, beats_remaining = 0, recv_ready = True, r_channel = w\<rparr>"

definition receiver_set_flow_control :: "'c receiver \<Rightarrow> 'c receiver" where
  "receiver_set_flow_control r = r\<lparr>r_channel := (r_channel r)\<lparr>wire_ready := recv_ready r\<rparr>\<rparr>"

definition all_beats_arrived :: "'c receiver \<Rightarrow> bool" where
  "all_beats_arrived r \<longleftrightarrow> beats_remaining r = 0"

definition new_beat_arrived :: "int \<Rightarrow> 'c receiver \<Rightarrow> failure + 'c receiver" where
  "new_beat_arrived size' r =
     bind_sum (if all_beats_arrived r then channel_num_beats (r_parent r) size' else Inr (beats_remaining r))
       (\<lambda>n. Inr (r\<lparr>beats_remaining := n - 1\<rparr>))"

text \<open>
  \<open>get_inputs\<close> of a receiver inside a component: \<open>get\<close> and \<open>put\<close> give its place, and
  \<open>handle_beat\<close> is the overridden method.
\<close>

definition receiver_get_inputs ::
  "('s \<Rightarrow> 'c receiver) \<Rightarrow> ('c receiver \<Rightarrow> 's \<Rightarrow> 's) \<Rightarrow> (bool \<Rightarrow> 'c \<Rightarrow> ('s, unit) tl) \<Rightarrow> bool \<Rightarrow> ('s, unit) tl" where
  "receiver_get_inputs get put handle_beat randomise =
     bindM (own get) (\<lambda>r.
     bindM (if wire_valid (r_channel r) \<and> recv_ready r
            then handle_beat randomise (wire_data (r_channel r)) else ret ()) (\<lambda>_.
     bindM (if randomise then randomly (random_bool 800) else ret True) (\<lambda>b.
     change (\<lambda>s. put ((get s)\<lparr>recv_ready := b\<rparr>) s))))"

text \<open>Count a beat; the result says whether it was the last one of its message.\<close>

definition count_beat ::
  "('s \<Rightarrow> 'c receiver) \<Rightarrow> ('c receiver \<Rightarrow> 's \<Rightarrow> 's) \<Rightarrow> int \<Rightarrow> ('s, bool) tl" where
  "count_beat get put size' =
     bindM (own (\<lambda>s. new_beat_arrived size' (get s))) (\<lambda>x.
     bindM (of_sum x) (\<lambda>r.
     bindM (change (put r)) (\<lambda>_. ret (all_beats_arrived r))))"

section \<open>Devices\<close>

record tl_device =
  v_endpoint :: endpoint
  v_a :: "tl_a receiver"
  v_b :: sender_b
  v_c :: "tl_c receiver"
  v_d :: sender_d
  v_e :: "tl_e receiver"

definition dev_b_end :: "int \<Rightarrow> (tl_device, unit) tl" where
  "dev_b_end i = part v_b (\<lambda>b v. v\<lparr>v_b := b\<rparr>) (end_transaction i)"

definition handle_beat_a :: "bool \<Rightarrow> tl_a \<Rightarrow> (tl_device, unit) tl" where
  "handle_beat_a randomise data =
     (let to_d = change (\<lambda>v. v\<lparr>v_d := handle_request_d_a randomise data (v_d v)\<rparr>) in
      case a_opcode data of
        PutFullData \<Rightarrow> bindM (count_beat v_a (\<lambda>r v. v\<lparr>v_a := r\<rparr>) (a_size data)) (\<lambda>arrived.
          if arrived then to_d else ret ())
      | PutPartialData \<Rightarrow> bindM (count_beat v_a (\<lambda>r v. v\<lparr>v_a := r\<rparr>) (a_size data)) (\<lambda>arrived.
          if arrived then to_d else ret ())
      | ArithmeticData \<Rightarrow> to_d
      | LogicalData \<Rightarrow> to_d
      | Get \<Rightarrow> to_d
      | Intent \<Rightarrow> to_d
      | AcquireBlock \<Rightarrow> bindM (change (\<lambda>v. v\<lparr>v_b := handle_request_b randomise data (v_b v)\<rparr>)) (\<lambda>_. to_d)
      | AcquirePerm \<Rightarrow> bindM (change (\<lambda>v. v\<lparr>v_b := handle_request_b randomise data (v_b v)\<rparr>)) (\<lambda>_. to_d)
      | A_unnamed _ \<Rightarrow> ret ())"

definition handle_beat_c :: "bool \<Rightarrow> tl_c \<Rightarrow> (tl_device, unit) tl" where
  "handle_beat_c randomise data =
     bindM (own v_endpoint) (\<lambda>ep.
     bindM (assertM (ep_protocol ep = TL_C)) (\<lambda>_.
     let to_d = change (\<lambda>v. v\<lparr>v_d := handle_request_d_c randomise data (v_d v)\<rparr>) in
     case c_opcode data of
       ProbeAck \<Rightarrow> dev_b_end (get_b_id ep (c_source data) (c_address data))
     | ProbeAckData \<Rightarrow> bindM (count_beat v_c (\<lambda>r v. v\<lparr>v_c := r\<rparr>) (c_size data)) (\<lambda>arrived.
         if arrived then
           bindM (of_sum (one_shl (c_size data))) (\<lambda>unit.
           bindM (of_sum (align_address (c_address data) (word_of_int unit))) (\<lambda>first_beat_addr.
           dev_b_end (get_b_id ep (c_source data) first_beat_addr)))
         else ret ())
     | Release \<Rightarrow> to_d
     | ReleaseData \<Rightarrow> bindM (count_beat v_c (\<lambda>r v. v\<lparr>v_c := r\<rparr>) (c_size data)) (\<lambda>arrived.
         if arrived then to_d else ret ())
     | C_unnamed _ \<Rightarrow> ret ()))"

definition handle_beat_e :: "bool \<Rightarrow> tl_e \<Rightarrow> (tl_device, unit) tl" where
  "handle_beat_e randomise data =
     bindM (own v_endpoint) (\<lambda>ep.
     bindM (assertM (ep_protocol ep = TL_C)) (\<lambda>_.
     part v_d (\<lambda>d v. v\<lparr>v_d := d\<rparr>) (end_transaction (e_sink data))))"

definition new_device ::
  "endpoint \<Rightarrow> tl_a wires \<Rightarrow> tl_b wires \<Rightarrow> tl_c wires \<Rightarrow> tl_d wires \<Rightarrow> tl_e wires \<Rightarrow> tl_device" where
  "new_device ep wa wb wc wd we =
     \<lparr>v_endpoint = ep, v_a = new_receiver ep wa,
      v_b = sender.extend (new_sender ep wb) \<lparr>b_a_requests = []\<rparr>,
      v_c = new_receiver ep wc,
      v_d = sender.extend (new_sender ep wd) \<lparr>d_a_requests = [], d_c_requests = [], lock_output_buffer = False\<rparr>,
      v_e = new_receiver ep we\<rparr>"

definition device_set_flow_control :: "tl_device \<Rightarrow> tl_device" where
  "device_set_flow_control v =
     v\<lparr>v_a := receiver_set_flow_control (v_a v), v_b := sender_set_flow_control (v_b v),
       v_c := receiver_set_flow_control (v_c v), v_d := sender_set_flow_control (v_d v),
       v_e := receiver_set_flow_control (v_e v)\<rparr>"

definition device_get_inputs :: "bool \<Rightarrow> (tl_device, unit) tl" where
  "device_get_inputs randomise =
     bindM (receiver_get_inputs v_a (\<lambda>r v. v\<lparr>v_a := r\<rparr>) handle_beat_a randomise) (\<lambda>_.
     bindM (change (\<lambda>v. v\<lparr>v_b := sender_get_inputs (v_b v)\<rparr>)) (\<lambda>_.
     bindM (receiver_get_inputs v_c (\<lambda>r v. v\<lparr>v_c := r\<rparr>) handle_beat_c randomise) (\<lambda>_.
     bindM (change (\<lambda>v. v\<lparr>v_d := sender_get_inputs (v_d v)\<rparr>)) (\<lambda>_.
     receiver_get_inputs v_e (\<lambda>r v. v\<lparr>v_e := r\<rparr>) handle_beat_e randomise))))"

definition device_set_outputs :: "network \<Rightarrow> bool \<Rightarrow> (tl_device, unit) tl" where
  "device_set_outputs net randomise =
     bindM (if randomise then randomly (random_bool 50) else ret False) (\<lambda>inject.
     bindM (if inject then part v_b (\<lambda>b v. v\<lparr>v_b := b\<rparr>) (queue_request_b net True Map.empty) else ret ()) (\<lambda>_.
     bindM (part v_b (\<lambda>b v. v\<lparr>v_b := b\<rparr>) (sender_set_outputs (methods_b net) randomise)) (\<lambda>_.
     part v_d (\<lambda>d v. v\<lparr>v_d := d\<rparr>) (sender_set_outputs methods_d randomise))))"

section \<open>Hosts\<close>

record tl_host =
  h_endpoint :: endpoint
  h_a :: sender_a
  h_b :: "tl_b receiver"
  h_c :: sender_c
  h_d :: "tl_d receiver"
  h_e :: sender_e

definition handle_beat_b :: "bool \<Rightarrow> tl_b \<Rightarrow> (tl_host, unit) tl" where
  "handle_beat_b randomise data =
     (let to_c = change (\<lambda>h. h\<lparr>h_c := handle_request_c randomise data (h_c h)\<rparr>) in
      case b_opcode data of ProbeBlock \<Rightarrow> to_c | ProbePerm \<Rightarrow> to_c | _ \<Rightarrow> fail Assertion)"

definition handle_beat_d :: "bool \<Rightarrow> tl_d \<Rightarrow> (tl_host, unit) tl" where
  "handle_beat_d randomise data =
     (let end_a = part h_a (\<lambda>a h. h\<lparr>h_a := a\<rparr>) (end_transaction (d_source data));
          end_c = part h_c (\<lambda>c h. h\<lparr>h_c := c\<rparr>) (end_transaction (d_source data));
          to_e = change (\<lambda>h. h\<lparr>h_e := handle_request_e randomise data (h_e h)\<rparr>);
          count = count_beat h_d (\<lambda>r h. h\<lparr>h_d := r\<rparr>) (d_size data) in
      case d_opcode data of
        AccessAck \<Rightarrow> end_a
      | HintAck \<Rightarrow> end_a
      | AccessAckData \<Rightarrow> bindM count (\<lambda>arrived. if arrived then end_a else ret ())
      | ReleaseAck \<Rightarrow> end_c
      | Grant \<Rightarrow> bindM end_a (\<lambda>_. to_e)
      | GrantData \<Rightarrow> bindM count (\<lambda>arrived. if arrived then bindM end_a (\<lambda>_. to_e) else ret ())
      | D_unnamed _ \<Rightarrow> ret ())"

definition new_host ::
  "endpoint \<Rightarrow> tl_a wires \<Rightarrow> tl_b wires \<Rightarrow> tl_c wires \<Rightarrow> tl_d wires \<Rightarrow> tl_e wires \<Rightarrow> tl_host" where
  "new_host ep wa wb wc wd we =
     \<lparr>h_endpoint = ep, h_a = new_sender ep wa, h_b = new_receiver ep wb,
      h_c = sender.extend (new_sender ep wc) \<lparr>c_b_requests = []\<rparr>,
      h_d = new_receiver ep wd,
      h_e = sender.extend (new_sender ep we) \<lparr>e_d_requests = []\<rparr>\<rparr>"

definition host_set_flow_control :: "tl_host \<Rightarrow> tl_host" where
  "host_set_flow_control h =
     h\<lparr>h_a := sender_set_flow_control (h_a h), h_b := receiver_set_flow_control (h_b h),
       h_c := sender_set_flow_control (h_c h), h_d := receiver_set_flow_control (h_d h),
       h_e := sender_set_flow_control (h_e h)\<rparr>"

definition host_get_inputs :: "bool \<Rightarrow> (tl_host, unit) tl" where
  "host_get_inputs randomise =
     bindM (change (\<lambda>h. h\<lparr>h_a := sender_get_inputs (h_a h)\<rparr>)) (\<lambda>_.
     bindM (receiver_get_inputs h_b (\<lambda>r h. h\<lparr>h_b := r\<rparr>) handle_beat_b randomise) (\<lambda>_.
     bindM (change (\<lambda>h. h\<lparr>h_c := sender_get_inputs (h_c h)\<rparr>)) (\<lambda>_.
     bindM (receiver_get_inputs h_d (\<lambda>r h. h\<lparr>h_d := r\<rparr>) handle_beat_d randomise) (\<lambda>_.
     change (\<lambda>h. h\<lparr>h_e := sender_get_inputs (h_e h)\<rparr>)))))"

definition host_set_outputs :: "network \<Rightarrow> bool \<Rightarrow> (tl_host, unit) tl" where
  "host_set_outputs net randomise =
     bindM (if randomise then randomly (random_bool 100) else ret False) (\<lambda>inject_a.
     bindM (if inject_a then part h_a (\<lambda>a h. h\<lparr>h_a := a\<rparr>) (queue_request_a net True Map.empty) else ret ()) (\<lambda>_.
     bindM (if randomise then randomly (random_bool 100) else ret False) (\<lambda>inject_c.
     bindM (if inject_c then part h_c (\<lambda>c h. h\<lparr>h_c := c\<rparr>) (queue_request_c net True Map.empty) else ret ()) (\<lambda>_.
     bindM (part h_a (\<lambda>a h. h\<lparr>h_a := a\<rparr>) (sender_set_outputs methods_a randomise)) (\<lambda>_.
     bindM (part h_c (\<lambda>c h. h\<lparr>h_c := c\<rparr>) (sender_set_outputs (methods_c net) randomise)) (\<lambda>_.
     part h_e (\<lambda>e h. h\<lparr>h_e := e\<rparr>) (sender_set_outputs methods_e randomise)))))))"

end
