(* ===== verification/TL_Reasoning.thy ===== *)
theory TL_Reasoning
  imports TL_Devices
begin

text \<open>
  Reasoning about programs of channel ends, and the invariant of senders. A triple says that
  a program started in \<open>P\<close> returns a result and state in \<open>Q\<close>, or fails in a state of the
  invariant \<open>I\<close>. The locale \<open>tl_sender\<close> states what the generic sender relies on of the
  five channels.
\<close>

section \<open>Triples\<close>

definition triple :: "('s \<Rightarrow> bool) \<Rightarrow> ('s \<Rightarrow> bool) \<Rightarrow> ('s, 'a) tl \<Rightarrow> ('a \<Rightarrow> 's \<Rightarrow> bool) \<Rightarrow> bool" where
  "triple I P m Q \<longleftrightarrow>
     (\<forall>g s. P s \<longrightarrow> (case m (g, s) of (r, (g', s')) \<Rightarrow> case r of Inl e \<Rightarrow> I s' | Inr x \<Rightarrow> Q x s'))"

lemma tripleD:
  "triple I P m Q \<Longrightarrow> P s \<Longrightarrow> m (g, s) = (r, (g', s')) \<Longrightarrow> (case r of Inl e \<Rightarrow> I s' | Inr x \<Rightarrow> Q x s')"
  unfolding triple_def by (fastforce split: prod.splits)

lemma tripleI:
  "(\<And>g s r g' s'. P s \<Longrightarrow> m (g, s) = (r, (g', s')) \<Longrightarrow> (case r of Inl e \<Rightarrow> I s' | Inr x \<Rightarrow> Q x s')) \<Longrightarrow>
     triple I P m Q"
  unfolding triple_def by (auto split: prod.split)

lemma triple_bind:
  assumes "triple I P m R" "\<And>x. triple I (R x) (k x) Q"
  shows "triple I P (bindM m k) Q"
proof (rule tripleI)
  fix g s r g' s'
  assume P: "P s" and b: "bindM m k (g, s) = (r, (g', s'))"
  obtain r1 g1 s1 where m: "m (g, s) = (r1, (g1, s1))" by (metis surj_pair)
  show "case r of Inl e \<Rightarrow> I s' | Inr x \<Rightarrow> Q x s'"
    using tripleD [OF assms(1) P m] b m tripleD [OF assms(2)]
    by (cases r1) (fastforce simp: bindM_apply)+
qed

lemma triple_weaken:
  "triple I P' m Q' \<Longrightarrow> (\<And>s. P s \<Longrightarrow> P' s) \<Longrightarrow> (\<And>x s. Q' x s \<Longrightarrow> Q x s) \<Longrightarrow> triple I P m Q"
  by (rule tripleI) (fastforce dest: tripleD split: sum.splits)

lemma triple_pure: "(V \<Longrightarrow> triple I P m Q) \<Longrightarrow> triple I (\<lambda>s. P s \<and> V) m Q"
  by (cases V) (auto simp: triple_def)

named_theorems triple_intros \<open>rules for triples of basic programs\<close>

lemma triple_ret [triple_intros]: "(\<And>s. P s \<Longrightarrow> Q x s) \<Longrightarrow> triple I P (ret x) Q"
  and triple_fail [triple_intros]: "(\<And>s. P s \<Longrightarrow> I s) \<Longrightarrow> triple I P (fail e) Q"
  and triple_own [triple_intros]: "(\<And>s. P s \<Longrightarrow> Q (f s) s) \<Longrightarrow> triple I P (own f) Q"
  by (auto simp: triple_def prog_simps)

lemma triple_change [triple_intros]: "(\<And>s. P s \<Longrightarrow> Q () (h s)) \<Longrightarrow> triple I P (change h) Q"
  by (auto simp: triple_def prog_simps)

lemma triple_if [triple_intros]:
  "(b \<Longrightarrow> triple I P m Q) \<Longrightarrow> (\<not> b \<Longrightarrow> triple I P n Q) \<Longrightarrow> triple I P (if b then m else n) Q"
  by simp

lemma triple_assertM:
  "(\<And>s. P s \<Longrightarrow> b \<Longrightarrow> Q () s) \<Longrightarrow> (\<And>s. P s \<Longrightarrow> I s) \<Longrightarrow> triple I P (assertM b) Q"
  by (auto simp: triple_def prog_simps)

lemma triple_of_sum:
  "(\<And>s y. P s \<Longrightarrow> x = Inr y \<Longrightarrow> Q y s) \<Longrightarrow> (\<And>s. P s \<Longrightarrow> I s) \<Longrightarrow> triple I P (of_sum x) Q"
  by (auto simp: triple_def prog_simps split: sum.split)

lemma triple_randomly:
  "(\<And>s g x g'. P s \<Longrightarrow> m g = (Inr x, g') \<Longrightarrow> Q x s) \<Longrightarrow> (\<And>s. P s \<Longrightarrow> I s) \<Longrightarrow> triple I P (randomly m) Q"
  by (fastforce simp: triple_def prog_simps split: prod.split sum.split)

lemma triple_try:
  assumes "triple I P m Q"
  shows "triple I P (tryM m) (\<lambda>r s. case r of Inl e \<Rightarrow> I s | Inr x \<Rightarrow> Q x s)"
  by (rule tripleI) (use tripleD [OF assms] in \<open>auto simp: tryM_apply split: prod.splits\<close>)

text \<open>Programs that leave the state of the channel end alone.\<close>

definition readonly :: "('s, 'a) tl \<Rightarrow> bool" where
  "readonly m \<longleftrightarrow> (\<forall>g s. snd (snd (m (g, s))) = s)"

named_theorems readonly_intros \<open>programs that leave the state alone\<close>

lemma readonly_basic [readonly_intros]:
  "readonly (ret x)" "readonly (fail e)" "readonly (own f)" "readonly (randomly p)" "readonly (of_sum y)"
  "readonly (assertM b)" "readonly (gets f')"
  by (simp_all add: readonly_def prog_simps split: prod.split)

lemma readonly_bind [readonly_intros]:
  assumes "readonly m" "\<And>x. readonly (k x)"
  shows "readonly (bindM m k)"
  unfolding readonly_def
proof (intro allI)
  fix g s
  obtain r g' s' where m: "m (g, s) = (r, (g', s'))" by (metis surj_pair)
  moreover have "s' = s" using assms(1) m unfolding readonly_def by (metis snd_conv)
  ultimately show "snd (snd (bindM m k (g, s))) = s"
    using assms(2) by (cases r) (auto simp: bindM_apply readonly_def)
qed

lemma readonly_if [readonly_intros]:
  "(b \<Longrightarrow> readonly m) \<Longrightarrow> (\<not> b \<Longrightarrow> readonly n) \<Longrightarrow> readonly (if b then m else n)"
  by simp

lemma readonly_prod [readonly_intros]: "(\<And>x y. readonly (f x y)) \<Longrightarrow> readonly (case p of (x, y) \<Rightarrow> f x y)"
  by (cases p) simp

lemma triple_readonly:
  assumes "readonly m" "\<And>s. P s \<Longrightarrow> I s" "\<And>x s. P s \<Longrightarrow> Q x s"
  shows "triple I P m Q"
proof (rule tripleI)
  fix g s r g' s'
  assume "P s" "m (g, s) = (r, (g', s'))"
  moreover from this(2) have "s' = s" using assms(1) unfolding readonly_def by (metis snd_conv)
  ultimately show "case r of Inl e \<Rightarrow> I s' | Inr x \<Rightarrow> Q x s'" using assms(2,3) by (auto split: sum.split)
qed

lemma triple_bind_readonly:
  "readonly m \<Longrightarrow> (\<And>s. P s \<Longrightarrow> I s) \<Longrightarrow> (\<And>x. triple I P (k x) Q) \<Longrightarrow> triple I P (bindM m k) Q"
  by (rule triple_bind [where R = "\<lambda>_. P"]) (auto intro: triple_readonly)

lemma readonly_draw_id [readonly_intros]: "readonly (draw_id n)"
  by (induction n) (simp_all, (intro readonly_intros | assumption)+)

lemma readonly_get_transaction_id [readonly_intros]: "readonly (get_transaction_id b)"
  unfolding get_transaction_id_def by (intro readonly_intros)

lemma readonly_get_routing_id [readonly_intros]: "readonly (get_routing_id b)"
  unfolding get_routing_id_def by (intro readonly_intros)

lemma readonly_requests [readonly_intros]:
  "readonly (new_a_request net b)" "readonly (new_c_request net b)" "readonly (new_d_response_a ra b)"
  "readonly (new_d_response_c rc b)"
  unfolding new_a_request_def new_a_request_random_def new_a_request_default_def new_c_request_def
    new_d_response_a_def new_d_response_c_def
  by (intro readonly_intros | simp add: readonly_basic split: tl_c_op_e.split)+

lemma readonly_b_addresses [readonly_intros]:
  "readonly (draw_b_address n z src)" "readonly (next_b_address n z src ad)"
  by (induction n arbitrary: ad) (simp_all, (intro readonly_intros | assumption)+)

lemma readonly_new_b_request [readonly_intros]: "readonly (new_b_request net b)"
  unfolding new_b_request_def by (intro readonly_intros)

section \<open>The invariant of senders\<close>

text \<open>
  The counters of a message are in order. In the queue, only the front message can be in
  progress and only the last one can be incomplete, which is what \<open>locked\<close> tells. A valid
  beat on the channel belongs to the front message. \<open>good\<close> is what a channel asks of its
  messages. Modifications that duplicate or drop beats are left out: they exist to break the
  protocol.
\<close>

definition msg_ok :: "'c tl_message \<Rightarrow> bool" where
  "msg_ok m \<longleftrightarrow> 0 \<le> beats_generated m \<and> beats_generated m \<le> beats_ready m \<and>
     beats_ready m \<le> beats_to_send m \<and> 0 < beats_to_send m"

definition queue_ok :: "('c tl_message \<Rightarrow> bool) \<Rightarrow> 'c tl_message list \<Rightarrow> bool" where
  "queue_ok good q \<longleftrightarrow> (\<forall>m \<in> set q. msg_ok m \<and> good m) \<and> (\<forall>m \<in> set (tl q). beats_generated m = 0) \<and>
     (\<forall>m \<in> set (butlast q). complete m)"

definition unfinished_tail :: "'c tl_message list \<Rightarrow> bool" where
  "unfinished_tail q \<longleftrightarrow> q \<noteq> [] \<and> \<not> complete (last q)"

definition plain_updates :: "updates \<Rightarrow> bool" where
  "plain_updates u \<longleftrightarrow> u ''duplicate_beat'' = None \<and> u ''drop_beat'' = None"

definition sender_ok ::
  "(('c, 'z) sender_scheme \<Rightarrow> bool) \<Rightarrow> ('c tl_message \<Rightarrow> bool) \<Rightarrow> ('c, 'z) sender_scheme \<Rightarrow> bool" where
  "sender_ok locked good s \<longleftrightarrow>
     queue_ok good (to_send s) \<and> (locked s \<longleftrightarrow> unfinished_tail (to_send s)) \<and>
     (get_valid s \<longrightarrow> to_send s \<noteq> [] \<and> 0 < beats_generated (hd (to_send s))) \<and>
     (\<forall>u \<in> set (modifications s). plain_updates u)"

text \<open>The invariant between beats: nothing is on the channel.\<close>

definition idle_ok ::
  "(('c, 'z) sender_scheme \<Rightarrow> bool) \<Rightarrow> ('c tl_message \<Rightarrow> bool) \<Rightarrow> ('c, 'z) sender_scheme \<Rightarrow> bool" where
  "idle_ok locked good s \<longleftrightarrow> sender_ok locked good s \<and> \<not> get_valid s"

lemma idle_okI: "sender_ok locked good s \<Longrightarrow> \<not> get_valid s \<Longrightarrow> idle_ok locked good s"
  and idle_ok_sender_ok: "idle_ok locked good s \<Longrightarrow> sender_ok locked good s"
  by (simp_all add: idle_ok_def)

lemma queue_ok_Nil [simp]: "queue_ok good []"
  by (simp add: queue_ok_def)

lemma queue_ok_Cons:
  "queue_ok good (m # q) \<longleftrightarrow> msg_ok m \<and> good m \<and> (q \<noteq> [] \<longrightarrow> complete m) \<and>
     (\<forall>m \<in> set q. msg_ok m \<and> good m \<and> beats_generated m = 0) \<and> (\<forall>m \<in> set (butlast q). complete m)"
  by (auto simp: queue_ok_def)

lemma queue_ok_tl: "queue_ok good q \<Longrightarrow> queue_ok good (tl q)"
  by (cases q; cases "tl q") (auto simp: queue_ok_Cons split: if_splits)

lemma queue_ok_push:
  assumes "queue_ok good q" "\<not> unfinished_tail q" "msg_ok m" "good m" "beats_generated m = 0"
  shows "queue_ok good (q @ [m])"
proof (cases q rule: rev_cases)
  case Nil
  with assms show ?thesis by (simp add: queue_ok_Cons)
next
  case (snoc q' l)
  with assms(2) have "complete l" by (simp add: unfinished_tail_def)
  with assms snoc show ?thesis by (cases q') (auto simp: queue_ok_def butlast_append)
qed

lemma queue_ok_rotate:
  assumes "queue_ok good q" "q \<noteq> []" "\<not> in_progress (hd q)" "complete (last q)"
  shows "queue_ok good (rotate_queue q) \<and> \<not> unfinished_tail (rotate_queue q)"
proof -
  obtain m q' where q: "q = m # q'" using assms(2) by (cases q) auto
  then have m: "msg_ok m" "good m" "beats_generated m = 0" "complete m" "queue_ok good q'"
    using assms queue_ok_tl [OF assms(1)]
    by (auto simp: queue_ok_Cons in_progress_def msg_ok_def split: if_splits)
  moreover have "\<not> unfinished_tail q'" using assms(4) q by (auto simp: unfinished_tail_def split: if_splits)
  ultimately show ?thesis
    using queue_ok_push [of good q' m] q by (simp add: rotate_queue_def unfinished_tail_def)
qed

lemma queue_ok_set_front:
  assumes "queue_ok good (m # q)" "msg_ok m'" "good m'" "beats_ready m' = beats_ready m"
    "beats_to_send m' = beats_to_send m"
  shows "queue_ok good (m' # q) \<and> unfinished_tail (m' # q) = unfinished_tail (m # q)"
  using assms by (auto simp: queue_ok_Cons unfinished_tail_def complete_def)

section \<open>The interface of the five channels\<close>

text \<open>
  What the generic sender relies on: \<open>beat h i\<close> is beat \<open>i\<close> of a message with header \<open>h\<close> when
  nothing is randomised; taking a beat only counts it; responding and reordering requests keep
  the invariant and put nothing on the channel.
\<close>

locale tl_sender =
  fixes M :: "(('c, 'z) sender_scheme, 'c) sender_methods"
    and locked :: "('c, 'z) sender_scheme \<Rightarrow> bool"
    and good :: "'c tl_message \<Rightarrow> bool"
    and beat :: "'c \<Rightarrow> int \<Rightarrow> 'c"
  assumes locked_base:
      "locked (s\<lparr>to_send := q\<rparr>) = locked s" "locked (s\<lparr>channel := w\<rparr>) = locked s"
      "locked (s\<lparr>modifications := us\<rparr>) = locked s" "locked (s\<lparr>beat_accepted := b\<rparr>) = locked s"
    and good_counters: "good (m\<lparr>beats_generated := n\<rparr>) = good m"
    and next_beat_counts: "sm_next_beat M rnd m g = (Inr (x, m'), g') \<Longrightarrow>
      m' = m\<lparr>beats_generated := beats_generated m + 1\<rparr>"
    and next_beat_plain: "msg_ok m \<Longrightarrow> good m \<Longrightarrow> can_send m \<Longrightarrow>
      sm_next_beat M False m g = (Inr (beat (header m) (beats_generated m),
        m\<lparr>beats_generated := beats_generated m + 1\<rparr>), g)"
    and respond_ok: "triple (idle_ok locked good) (idle_ok locked good) (sm_respond M) (\<lambda>_. idle_ok locked good)"
    and reorder_requests_ok: "idle_ok locked good s \<Longrightarrow> idle_ok locked good (sm_reorder_requests M s)"
begin

abbreviation ok :: "('c, 'z) sender_scheme \<Rightarrow> bool" where
  "ok \<equiv> sender_ok locked good"

abbreviation idle :: "('c, 'z) sender_scheme \<Rightarrow> bool" where
  "idle \<equiv> idle_ok locked good"

lemma retract_ok:
  assumes "ok s" "get_valid s"
  shows "idle (set_front_message (unsend (hd (to_send s))) (set_valid False s))"
proof -
  obtain m q where q: "to_send s = m # q" using assms by (cases "to_send s") (auto simp: sender_ok_def locked_base good_counters)
  then have "queue_ok good (unsend m # q) \<and> unfinished_tail (unsend m # q) = unfinished_tail (m # q)"
    using assms by (intro queue_ok_set_front)
      (auto simp: sender_ok_def locked_base good_counters queue_ok_Cons msg_ok_def unsend_def)
  then show ?thesis
    using assms q by (simp add: idle_ok_def sender_ok_def locked_base good_counters set_front_message_def set_valid_def get_valid_def)
qed

lemma pending_beat_ok:
  "triple ok ok (pending_beat rnd) (\<lambda>keep s. if keep then ok s else idle s)"
  unfolding pending_beat_def
  apply (rule triple_bind [where R = "\<lambda>v s. ok s \<and> v = get_valid s"], intro triple_intros, simp)
  apply (intro triple_intros)
   apply (rule triple_bind [where R = "\<lambda>q s. ok s \<and> get_valid s"], intro triple_intros, simp)
   apply (rule triple_bind [where R = "\<lambda>_ s. ok s \<and> get_valid s"], rule triple_assertM, simp, simp)
   apply (rule triple_bind [where R = "\<lambda>_ s. ok s \<and> get_valid s"], rule triple_readonly)
      apply (intro readonly_intros, simp, simp)
   apply (intro triple_intros)
    apply (rule triple_bind [where R = "\<lambda>_. idle"], intro triple_intros, simp add: retract_ok)
    apply (intro triple_intros, simp, simp)
  apply (auto simp: idle_ok_def)
  done

lemma clear_completed_ok: "idle s \<Longrightarrow> idle (clear_completed s)"
  by (cases "to_send s"; cases "tl (to_send s)")
    (auto simp: clear_completed_def idle_ok_def sender_ok_def locked_base good_counters get_valid_def queue_ok_Cons unfinished_tail_def
      finished_def complete_def msg_ok_def split: if_splits)

lemma reorder_responses_ok: "idle s \<Longrightarrow> idle (reorder_responses s)"
  using queue_ok_rotate [of good "to_send s"]
  by (auto simp: reorder_responses_def idle_ok_def sender_ok_def locked_base good_counters get_valid_def unfinished_tail_def)

lemma send_beat_ok:
  "triple ok (\<lambda>s. idle s \<and> to_send s \<noteq> [] \<and> can_send (hd (to_send s))) (send_beat M rnd) (\<lambda>_. ok)"
proof (rule tripleI)
  fix g s r g' s'
  assume s: "idle s \<and> to_send s \<noteq> [] \<and> can_send (hd (to_send s))" and b: "send_beat M rnd (g, s) = (r, (g', s'))"
  obtain m q where q: "to_send s = m # q" using s by (cases "to_send s") auto
  obtain r1 g1 where n: "sm_next_beat M rnd m g = (r1, g1)" by fastforce
  let ?m = "m\<lparr>beats_generated := beats_generated m + 1\<rparr>"
  have "queue_ok good (?m # q) \<and> unfinished_tail (?m # q) = unfinished_tail (m # q)"
    using s q by (intro queue_ok_set_front)
      (auto simp: idle_ok_def sender_ok_def locked_base good_counters queue_ok_Cons msg_ok_def can_send_def)
  moreover have "0 \<le> beats_generated m"
    using s q by (auto simp: idle_ok_def sender_ok_def locked_base good_counters queue_ok_Cons msg_ok_def)
  ultimately show "case r of Inl e \<Rightarrow> ok s' | Inr x \<Rightarrow> ok s'"
    using s b q n next_beat_counts [of rnd m g] idle_ok_sender_ok [of locked good s]
    by (cases r1; cases "modifications s")
      (auto simp: send_beat_def prog_simps Let_def plain_updates_def sender_ok_def locked_base good_counters idle_ok_def
        set_front_message_def set_valid_def set_data_def get_valid_def split: prod.splits)
qed

lemma set_outputs_ok: "triple ok ok (sender_set_outputs M rnd) (\<lambda>_. ok)"
proof -
  let ?J = "\<lambda>(_ :: unit). idle"
  have weak: "triple ok P m Q" if "triple idle P m Q" for P m and Q :: "unit \<Rightarrow> _"
    using that unfolding triple_def by (fastforce simp: idle_ok_def split: prod.splits sum.splits)
  show ?thesis
    unfolding sender_set_outputs_def
    apply (rule triple_bind [OF pending_beat_ok])
    apply (rule triple_if, (intro triple_intros, simp))
    apply (rule triple_bind [where R = ?J], intro triple_intros, simp add: clear_completed_ok)
    apply (rule triple_bind [where R = "\<lambda>_. idle"], intro triple_intros, simp)
    apply (rule triple_bind [where R = "\<lambda>_. idle"], rule triple_readonly, intro readonly_intros,
        simp add: idle_ok_def, simp)
    apply (rule triple_bind [where R = ?J], intro triple_intros,
        simp add: reorder_responses_ok reorder_requests_ok, simp)
    apply (rule triple_bind [where R = "\<lambda>_. idle"], rule triple_readonly, intro readonly_intros,
        simp add: idle_ok_def, simp)
    apply (rule triple_bind [where R = ?J], rule triple_if, rule weak, rule respond_ok, intro triple_intros, simp)
    apply (rule triple_bind [where R = "\<lambda>a s. idle s \<and> (a \<longrightarrow> to_send s \<noteq> [] \<and> can_send (hd (to_send s)))"],
        intro triple_intros, simp)
    apply (rule triple_bind_readonly, intro readonly_intros, simp add: idle_ok_def)
    apply (rule triple_if, rule triple_weaken [OF send_beat_ok], simp, simp)
    apply (intro triple_intros, simp add: idle_ok_def)
    done
qed

end

section \<open>The five channels\<close>

definition fresh :: "('c tl_message \<Rightarrow> bool) \<Rightarrow> 'c tl_message \<Rightarrow> bool" where
  "fresh good m \<longleftrightarrow> msg_ok m \<and> good m \<and> beats_generated m = 0"

lemma idle_ok_push:
  assumes "idle_ok locked good s" "\<not> locked s" "fresh good m"
  shows "idle_ok (\<lambda>_. \<not> complete m) good (push_message m s)"
  using assms queue_ok_push [of good "to_send s" m]
  by (simp add: idle_ok_def sender_ok_def push_message_def get_valid_def fresh_def unfinished_tail_def)

lemma idle_ok_push_complete:
  assumes "idle_ok (\<lambda>_. False) good s" "fresh good m" "complete m"
  shows "idle_ok (\<lambda>_. False) good (push_message m s)"
  using idle_ok_push [OF assms(1) _ assms(2)] assms(3) by simp

lemma idle_ok_cong:
  "to_send s' = to_send s \<Longrightarrow> channel s' = channel s \<Longrightarrow> modifications s' = modifications s \<Longrightarrow>
     locked' s' = locked s \<Longrightarrow> idle_ok locked' good s' = idle_ok locked good s"
  by (simp add: idle_ok_def sender_ok_def get_valid_def)

lemma triple_sized_message:
  assumes "\<And>s. P s \<Longrightarrow> I s" "\<And>n. n > 0 \<Longrightarrow> 0 \<le> ready n \<and> ready n \<le> n"
    and "\<And>m s. P s \<Longrightarrow> msg_ok m \<Longrightarrow> beats_generated m = 0 \<Longrightarrow> header m = h \<Longrightarrow>
      num = Inr (beats_to_send m) \<Longrightarrow> beats_ready m = ready (beats_to_send m) \<Longrightarrow> Q m s"
  shows "triple I P (sized_message ep h num ready) Q"
proof (rule tripleI)
  fix g s r g' s'
  assume P: "P s" and m: "sized_message ep h num ready (g, s) = (r, (g', s'))"
  show "case r of Inl e \<Rightarrow> I s' | Inr x \<Rightarrow> Q x s'"
    using assms(1) [OF P] assms(2) assms(3) [OF P] m
    by (auto simp: sized_message_def prog_simps msg_ok_def split: sum.splits if_splits)
qed

lemma triple_respond_loop:
  assumes "\<And>r. triple I I (act r) (\<lambda>_. I)" "\<And>q s. I s \<Longrightarrow> I (put q s)"
  shows "triple I I (respond_loop fifo get put act n) (\<lambda>_. I)"
proof (induction n)
  case 0
  show ?case by (simp, intro triple_intros)
next
  case (Suc n)
  have t: "triple I I (tryM (act r)) (\<lambda>_. I)" for r
    by (rule triple_weaken [OF triple_try [OF assms(1)]]) (auto split: sum.splits)
  show ?case
    unfolding respond_loop.simps
    by (rule triple_bind [where R = "\<lambda>_. I"], (intro triple_intros, assumption),
        rule triple_bind [OF t], rule triple_bind [where R = "\<lambda>_. I"], (intro triple_intros, assumption))
      (auto split: sum.split intro!: triple_intros triple_bind [where R = "\<lambda>_. I"] Suc simp: assms(2))
qed

lemma triple_respond_all:
  assumes "\<And>r. triple I I (act r) (\<lambda>_. I)" "\<And>q s. I s \<Longrightarrow> I (put q s)"
  shows "triple I I (bindM (respond_all fifo get put act) (\<lambda>_. ret ())) (\<lambda>_. I)"
  unfolding respond_all_def bindM_assoc
  by (rule triple_bind [where R = "\<lambda>_. I"], (intro triple_intros, assumption),
      rule triple_bind [OF triple_respond_loop [OF assms]]) (auto intro: triple_intros)

lemma triple_start_transaction:
  assumes "\<And>s i. P s \<Longrightarrow> P (s\<lparr>ids_in_use := i\<rparr>)"
  shows "triple P P (start_transaction i) (\<lambda>_. P)"
  unfolding start_transaction_def
  by (rule triple_bind [where R = "\<lambda>_. P"], (intro triple_intros, assumption),
      rule triple_bind [where R = "\<lambda>_. P"], rule triple_assertM, assumption, assumption, intro triple_intros)
    (simp add: assms)

definition single_beat :: "'c tl_message \<Rightarrow> bool" where
  "single_beat m \<longleftrightarrow> beats_to_send m = 1"

lemma idle_ok_ids [simp]: "idle_ok (\<lambda>_. b) good (s\<lparr>ids_in_use := i\<rparr>) = idle_ok (\<lambda>_. b) good s"
  and idle_ok_b_requests [simp]:
    "idle_ok (\<lambda>_. b) gb (sb\<lparr>b_a_requests := qb\<rparr>) = idle_ok (\<lambda>_. b) gb sb"
  and idle_ok_c_requests [simp]:
    "idle_ok (\<lambda>_. b) gc (sc\<lparr>c_b_requests := qc\<rparr>) = idle_ok (\<lambda>_. b) gc sc"
  and idle_ok_e_requests [simp]:
    "idle_ok (\<lambda>_. b) ge (se\<lparr>e_d_requests := qe\<rparr>) = idle_ok (\<lambda>_. b) ge se"
  by (rule idle_ok_cong; simp)+

text \<open>Beat \<open>i\<close> of a message without random changes.\<close>

definition beat_a :: "tl_a \<Rightarrow> int \<Rightarrow> tl_a" where
  "beat_a h i = h\<lparr>a_data := a_data h + word_of_int i\<rparr>"

definition beat_c :: "tl_c \<Rightarrow> int \<Rightarrow> tl_c" where
  "beat_c h i = h\<lparr>c_data := c_data h + word_of_int i\<rparr>"

definition beat_d :: "tl_d \<Rightarrow> int \<Rightarrow> tl_d" where
  "beat_d h i = h\<lparr>d_data := d_data h + word_of_int i\<rparr>"

interpretation send_a: tl_sender methods_a "\<lambda>_. False" "\<lambda>_. True" beat_a
proof
  show "triple (idle_ok (\<lambda>_. False) (\<lambda>_. True)) (idle_ok (\<lambda>_. False) (\<lambda>_. True)) (sm_respond methods_a)
      (\<lambda>_. idle_ok (\<lambda>_. False) (\<lambda>_. True))"
    by (simp add: methods_a_def, intro triple_intros)
qed (auto simp: methods_a_def next_beat_a_def beat_a_def prog_simps Let_def split: if_splits sum.splits prod.splits)

subsection \<open>Channel C\<close>

lemma message_c_response_fresh:
  "triple (idle_ok b good) (idle_ok b good) (message_c_response net request rnd)
     (\<lambda>m s. idle_ok b good s \<and> fresh (\<lambda>_. True) m \<and> complete m)"
  unfolding message_c_response_def
  by (rule triple_bind_readonly, intro readonly_intros, assumption,
      rule triple_bind_readonly, intro readonly_intros, assumption,
      rule triple_bind_readonly, intro readonly_intros, assumption,
      rule triple_sized_message) (auto simp: complete_def fresh_def)

lemma respond_c_to_ok:
  "triple (idle_ok (\<lambda>_. False) (\<lambda>_. True)) (idle_ok (\<lambda>_. False) (\<lambda>_. True)) (respond_c_to net r)
     (\<lambda>_. idle_ok (\<lambda>_. False) (\<lambda>_. True))"
  unfolding respond_c_to_def split_beta
  by (rule triple_bind_readonly, intro readonly_intros, assumption,
      rule triple_bind_readonly, intro readonly_intros, assumption,
      rule triple_bind [OF message_c_response_fresh], intro triple_intros)
    (simp add: idle_ok_push_complete)

interpretation send_c: tl_sender "methods_c net" "\<lambda>_. False" "\<lambda>_. True" beat_c for net
proof
  show "triple (idle_ok (\<lambda>_. False) (\<lambda>_. True)) (idle_ok (\<lambda>_. False) (\<lambda>_. True)) (sm_respond (methods_c net))
      (\<lambda>_. idle_ok (\<lambda>_. False) (\<lambda>_. True))"
    unfolding methods_c_def sender_methods.simps respond_c_def
    by (rule triple_respond_all [OF respond_c_to_ok]) simp
  show "idle_ok (\<lambda>_. False) (\<lambda>_. True) (sm_reorder_requests (methods_c net) s)"
    if "idle_ok (\<lambda>_. False) (\<lambda>_. True) s" for s
    using that by (simp add: methods_c_def)
qed (auto simp: methods_c_def next_beat_c_def beat_c_def prog_simps Let_def split: if_splits sum.splits prod.splits)

subsection \<open>Channel E\<close>

lemma respond_e_to_ok:
  "triple (idle_ok (\<lambda>_. False) single_beat) (idle_ok (\<lambda>_. False) single_beat) (respond_e_to r)
     (\<lambda>_. idle_ok (\<lambda>_. False) single_beat)"
proof -
  have m: "triple (idle_ok (\<lambda>_. False) single_beat) (idle_ok (\<lambda>_. False) single_beat) (message_e_response q)
     (\<lambda>m s. idle_ok (\<lambda>_. False) single_beat s \<and> fresh single_beat m \<and> complete m)" for q
    unfolding message_e_response_def
    by (rule triple_bind_readonly, intro readonly_intros, assumption, rule triple_of_sum)
      (auto simp: new_message_base_def fresh_def msg_ok_def single_beat_def complete_def split: if_splits)
  show ?thesis
    unfolding respond_e_to_def split_beta
    by (rule triple_bind_readonly, intro readonly_intros, assumption,
        rule triple_bind_readonly, intro readonly_intros, assumption,
        rule triple_bind [OF m], intro triple_intros)
      (simp add: idle_ok_push_complete)
qed

interpretation send_e: tl_sender methods_e "\<lambda>_. False" single_beat "\<lambda>h i. h"
proof
  show "triple (idle_ok (\<lambda>_. False) single_beat) (idle_ok (\<lambda>_. False) single_beat) (sm_respond methods_e)
      (\<lambda>_. idle_ok (\<lambda>_. False) single_beat)"
    unfolding methods_e_def sender_methods.simps respond_e_def
    by (rule triple_respond_all [OF respond_e_to_ok]) simp
  show "idle_ok (\<lambda>_. False) single_beat (sm_reorder_requests methods_e s)"
    if "idle_ok (\<lambda>_. False) single_beat s" for s
    using that by (simp add: methods_e_def)
qed (auto simp: methods_e_def next_beat_e_def prog_simps single_beat_def msg_ok_def can_send_def split: if_splits)

subsection \<open>Channel B\<close>

abbreviation idle_b :: "sender_b \<Rightarrow> bool" where
  "idle_b \<equiv> idle_ok (\<lambda>_. False) single_beat"

lemma message_b_response_fresh:
  "triple idle_b idle_b (message_b_response request rnd) (\<lambda>m s. idle_b s \<and> fresh single_beat m \<and> complete m)"
  unfolding message_b_response_def
  by (rule triple_bind_readonly, intro readonly_intros, assumption,
      rule triple_bind_readonly, intro readonly_intros, assumption,
      rule triple_bind_readonly, intro readonly_intros, assumption,
      rule triple_bind [where R = "\<lambda>n s. idle_b s \<and> n = 1"], rule triple_of_sum)
    (auto simp: num_beats_b_def payload_beats_def new_message_base_def fresh_def msg_ok_def single_beat_def
      complete_def split: if_splits intro!: triple_of_sum)

lemma fresh_header [simp]:
  "fresh single_beat (m\<lparr>header := h\<rparr>) = fresh single_beat m" "complete (m\<lparr>header := h\<rparr>) = complete m"
  by (simp_all add: fresh_def msg_ok_def single_beat_def complete_def)

lemma probe_hosts_ok:
  "fresh single_beat m \<Longrightarrow> complete m \<Longrightarrow> triple idle_b idle_b (probe_hosts m hosts) (\<lambda>_. idle_b)"
proof (induction hosts arbitrary: m)
  case Nil
  show ?case by (simp, intro triple_intros, assumption)
next
  case (Cons host hosts)
  show ?case
  proof (cases "ep_protocol host = TL_C")
    case False
    with Cons show ?thesis by simp
  next
    case True
    then show ?thesis
      apply (simp add: Let_def)
      apply (rule triple_bind_readonly, intro readonly_intros, assumption)
      apply (rule triple_bind_readonly, intro readonly_intros, assumption)
      apply (rule triple_bind_readonly, intro readonly_intros, assumption)
      apply (rule triple_if, intro triple_intros, assumption)
      apply (rule triple_bind [where R = "\<lambda>_. idle_b"], intro triple_intros)
       apply (simp add: idle_ok_push_complete Cons.prems)
      apply (rule triple_bind [OF triple_start_transaction], simp)
      apply (rule Cons.IH; simp add: Cons.prems)
      done
  qed
qed

lemma respond_b_to_ok: "triple idle_b idle_b (respond_b_to net r) (\<lambda>_. idle_b)"
  unfolding respond_b_to_def split_beta
  by (rule triple_bind_readonly, intro readonly_intros, assumption,
      rule triple_bind_readonly, intro readonly_intros, assumption,
      rule triple_bind [OF message_b_response_fresh], rule triple_pure)
    (simp add: probe_hosts_ok)

interpretation send_b: tl_sender "methods_b net" "\<lambda>_. False" single_beat "\<lambda>h i. h" for net
proof
  show "triple idle_b idle_b (sm_respond (methods_b net)) (\<lambda>_. idle_b)"
    unfolding methods_b_def sender_methods.simps respond_b_def
    by (rule triple_respond_all [OF respond_b_to_ok]) simp
  show "idle_b (sm_reorder_requests (methods_b net) s)" if "idle_b s" for s
    using that by (simp add: methods_b_def)
qed (auto simp: methods_b_def next_beat_b_def prog_simps single_beat_def msg_ok_def can_send_def split: if_splits)

subsection \<open>Channel D\<close>

abbreviation idle_d :: "sender_d \<Rightarrow> bool" where
  "idle_d \<equiv> idle_ok lock_output_buffer (\<lambda>_. True)"

lemma idle_d_updates [simp]:
  "idle_d (s\<lparr>d_a_requests := qa\<rparr>) = idle_d s" "idle_d (s\<lparr>d_c_requests := qc\<rparr>) = idle_d s"
  "idle_d (s\<lparr>ids_in_use := i\<rparr>) = idle_d s"
  by (rule idle_ok_cong; simp)+

lemma idle_d_set_lock: "idle_ok (\<lambda>_. b) (\<lambda>_. True) s \<Longrightarrow> idle_d (s\<lparr>lock_output_buffer := b\<rparr>)"
  by (subst idle_ok_cong [of _ s]) auto

lemma idle_d_unlocked:
  assumes "idle_d s" "\<not> lock_output_buffer s" "fresh (\<lambda>_. True) m"
  shows "idle_ok (\<lambda>_. \<not> complete m) (\<lambda>_. True) (push_message m s)"
  using assms by (rule idle_ok_push)

lemma push_complete_d:
  assumes "idle_d s" "\<not> lock_output_buffer s" "fresh (\<lambda>_. True) m" "complete m"
  shows "idle_d (push_message m s)"
  using idle_d_unlocked [OF assms(1-3)] assms(2,4)
  by (subst idle_ok_cong [of _ "push_message m s" _ "\<lambda>_. False"]) (auto simp: push_message_def)

lemma register_sink_ok: "triple idle_d idle_d (register_sink h) (\<lambda>_. idle_d)"
  unfolding register_sink_def
  by (rule triple_if, rule triple_start_transaction, simp) (intro triple_intros, assumption)

lemma continue_response_ok:
  "triple idle_d (\<lambda>s. idle_d s \<and> to_send s \<noteq> [] \<and> \<not> complete (last (to_send s))) continue_response (\<lambda>_. idle_d)"
proof (rule tripleI)
  fix g s r g' s'
  assume s: "idle_d s \<and> to_send s \<noteq> [] \<and> \<not> complete (last (to_send s))"
    and c: "continue_response (g, s) = (r, (g', s'))"
  obtain q m where q: "to_send s = q @ [m]" using s by (metis append_butlast_last_id)
  let ?m = "m\<lparr>beats_ready := beats_ready m + 1\<rparr>"
  have m: "msg_ok m" "beats_ready m < beats_to_send m"
    using s q by (auto simp: idle_ok_def sender_ok_def queue_ok_def msg_ok_def complete_def)
  have "queue_ok (\<lambda>_. True) (q @ [?m])"
    using s q m by (cases q) (auto simp: idle_ok_def sender_ok_def queue_ok_def msg_ok_def butlast_append)
  moreover have "s' = s\<lparr>to_send := q @ [?m], lock_output_buffer := \<not> complete ?m\<rparr>" "r = Inr ()"
    using c q m by (auto simp: continue_response_def new_beat_ready_def prog_simps)
  ultimately show "case r of Inl e \<Rightarrow> idle_d s' | Inr x \<Rightarrow> idle_d s'"
    using s q by (auto simp: idle_ok_def sender_ok_def unfinished_tail_def get_valid_def)
qed

lemma message_d_of_a_fresh:
  "triple idle_d (\<lambda>s. idle_d s \<and> \<not> lock_output_buffer s) (message_d_of_a request rnd)
     (\<lambda>m s. idle_d s \<and> \<not> lock_output_buffer s \<and> fresh (\<lambda>_. True) m)"
  unfolding message_d_of_a_def
  by (rule triple_bind_readonly, intro readonly_intros, simp,
      rule triple_bind_readonly, intro readonly_intros, simp,
      rule triple_bind_readonly, intro readonly_intros, simp,
      rule triple_sized_message) (auto simp: fresh_def split: if_splits)

lemma message_d_of_c_fresh:
  "triple idle_d (\<lambda>s. idle_d s \<and> \<not> lock_output_buffer s) (message_d_of_c request rnd)
     (\<lambda>m s. idle_d s \<and> \<not> lock_output_buffer s \<and> fresh (\<lambda>_. True) m \<and> complete m)"
  unfolding message_d_of_c_def
  by (rule triple_bind_readonly, intro readonly_intros, simp,
      rule triple_bind_readonly, intro readonly_intros, simp,
      rule triple_bind_readonly, intro readonly_intros, simp,
      rule triple_sized_message) (auto simp: fresh_def complete_def)

text \<open>What both kinds of response check first: the output buffer is not locked.\<close>

lemma triple_unlocked:
  assumes "triple idle_d (\<lambda>s. idle_d s \<and> \<not> lock_output_buffer s) m (\<lambda>_. idle_d)"
  shows "triple idle_d idle_d (bindM (own lock_output_buffer) (\<lambda>locked. bindM (assertM (\<not> locked)) (\<lambda>_. m)))
    (\<lambda>_. idle_d)"
  by (rule triple_bind [where R = "\<lambda>b s. idle_d s \<and> b = lock_output_buffer s"], (intro triple_intros, simp),
      rule triple_bind [where R = "\<lambda>_ s. idle_d s \<and> \<not> lock_output_buffer s"], rule triple_assertM)
    (auto intro: assms)

lemma respond_d_to_a_ok: "triple idle_d idle_d (respond_d_to_a r) (\<lambda>_. idle_d)"
  unfolding respond_d_to_a_def split_beta
  apply (rule triple_bind [where R = "\<lambda>c s. idle_d s \<and> (c \<longrightarrow> to_send s \<noteq> [] \<and> \<not> complete (last (to_send s)))"])
   apply (intro triple_intros, simp)
  apply (rule triple_if, rule triple_weaken [OF continue_response_ok], simp, simp)
  apply (rule triple_weaken [OF triple_unlocked])
    apply (rule triple_bind [OF message_d_of_a_fresh])
    apply (rule triple_bind [where R = "\<lambda>_. idle_ok (\<lambda>_. \<not> complete _) (\<lambda>_. True)"], intro triple_intros)
     apply (elim conjE, rule idle_d_unlocked, assumption+)
    apply (rule triple_bind [where R = "\<lambda>_. idle_d"], intro triple_intros, erule idle_d_set_lock)
    apply (rule register_sink_ok)
   apply simp_all
  done

lemma respond_d_to_c_ok: "triple idle_d idle_d (respond_d_to_c r) (\<lambda>_. idle_d)"
  unfolding respond_d_to_c_def split_beta
  by (rule triple_unlocked, rule triple_bind [OF message_d_of_c_fresh],
      rule triple_bind [where R = "\<lambda>_. idle_d"], (intro triple_intros, simp add: push_complete_d), rule register_sink_ok)

lemma respond_d_ok: "triple idle_d idle_d respond_d (\<lambda>_. idle_d)"
proof -
  have l: "triple idle_d idle_d (respond_all sender_fifo d_a_requests (\<lambda>q s. s\<lparr>d_a_requests := q\<rparr>) respond_d_to_a)
      (\<lambda>_. idle_d)"
    unfolding respond_all_def
    by (rule triple_bind_readonly, intro readonly_intros, assumption, rule triple_respond_loop)
      (simp_all add: respond_d_to_a_ok)
  show ?thesis
    unfolding respond_d_def
    by (rule triple_bind [OF l], rule triple_if, (intro triple_intros, assumption),
        rule triple_bind_readonly, intro readonly_intros, assumption, rule triple_if, (intro triple_intros, assumption),
        rule triple_respond_all [OF respond_d_to_c_ok]) simp
qed

interpretation send_d: tl_sender methods_d lock_output_buffer "\<lambda>_. True" beat_d
proof
  show "triple idle_d idle_d (sm_respond methods_d) (\<lambda>_. idle_d)"
    by (simp add: methods_d_def respond_d_ok)
  show "idle_d (sm_reorder_requests methods_d s)" if "idle_d s" for s
    using that by (simp add: methods_d_def reorder_requests_d_def)
qed (auto simp: methods_d_def next_beat_d_def beat_d_def prog_simps Let_def split: if_splits sum.splits prod.splits)

end
