(* ===== verification/TL_Transfer.thy ===== *)
theory TL_Transfer
  imports TL_Reasoning
begin

text \<open>
  What a sender puts on its channel when nothing is randomised: the beats of its messages, all
  of them, in order and without interleaving, one per cycle in which the network is ready.
\<close>

section \<open>Cycles of one sender\<close>

text \<open>
  A clock cycle as the harness drives it: flow control, outputs, the answer of the network and
  the look at it. The result lists the beat that the network has taken.
\<close>

definition sender_cycle ::
  "(('c, 'z) sender_scheme, 'c) sender_methods \<Rightarrow> bool \<Rightarrow> (('c, 'z) sender_scheme, 'c list) tl" where
  "sender_cycle M rdy =
     bindM (change sender_set_flow_control) (\<lambda>_.
     bindM (sender_set_outputs M False) (\<lambda>_.
     bindM (change (\<lambda>s. s\<lparr>channel := (channel s)\<lparr>wire_ready := rdy\<rparr>\<rparr>)) (\<lambda>_.
     bindM (change sender_get_inputs) (\<lambda>_.
     own (\<lambda>s. if get_valid s \<and> get_ready s then [wire_data (channel s)] else [])))))"

fun transmit ::
  "(('c, 'z) sender_scheme, 'c) sender_methods \<Rightarrow> bool list \<Rightarrow> (('c, 'z) sender_scheme, 'c list) tl" where
  "transmit M [] = ret []"
| "transmit M (rdy # rs) =
     bindM (sender_cycle M rdy) (\<lambda>bs. bindM (transmit M rs) (\<lambda>cs. ret (bs @ cs)))"

text \<open>The beats of a message that have not been generated yet, and those of a whole queue.\<close>

definition rest_of :: "('c \<Rightarrow> int \<Rightarrow> 'c) \<Rightarrow> 'c tl_message \<Rightarrow> 'c list" where
  "rest_of beat m = map (beat (header m)) [beats_generated m..beats_to_send m - 1]"

definition remaining :: "('c \<Rightarrow> int \<Rightarrow> 'c) \<Rightarrow> ('c, 'z) sender_scheme \<Rightarrow> 'c list" where
  "remaining beat s =
     (if get_valid s \<and> \<not> beat_accepted s then [wire_data (channel s)] else [])
       @ concat (map (rest_of beat) (to_send s))"

definition idle_sender :: "('c, 'z) sender_scheme \<Rightarrow> bool" where
  "idle_sender s \<longleftrightarrow> to_send s = [] \<and> modifications s = [] \<and> \<not> get_valid s \<and> \<not> beat_accepted s"

text \<open>Senders without pending requests: \<open>quiet\<close> says that there is nothing to respond to.\<close>

locale quiet_sender = tl_sender M locked good beat
  for M :: "(('c, 'z) sender_scheme, 'c) sender_methods"
    and locked good beat +
  fixes quiet :: "('c, 'z) sender_scheme \<Rightarrow> bool"
  assumes respond_quiet: "quiet s \<Longrightarrow> sm_respond M (g, s) = (Inr (), (g, s))"
    and quiet_base:
      "quiet (s\<lparr>to_send := q\<rparr>) = quiet s" "quiet (s\<lparr>channel := w\<rparr>) = quiet s"
      "quiet (s\<lparr>modifications := us\<rparr>) = quiet s" "quiet (s\<lparr>beat_accepted := b\<rparr>) = quiet s"
begin

definition plain :: "('c, 'z) sender_scheme \<Rightarrow> bool" where
  "plain s \<longleftrightarrow> ok s \<and> \<not> locked s \<and> quiet s \<and> modifications s = []"

lemmas plain_simps = plain_def sender_ok_def locked_base good_counters quiet_base get_valid_def get_ready_def
  set_valid_def set_data_def set_front_message_def

lemma flow_control_plain:
  assumes "plain s"
  shows "plain (sender_set_flow_control s) \<and> \<not> beat_accepted (sender_set_flow_control s) \<and>
    (get_valid (sender_set_flow_control s) \<longrightarrow> get_valid s \<and> \<not> beat_accepted s) \<and>
    remaining beat (sender_set_flow_control s) = remaining beat s"
  using assms by (auto simp: sender_set_flow_control_def plain_simps remaining_def)

lemma flow_control_ids: "ids_in_use (sender_set_flow_control s) = ids_in_use s"
  by (simp add: sender_set_flow_control_def set_valid_def)

lemma rest_of_step:
  "can_send m \<Longrightarrow> msg_ok m \<Longrightarrow>
     rest_of beat m = beat (header m) (beats_generated m) # rest_of beat (m\<lparr>beats_generated := beats_generated m + 1\<rparr>)"
  by (simp add: rest_of_def can_send_def msg_ok_def upto_rec1)

lemma clear_completed_plain:
  assumes "plain s" "\<not> get_valid s"
  shows "plain (clear_completed s) \<and> \<not> get_valid (clear_completed s) \<and>
    remaining beat (clear_completed s) = remaining beat s \<and> channel (clear_completed s) = channel s \<and>
    beat_accepted (clear_completed s) = beat_accepted s \<and> ids_in_use (clear_completed s) = ids_in_use s \<and>
    (to_send (clear_completed s) \<noteq> [] \<longrightarrow> can_send (hd (to_send (clear_completed s))))"
proof (cases "to_send s")
  case Nil
  then show ?thesis using assms by (simp add: clear_completed_def)
next
  case (Cons m q)
  then have m: "msg_ok m" "complete m" "queue_ok good q" "\<not> unfinished_tail q"
    using assms queue_ok_tl [of good "m # q"]
    by (auto simp: plain_simps queue_ok_Cons unfinished_tail_def split: if_splits)
  have rest: "msg_ok n \<and> complete n \<and> beats_generated n = 0" if "n \<in> set q" for n
    using that assms Cons m(4)
    by (cases q rule: rev_cases) (auto simp: plain_simps queue_ok_def unfinished_tail_def)
  show ?thesis
  proof (cases "finished m")
    case True
    then have "rest_of beat m = []" by (simp add: rest_of_def finished_def)
    then show ?thesis
      using True assms Cons m rest [of "hd q"]
      by (cases q) (auto simp: clear_completed_def plain_simps remaining_def can_send_def msg_ok_def
          complete_def unfinished_tail_def)
  next
    case False
    then show ?thesis
      using assms Cons m by (auto simp: clear_completed_def can_send_def finished_def complete_def msg_ok_def)
  qed
qed

lemma set_outputs_plain:
  assumes "plain s" "\<not> beat_accepted s"
  shows "\<exists>s'. sender_set_outputs M False (g, s) = (Inr (), (g, s')) \<and> plain s' \<and> \<not> beat_accepted s' \<and>
    remaining beat s' = remaining beat s \<and> (get_valid s' \<longleftrightarrow> remaining beat s \<noteq> []) \<and> ids_in_use s' = ids_in_use s"
proof (cases "get_valid s")
  case True
  then have "to_send s \<noteq> []" using assms by (simp add: plain_simps)
  with True assms show ?thesis
    by (simp add: sender_set_outputs_def pending_beat_def prog_simps remaining_def)
next
  case False
  let ?s = "clear_completed s"
  note c = clear_completed_plain [OF assms(1) False]
  have run: "sender_set_outputs M False (g, s) =
      (if to_send ?s \<noteq> [] then send_beat M False (g, ?s) else (Inr (), (g, ?s)))"
    using False c respond_quiet [of ?s g]
    by (simp add: sender_set_outputs_def pending_beat_def prog_simps plain_def)
  show ?thesis
  proof (cases "to_send ?s")
    case Nil
    then show ?thesis using run c assms(2) by (auto simp: remaining_def)
  next
    case (Cons m q)
    let ?m = "m\<lparr>beats_generated := beats_generated m + 1\<rparr>"
    let ?s' = "?s\<lparr>to_send := ?m # q, channel := (channel ?s)\<lparr>wire_data := beat (header m) (beats_generated m),
      wire_valid := True\<rparr>\<rparr>"
    have m: "msg_ok m" "good m" "can_send m" using c Cons by (auto simp: plain_simps queue_ok_Cons)
    have "send_beat M False (g, ?s) = (Inr (), (g, ?s'))"
      using Cons next_beat_plain [OF m(1,2,3), of g] c
      by (simp add: send_beat_def prog_simps Let_def set_front_message_def set_valid_def set_data_def plain_def)
    moreover have "plain ?s'"
    proof -
      have "queue_ok good (?m # q) \<and> unfinished_tail (?m # q) = unfinished_tail (m # q)"
        using c Cons m by (intro queue_ok_set_front) (auto simp: plain_simps msg_ok_def can_send_def)
      then show ?thesis using c Cons m(1) by (auto simp: plain_simps msg_ok_def)
    qed
    moreover have free: "\<not> get_valid ?s" "\<not> beat_accepted ?s" using c assms(2) by simp_all
    moreover have "remaining beat ?s' = remaining beat ?s" "remaining beat ?s \<noteq> []"
      using Cons rest_of_step [OF m(3) m(1)] free by (simp_all add: remaining_def get_valid_def)
    moreover have "remaining beat ?s = remaining beat s" "ids_in_use ?s = ids_in_use s" using c by simp_all
    ultimately show ?thesis using run Cons by (simp add: get_valid_def)
  qed
qed

lemma sender_cycle_plain:
  assumes "plain s"
  shows "\<exists>s'. sender_cycle M rdy (g, s) = (Inr (if rdy then take 1 (remaining beat s) else []), (g, s')) \<and>
    plain s' \<and> remaining beat s' = (if rdy then drop 1 (remaining beat s) else remaining beat s) \<and>
    ids_in_use s' = ids_in_use s"
proof -
  let ?s1 = "sender_set_flow_control s"
  note f = flow_control_plain [OF assms]
  obtain s2 where s2: "sender_set_outputs M False (g, ?s1) = (Inr (), (g, s2))" "plain s2" "\<not> beat_accepted s2"
    "remaining beat s2 = remaining beat s" "get_valid s2 \<longleftrightarrow> remaining beat s \<noteq> []"
    "ids_in_use s2 = ids_in_use s"
    using set_outputs_plain [of ?s1 g] f flow_control_ids [of s] by auto
  let ?s3 = "s2\<lparr>channel := (channel s2)\<lparr>wire_ready := rdy\<rparr>\<rparr>"
  define C where "C = concat (map (rest_of beat) (to_send s2))"
  let ?D = "wire_data (channel s2)"
  have run: "sender_cycle M rdy (g, s) = (Inr (if get_valid s2 \<and> rdy then [?D] else []), (g, sender_get_inputs ?s3))"
    using s2 by (simp add: sender_cycle_def prog_simps sender_get_inputs_def get_valid_def get_ready_def)
  have plain: "plain (sender_get_inputs ?s3)"
    using s2(2) by (auto simp: sender_get_inputs_def plain_simps)
  have before: "remaining beat s = (if get_valid s2 then [?D] else []) @ C"
    using s2(3,4) by (simp add: remaining_def C_def)
  have after: "remaining beat (sender_get_inputs ?s3) = (if get_valid s2 \<and> \<not> rdy then [?D] else []) @ C"
    using s2(3) by (simp add: sender_get_inputs_def remaining_def get_valid_def get_ready_def C_def)
  have "C = []" if "\<not> get_valid s2"
    using that iffD2 [OF s2(5)] before by (metis append_is_Nil_conv)
  then have e: "(if get_valid s2 \<and> rdy then [?D] else []) = (if rdy then take 1 (remaining beat s) else [])"
    "remaining beat (sender_get_inputs ?s3) = (if rdy then drop 1 (remaining beat s) else remaining beat s)"
    unfolding before after by auto
  have "ids_in_use (sender_get_inputs ?s3) = ids_in_use s" using s2(6) by (simp add: sender_get_inputs_def)
  then show ?thesis using run plain e(2) unfolding e(1) by blast
qed

theorem transmit_plain:
  assumes "plain s"
  shows "\<exists>s'. transmit M rs (g, s) = (Inr (take (count_list rs True) (remaining beat s)), (g, s')) \<and>
    plain s' \<and> remaining beat s' = drop (count_list rs True) (remaining beat s) \<and> ids_in_use s' = ids_in_use s"
  using assms
proof (induction rs arbitrary: s)
  case Nil
  then show ?case by (simp add: ret_apply)
next
  case (Cons rdy rs)
  obtain s1 where s1: "sender_cycle M rdy (g, s) = (Inr (if rdy then take 1 (remaining beat s) else []), (g, s1))"
    "plain s1" "remaining beat s1 = (if rdy then drop 1 (remaining beat s) else remaining beat s)"
    "ids_in_use s1 = ids_in_use s"
    using sender_cycle_plain [OF Cons.prems] by blast
  obtain s2 where "transmit M rs (g, s1) = (Inr (take (count_list rs True) (remaining beat s1)), (g, s2))"
    "plain s2" "remaining beat s2 = drop (count_list rs True) (remaining beat s1)"
    "ids_in_use s2 = ids_in_use s1"
    using Cons.IH [OF s1(2)] by blast
  then show ?case
    using s1 by (cases "remaining beat s") (auto simp: prog_simps)
qed

text \<open>An idle sender with pending requests behaves as one whose responses are queued already.\<close>

lemma transmit_respond:
  assumes "idle_sender s" "sm_respond M (g, s) = (Inr (), (g, s'))" "quiet s'" "channel s' = channel s"
    and "beat_accepted s' = beat_accepted s" "to_send s' = [m]" "\<not> finished m" "rs \<noteq> []"
  shows "transmit M rs (g, s) = transmit M rs (g, s')"
proof -
  have "sender_set_flow_control s = s" "sender_set_flow_control s' = s'"
    using assms by (simp_all add: sender_set_flow_control_def idle_sender_def)
  moreover have "sender_set_outputs M False (g, s) = sender_set_outputs M False (g, s')"
    using assms respond_quiet [OF assms(3), of g]
    by (simp add: sender_set_outputs_def prog_simps pending_beat_def clear_completed_def idle_sender_def get_valid_def)
  ultimately show ?thesis using assms(8) by (cases rs) (simp_all add: sender_cycle_def prog_simps)
qed

text \<open>A single complete message is transmitted when the network has been ready as often as it has beats.\<close>

lemma transmit_message:
  assumes "to_send s = [m]" "modifications s = []" "\<not> get_valid s" "\<not> beat_accepted s" "\<not> locked s" "quiet s"
    and "msg_ok m" "good m" "complete m" "length (rest_of beat m) \<le> count_list rs True"
  shows "\<exists>s'. transmit M rs (g, s) = (Inr (rest_of beat m), (g, s')) \<and> remaining beat s' = [] \<and>
    ids_in_use s' = ids_in_use s"
proof -
  have "plain s" using assms by (simp add: plain_simps queue_ok_Cons unfinished_tail_def)
  moreover have "remaining beat s = rest_of beat m" using assms(1,3) by (simp add: remaining_def)
  ultimately show ?thesis using transmit_plain [of s rs g] assms(10) by auto
qed

end

section \<open>The five channels\<close>

interpretation quiet_a: quiet_sender methods_a "\<lambda>_. False" "\<lambda>_. True" beat_a "\<lambda>_. True"
  by unfold_locales (simp_all add: methods_a_def ret_apply)

lemma respond_nothing: "get s = [] \<Longrightarrow> respond_all fifo get put act (g, s) = (Inr True, (g, s))"
  by (simp add: respond_all_def prog_simps)

interpretation quiet_b: quiet_sender "methods_b net" "\<lambda>_. False" single_beat "\<lambda>h i. h"
    "\<lambda>s. b_a_requests s = []" for net
  by unfold_locales (simp_all add: methods_b_def respond_b_def respond_nothing prog_simps)

interpretation quiet_c: quiet_sender "methods_c net" "\<lambda>_. False" "\<lambda>_. True" beat_c
    "\<lambda>s. c_b_requests s = []" for net
  by unfold_locales (simp_all add: methods_c_def respond_c_def respond_nothing prog_simps)

interpretation quiet_d: quiet_sender methods_d lock_output_buffer "\<lambda>_. True" beat_d
    "\<lambda>s. d_a_requests s = [] \<and> d_c_requests s = []"
  by unfold_locales (simp_all add: methods_d_def respond_d_def respond_nothing prog_simps)

interpretation quiet_e: quiet_sender methods_e "\<lambda>_. False" single_beat "\<lambda>h i. h"
    "\<lambda>s. e_d_requests s = []"
  by unfold_locales (simp_all add: methods_e_def respond_e_def respond_nothing prog_simps)

section \<open>Properties\<close>

definition idle_wires :: "'c \<Rightarrow> 'c wires" where
  "idle_wires d = \<lparr>wire_valid = False, wire_ready = False, wire_data = d\<rparr>"

definition example_ep :: endpoint where
  "example_ep = \<lparr>ep_position = 0, ep_protocol = TL_C, ep_bit_width = 64, ep_first_id = 0, ep_last_id = 3,
     ep_max_size = 6, ep_fifo = False, ep_can_deny = False,
     ep_routing = \<lparr>rt_base = [0], rt_mask = [3], rt_target = [0]\<rparr>\<rparr>"

definition example_put :: tl_a where
  "example_put = \<lparr>a_opcode = PutFullData, a_param = 0, a_size = 4, a_source = 2, a_address = 0x3000,
     a_mask = 255, a_corrupt = False, a_data = 7\<rparr>"

definition example_d :: sender_d where
  "example_d = sender.extend (new_sender example_ep (idle_wires \<lparr>d_opcode = AccessAck, d_param = 0, d_size = 0,
     d_source = 0, d_sink = 0, d_denied = False, d_corrupt = False, d_data = 0\<rparr>))
     \<lparr>d_a_requests = [(False, example_put)], d_c_requests = [], lock_output_buffer = False\<rparr>"

definition fixed_rng :: rng where
  "fixed_rng = \<lparr>rand_values = \<lambda>_. 0, rand_next = 0, rounds = 10\<rparr>"

lemma example_d_ok: "sender_ok lock_output_buffer (\<lambda>_. True) example_d"
  by (simp add: sender_ok_def example_d_def new_sender_def sender.extend_def idle_wires_def get_valid_def unfinished_tail_def)

text \<open>
  C32: Outside of random mode, the senders of channels A and C refine a plain queue of beats. Let a
  sender have no changes of beats pending and nothing to respond to. Whatever the network's pattern of
  ready signals, the beats that it has taken from the sender are the first ones of the concatenation
  of all beats of all queued messages, as many as there were ready cycles: no beat is lost, repeated
  or reordered, and messages are not mixed. (In random mode a sender reorders its messages on purpose.)
\<close>

theorem senders_transmit_in_order:
  assumes "sender_ok (\<lambda>_. False) (\<lambda>_. True) a" "modifications a = []"
    and "sender_ok (\<lambda>_. False) (\<lambda>_. True) c" "modifications c = []" "c_b_requests c = []"
  shows "(\<exists>a'. transmit methods_a rs (g, a) = (Inr (take (count_list rs True) (remaining beat_a a)), (g, a')) \<and>
      remaining beat_a a' = drop (count_list rs True) (remaining beat_a a)) \<and>
    (\<exists>c'. transmit (methods_c net) rs (g, c) = (Inr (take (count_list rs True) (remaining beat_c c)), (g, c')) \<and>
      remaining beat_c c' = drop (count_list rs True) (remaining beat_c c))"
  using quiet_a.transmit_plain [of a rs g] quiet_c.transmit_plain [of c net rs g] assms
  by (auto simp: quiet_a.plain_def quiet_c.plain_def)

definition example_a :: sender_a where
  "example_a = (new_sender example_ep (idle_wires example_put))\<lparr>to_send :=
     [\<lparr>channel_width_bytes = 8, beats_to_send = 2, beats_ready = 2, beats_generated = 0, header = example_put\<rparr>]\<rparr>"

definition example_c :: sender_c where
  "example_c = sender.extend (new_sender example_ep (idle_wires \<lparr>c_opcode = Release, c_param = 0, c_size = 0,
     c_source = 0, c_address = 0, c_corrupt = False, c_data = 0\<rparr>)) \<lparr>c_b_requests = []\<rparr>"

lemma example_ac_ok:
  "sender_ok (\<lambda>_. False) (\<lambda>_. True) example_a" "modifications example_a = []"
  "sender_ok (\<lambda>_. False) (\<lambda>_. True) example_c" "modifications example_c = []" "c_b_requests example_c = []"
  by (simp_all add: sender_ok_def example_a_def example_c_def new_sender_def sender.extend_def idle_wires_def
      get_valid_def unfinished_tail_def queue_ok_Cons msg_ok_def complete_def)

theorem senders_transmit_in_order_witness:
  "\<exists>a'. transmit methods_a [True, False, True, True] (fixed_rng, example_a) =
     (Inr [example_put, example_put\<lparr>a_data := 8\<rparr>], (fixed_rng, a'))"
proof -
  have "remaining beat_a example_a = [example_put, example_put\<lparr>a_data := 8\<rparr>]"
    by (simp add: remaining_def example_a_def new_sender_def idle_wires_def get_valid_def rest_of_def upto_rec1
        beat_a_def example_put_def)
  then show ?thesis
    using senders_transmit_in_order [OF example_ac_ok, of "[True, False, True, True]" fixed_rng] by auto
qed

end
