(* ===== verification/TL_Protocol.thy ===== *)
theory TL_Protocol
  imports TL_Transfer
begin

text \<open>
  Properties of the traffic generator that hold between channel ends: routing, transaction
  identifiers, the agreement of sender and receiver on the number of beats, and what becomes of
  requests.
\<close>

section \<open>Routing\<close>

definition matches :: "RoutingTable \<Rightarrow> int \<Rightarrow> nat \<Rightarrow> bool" where
  "matches rt i k \<longleftrightarrow> k < length (rt_base rt) \<and> i AND NOT (rt_mask rt ! k) = rt_base rt ! k"

definition wf_table :: "RoutingTable \<Rightarrow> bool" where
  "wf_table rt \<longleftrightarrow> length (rt_mask rt) = length (rt_base rt) \<and> length (rt_target rt) = length (rt_base rt)"

lemma owner_loop_last:
  assumes "length ms = length bs" "length ts = length bs"
  shows "owner_loop i bs ms ts a =
    (let K = {k. k < length bs \<and> i AND NOT (ms ! k) = bs ! k} in if K = {} then a else ts ! Max K)"
  using assms
proof (induction i bs ms ts a rule: owner_loop.induct)
  case (1 i b bs m ms t ts a)
  define K where "K = {k. k < length bs \<and> i AND NOT (ms ! k) = bs ! k}"
  let ?z = "if i AND NOT m = b then {0} else {}"
  have L: "{k. k < length (b # bs) \<and> i AND NOT ((m # ms) ! k) = (b # bs) ! k} = ?z \<union> Suc ` K"
  proof (rule set_eqI)
    fix x
    show "x \<in> {k. k < length (b # bs) \<and> i AND NOT ((m # ms) ! k) = (b # bs) ! k} \<longleftrightarrow> x \<in> ?z \<union> Suc ` K"
      by (cases x) (auto simp: K_def)
  qed
  have "finite K" by (simp add: K_def)
  then have max: "Max (?z \<union> Suc ` K) = Suc (Max K)" if "K \<noteq> {}"
    using that by (simp add: mono_Max_commute [OF mono_Suc, symmetric])
  have "owner_loop i bs ms ts (if i AND NOT m = b then t else a) =
      (if K = {} then (if i AND NOT m = b then t else a) else ts ! Max K)"
    using "1.IH" "1.prems" unfolding K_def Let_def by (auto simp del: owner_loop.simps)
  then show ?case
    unfolding owner_loop.simps Let_def L using max by auto
qed auto

lemma get_owner_last:
  assumes "wf_table rt"
  shows "get_owner rt i = (if \<exists>k. matches rt i k then rt_target rt ! Max {k. matches rt i k} else 0)"
  using owner_loop_last [of "rt_mask rt" "rt_base rt" "rt_target rt" i 0] assms
  by (auto simp: get_owner_def matches_def wf_table_def Let_def)

text \<open>A statement about all positions of an interval, split at the first one.\<close>

lemma interval_first:
  "(i :: int) < j \<Longrightarrow> (\<forall>k. i \<le> k \<and> k < j \<longrightarrow> P k) \<longleftrightarrow> P i \<and> (\<forall>k. i + 1 \<le> k \<and> k < j \<longrightarrow> P k)"
  by (metis add1_zle_eq order_le_less)

lemma any_id_loop_Inr:
  "any_id_loop rt link n i = Inr j \<longleftrightarrow>
     i \<le> j \<and> j < i + int n \<and> get_owner rt j = link \<and> (\<forall>k. i \<le> k \<and> k < j \<longrightarrow> get_owner rt k \<noteq> link)"
proof (induction n arbitrary: i)
  case (Suc n)
  then show ?case using Suc [of "i + 1"] interval_first [of i j] by (cases "i < j") auto
qed auto

lemma routing_id_owner:
  "device_get_routing_id device i = Inr source \<Longrightarrow> get_owner (ep_routing device) source = i"
  using any_id_loop_Inr [of "ep_routing device" i 1024 0 source] by (simp add: device_get_routing_id_def get_any_id_def)

lemma any_id_loop_none:
  "any_id_loop rt link n i = Inl Assertion \<longleftrightarrow> (\<forall>j. i \<le> j \<and> j < i + int n \<longrightarrow> get_owner rt j \<noteq> link)"
proof (induction n arbitrary: i)
  case (Suc n)
  show ?case using Suc [of "i + 1"] interval_first [of i "i + int (Suc n)"] by (auto simp: algebra_simps)
qed auto

text \<open>
  Routing follows the comment of the table: the last matching entry owns an identifier, and
  component 0 owns those without a match. \<open>get_any_id\<close> returns the smallest of the first 1024
  identifiers that the link owns, and fails its assertion exactly if there is none.
\<close>

lemma routing_correct:
  assumes "wf_table rt"
  shows "get_owner rt i = (if \<exists>k. matches rt i k then rt_target rt ! Max {k. matches rt i k} else 0) \<and>
    (get_any_id rt link = Inr j \<longleftrightarrow> 0 \<le> j \<and> j < 1024 \<and> get_owner rt j = link \<and>
      (\<forall>k. 0 \<le> k \<and> k < j \<longrightarrow> get_owner rt k \<noteq> link)) \<and>
    (get_any_id rt link = Inl Assertion \<longleftrightarrow> (\<forall>j. 0 \<le> j \<and> j < 1024 \<longrightarrow> get_owner rt j \<noteq> link))"
proof -
  have "get_any_id rt link = Inl Assertion \<longleftrightarrow> (\<forall>j. 0 \<le> j \<and> j < 1024 \<longrightarrow> get_owner rt j \<noteq> link)"
    using any_id_loop_none [of rt link 1024 0] by (simp add: get_any_id_def)
  then show ?thesis
    using get_owner_last [OF assms] any_id_loop_Inr [of rt link 1024 0 j] by (simp add: get_any_id_def)
qed

section \<open>Transaction identifiers\<close>

lemma first_free_id_Inr:
  "first_free_id used n i = Inr j \<longleftrightarrow> i \<le> j \<and> j < i + int n \<and> j \<notin> used \<and> (\<forall>k. i \<le> k \<and> k < j \<longrightarrow> k \<in> used)"
proof (induction n arbitrary: i)
  case (Suc n)
  then show ?case using Suc [of "i + 1"] interval_first [of i j] by (cases "i < j") auto
qed auto

lemma first_free_id_Inl: "first_free_id used n i = Inl e \<Longrightarrow> e = Assertion"
  by (induction n arbitrary: i) (auto split: if_splits)

lemma first_free_id_none:
  "first_free_id used n i = Inl Assertion \<longleftrightarrow> (\<forall>k. i \<le> k \<and> k < i + int n \<longrightarrow> k \<in> used)"
proof (induction n arbitrary: i)
  case (Suc n)
  show ?case using Suc [of "i + 1"] interval_first [of i "i + int (Suc n)"] by (auto simp: algebra_simps)
qed auto

definition ids_in_range :: "('c, 'z) sender_scheme \<Rightarrow> bool" where
  "ids_in_range s \<longleftrightarrow> ids_in_use s \<subseteq> {ep_first_id (parent s)..ep_last_id (parent s)} \<and>
     0 < id_range (parent s) \<and> id_range (parent s) < 2 ^ 31"

lemma can_start_iff:
  assumes "ids_in_range s"
  shows "can_start_new_transaction s \<longleftrightarrow> ids_in_use s \<noteq> {ep_first_id (parent s)..ep_last_id (parent s)}"
proof -
  let ?R = "{ep_first_id (parent s)..ep_last_id (parent s)}"
  have sub: "ids_in_use s \<subseteq> ?R" and r: "id_range (parent s) mod 2 ^ 64 = id_range (parent s)"
    using assms by (auto simp: ids_in_range_def)
  have card: "int (card ?R) = id_range (parent s)" using assms by (simp add: ids_in_range_def id_range_def)
  have "ids_in_use s = ?R \<longleftrightarrow> card (ids_in_use s) = card ?R"
    using card_subset_eq [OF finite_atLeastAtMost_int sub] by metis
  moreover have "card (ids_in_use s) \<le> card ?R" by (rule card_mono [OF finite_atLeastAtMost_int sub])
  ultimately show ?thesis unfolding can_start_new_transaction_def r using card by linarith
qed

lemma get_transaction_id_least:
  assumes "ids_in_range s"
  defines "R \<equiv> {ep_first_id (parent s)..ep_last_id (parent s)}"
  shows "ids_in_use s \<noteq> R \<Longrightarrow> \<exists>i \<in> R - ids_in_use s. (\<forall>j \<in> R. j < i \<longrightarrow> j \<in> ids_in_use s) \<and>
      get_transaction_id False (g, s) = (Inr i, (g, s))"
proof -
  let ?f = "ep_first_id (parent s)" and ?n = "nat (id_range (parent s))"
  assume ne: "ids_in_use s \<noteq> R"
  have R: "R = {i. ?f \<le> i \<and> i < ?f + int ?n}"
    using assms by (auto simp: ids_in_range_def id_range_def R_def)
  have "\<not> (\<forall>k. ?f \<le> k \<and> k < ?f + int ?n \<longrightarrow> k \<in> ids_in_use s)"
    using ne assms(1) by (auto simp: ids_in_range_def R_def id_range_def)
  then obtain i where i: "first_free_id (ids_in_use s) ?n ?f = Inr i"
    using first_free_id_none [of "ids_in_use s" ?n ?f] first_free_id_Inl
    by (cases "first_free_id (ids_in_use s) ?n ?f") (metis, blast)
  then have "get_transaction_id False (g, s) = (Inr i, (g, s))"
    using ne can_start_iff [OF assms(1), folded R_def] by (simp add: get_transaction_id_def prog_simps)
  then show ?thesis using i by (auto simp: first_free_id_Inr R)
qed

text \<open>The \<open>k\<close>-th identifier that random mode would draw next.\<close>

definition drawn_id :: "rng \<Rightarrow> endpoint \<Rightarrow> nat \<Rightarrow> int" where
  "drawn_id g ep k = ep_first_id ep + int (rand_values g (rand_next g + k)) mod id_range ep"

lemma draw_id_first:
  assumes "0 < id_range (parent s)" "k < n" "drawn_id g (parent s) k \<notin> ids_in_use s"
    and "\<forall>j < k. drawn_id g (parent s) j \<in> ids_in_use s"
  shows "draw_id n (g, s) = (Inr (drawn_id g (parent s) k), (g\<lparr>rand_next := rand_next g + k + 1\<rparr>, s))"
  using assms
proof (induction n arbitrary: g k)
  case (Suc n)
  let ?g = "g\<lparr>rand_next := Suc (rand_next g)\<rparr>"
  have step: "draw_id (Suc n) (g, s) =
      (if drawn_id g (parent s) 0 \<notin> ids_in_use s then (Inr (drawn_id g (parent s) 0), (?g, s)) else draw_id n (?g, s))"
    using Suc.prems(1)
    by (simp add: prog_simps random_id_def rand_def drawn_id_def transaction_id_available_def)
  show ?case
  proof (cases k)
    case 0
    then show ?thesis using step Suc.prems(3) by simp
  next
    case (Suc j)
    have shift: "drawn_id ?g (parent s) i = drawn_id g (parent s) (Suc i)" for i by (simp add: drawn_id_def)
    have "draw_id n (?g, s) = (Inr (drawn_id ?g (parent s) j), (?g\<lparr>rand_next := rand_next ?g + j + 1\<rparr>, s))"
      using Suc.prems Suc by (intro Suc.IH) (auto simp: shift)
    moreover have "drawn_id g (parent s) 0 \<in> ids_in_use s" using Suc.prems(4) Suc by auto
    ultimately show ?thesis using step Suc shift by simp
  qed
qed simp

text \<open>
  C33: Transaction identifiers are unique. \<open>get_transaction_id\<close> throws exactly when the whole
  range of the component is in use; otherwise it returns a free identifier of the range: the
  smallest one, or in random mode the first free one that is drawn within the bound. The
  sender itself is not changed.
\<close>

theorem transaction_ids_unique:
  assumes "ids_in_range s"
  defines "R \<equiv> {ep_first_id (parent s)..ep_last_id (parent s)}"
  shows "(ids_in_use s = R \<longrightarrow> get_transaction_id randomise (g, s) = (Inl (Throw NoAvailableIDException), (g, s))) \<and>
    (ids_in_use s \<noteq> R \<longrightarrow> (\<exists>i \<in> R - ids_in_use s. (\<forall>j \<in> R. j < i \<longrightarrow> j \<in> ids_in_use s) \<and>
      get_transaction_id False (g, s) = (Inr i, (g, s)))) \<and>
    (ids_in_use s \<noteq> R \<and> k < rounds g \<and> drawn_id g (parent s) k \<notin> ids_in_use s \<and>
      (\<forall>j < k. drawn_id g (parent s) j \<in> ids_in_use s) \<longrightarrow>
      drawn_id g (parent s) k \<in> R \<and>
      get_transaction_id True (g, s) =
        (Inr (drawn_id g (parent s) k), (g\<lparr>rand_next := rand_next g + k + 1\<rparr>, s)))"
proof -
  let ?f = "ep_first_id (parent s)" and ?n = "nat (id_range (parent s))"
  have pos: "0 < id_range (parent s)" and R: "R = {i. ?f \<le> i \<and> i < ?f + int ?n}"
    using assms by (auto simp: ids_in_range_def id_range_def R_def)
  note can = can_start_iff [OF assms(1), folded R_def]
  have none: "get_transaction_id randomise (g, s) = (Inl (Throw NoAvailableIDException), (g, s))" if "ids_in_use s = R"
    using that can by (simp add: get_transaction_id_def prog_simps)
  have random: "drawn_id g (parent s) k \<in> R \<and> get_transaction_id True (g, s) =
      (Inr (drawn_id g (parent s) k), (g\<lparr>rand_next := rand_next g + k + 1\<rparr>, s))"
    if "ids_in_use s \<noteq> R" "k < rounds g" "drawn_id g (parent s) k \<notin> ids_in_use s"
      "\<forall>j < k. drawn_id g (parent s) j \<in> ids_in_use s"
    using that can pos draw_id_first [OF pos that(2-4)] R
    by (simp add: get_transaction_id_def prog_simps drawn_id_def pos_mod_bound)
  show ?thesis using none get_transaction_id_least [OF assms(1), of g, folded R_def] random by blast
qed

theorem transaction_ids_unique_witness:
  "ids_in_range (example_a\<lparr>ids_in_use := {0, 2}\<rparr>) \<and>
   get_transaction_id False (fixed_rng, example_a\<lparr>ids_in_use := {0, 2}\<rparr>) =
     (Inr 1, (fixed_rng, example_a\<lparr>ids_in_use := {0, 2}\<rparr>))"
proof -
  let ?s = "example_a\<lparr>ids_in_use := {0, 2}\<rparr>"
  have r: "ids_in_range ?s"
    by (simp add: ids_in_range_def id_range_def example_a_def new_sender_def example_ep_def)
  have ep: "ep_first_id (parent ?s) = 0" "ep_last_id (parent ?s) = 3"
    by (simp_all add: example_a_def new_sender_def example_ep_def)
  have "{0, 2} \<noteq> {0..3 :: int}"
  proof
    assume "{0, 2} = {0..3 :: int}"
    then have "(1 :: int) \<in> {0, 2}" by simp
    then show False by simp
  qed
  then have ne: "ids_in_use ?s \<noteq> {ep_first_id (parent ?s)..ep_last_id (parent ?s)}" unfolding ep by simp
  obtain i where "i \<in> {ep_first_id (parent ?s)..ep_last_id (parent ?s)} - ids_in_use ?s"
    "\<forall>j \<in> {ep_first_id (parent ?s)..ep_last_id (parent ?s)}. j < i \<longrightarrow> j \<in> ids_in_use ?s"
    and eq: "get_transaction_id False (fixed_rng, ?s) = (Inr i, (fixed_rng, ?s))"
    using transaction_ids_unique [OF r, of False fixed_rng 0, THEN conjunct2, THEN conjunct1, THEN mp, OF ne] by metis
  then have i: "i \<in> {0..3} - {0, 2}" "\<forall>j \<in> {0..3}. j < i \<longrightarrow> j \<in> {0, 2 :: int}" unfolding ep by auto
  have "\<not> 1 < i"
  proof
    assume "1 < i"
    with i(2) have "(1 :: int) \<in> {0, 2}" by auto
    then show False by simp
  qed
  with i(1) have "i = 1" by auto
  with r eq show ?thesis by simp
qed

section \<open>Beats\<close>

lemma ilog2_le: "0 < n \<Longrightarrow> 2 ^ ilog2 n \<le> n"
proof (induction n rule: ilog2.induct)
  case (1 n)
  show ?case
  proof (cases "n < 2")
    case False
    then have "2 * 2 ^ ilog2 (n div 2) \<le> 2 * (n div 2)" using 1 by simp
    then show ?thesis using False by (simp add: ilog2.simps [of n])
  qed (use 1 in \<open>simp add: ilog2.simps [of n]\<close>)
qed

lemma beat_counts:
  assumes "ep_bit_width ep = 8 * w" "w > 0" "0 \<le> z" "z \<le> 27"
  shows "channel_num_beats ep z = Inr (max 1 (2 ^ nat z div w))"
    and "payload_beats True z (width_bytes ep) = Inr (max 1 (2 ^ nat z div w))"
    and "width_bytes ep = w"
proof -
  have z: "(2 :: int) ^ nat z \<le> 2 ^ 27" using assms by (intro power_increasing) auto
  show w: "width_bytes ep = w" using assms by (simp add: width_bytes_def signed_divide_int_def sgn_if)
  have d: "2 ^ nat z sdiv w = (2 :: int) ^ nat z div w" "(8 * 2 ^ nat z) sdiv (8 * w) = (2 :: int) ^ nat z div w"
    using assms by (simp_all add: signed_divide_int_def sgn_mult)
  have "1 \<le> (2 :: int) ^ nat z div w \<longleftrightarrow> w \<le> 2 ^ nat z"
    using pos_imp_zdiv_pos_iff [of w "2 ^ nat z"] assms(2) by linarith
  then show "channel_num_beats ep z = Inr (max 1 (2 ^ nat z div w))"
    "payload_beats True z (width_bytes ep) = Inr (max 1 (2 ^ nat z div w))"
    using assms z d w
    by (auto simp: channel_num_beats_def payload_beats_def size_to_bits_def size_to_bytes_def one_shl_def
        bind_sum_def Let_def max_def not_le)
qed

text \<open>
  C34: Sender and receiver count alike. For channels of whole bytes and sizes whose bits fit
  into an \<open>int\<close>, the number of beats that a message with a payload is given when it is made is
  the number that \<open>new_beat_arrived\<close> expects when its first beat comes in.
\<close>

theorem beat_counts_agree:
  assumes "ep_bit_width ep = 8 * w" "w > 0" "0 \<le> z" "z \<le> 27"
  shows "channel_num_beats ep z = payload_beats True z (width_bytes ep) \<and>
    payload_beats True z (width_bytes ep) = Inr (max 1 (2 ^ nat z div w))"
  using beat_counts [OF assms] by simp

theorem beat_counts_agree_witness:
  "channel_num_beats example_ep 4 = payload_beats True 4 (width_bytes example_ep) \<and>
   payload_beats True 4 (width_bytes example_ep) = Inr 2"
  using beat_counts_agree [of example_ep 8 4] by (simp add: example_ep_def)

end
