(* ===== verification/TL_Transactions.thy ===== *)
theory TL_Transactions
  imports TL_Protocol TL_Devices
begin

text \<open>
  Transactions of the traffic generator from end to end: the beats of a message that arrive at
  a receiver, and a write from its request to its acknowledgement.
\<close>

section \<open>Messages of several beats at a receiver\<close>

fun handle_beats :: "(bool \<Rightarrow> 'c \<Rightarrow> ('s, unit) tl) \<Rightarrow> bool \<Rightarrow> 'c list \<Rightarrow> ('s, unit) tl" where
  "handle_beats handle randomise [] = ret ()"
| "handle_beats handle randomise (b # bs) =
     bindM (handle randomise b) (\<lambda>_. handle_beats handle randomise bs)"

text \<open>
  A receiver inside a component \<open>'s\<close> that counts the beats of some messages and acts on the last
  one. \<open>fit\<close> is what the handler demands of the component.
\<close>

locale counted_channel =
  fixes get :: "'s \<Rightarrow> 'c receiver" and put :: "'c receiver \<Rightarrow> 's \<Rightarrow> 's"
    and handle :: "bool \<Rightarrow> 'c \<Rightarrow> ('s, unit) tl"
    and counted :: "'c \<Rightarrow> bool" and size_of :: "'c \<Rightarrow> int"
    and act :: "bool \<Rightarrow> 'c \<Rightarrow> ('s, unit) tl"
    and fit :: "'s \<Rightarrow> bool"
  assumes get_put: "get (put r s) = r"
    and put_put: "put r (put r' s) = put r s"
    and put_get: "put (get s) s = s"
    and fit_put: "fit (put r s) = fit s"
    and handle_counted: "counted b \<Longrightarrow> fit s \<Longrightarrow> handle rnd b (g, s) =
      bindM (count_beat get put (size_of b)) (\<lambda>arrived. if arrived then act rnd b else ret ()) (g, s)"
begin

definition counting :: "int \<Rightarrow> 's \<Rightarrow> 's" where
  "counting k s = put ((get s)\<lparr>beats_remaining := k\<rparr>) s"

lemma counting_simps:
  "beats_remaining (get (counting k s)) = k" "r_parent (get (counting k s)) = r_parent (get s)"
  "counting k (counting j s) = counting k s" "fit (counting k s) = fit s"
  by (simp_all add: counting_def get_put put_put fit_put)

lemma counting_same: "beats_remaining (get s) = k \<Longrightarrow> counting k s = s"
  by (metis counting_def put_get receiver.surjective receiver.update_convs(2))

lemma beat_step:
  assumes "counted b" "fit s" "0 \<le> k"
    and "if beats_remaining (get s) = 0 then channel_num_beats (r_parent (get s)) (size_of b) = Inr (k + 1)
         else beats_remaining (get s) = k + 1"
  shows "handle rnd b (g, s) = (if k = 0 then act rnd b (g, counting 0 s) else (Inr (), (g, counting k s)))"
  using assms
  by (auto simp: handle_counted count_beat_def new_beat_arrived_def all_beats_arrived_def bind_sum_def prog_simps
      counting_def split: if_splits)

lemma beats_step:
  assumes "fit s" "beats_remaining (get s) = int (length bs)" "bs \<noteq> []" "\<forall>b \<in> set bs. counted b"
  shows "handle_beats handle rnd bs (g, s) = act rnd (last bs) (g, counting 0 s)"
  using assms
proof (induction bs arbitrary: s)
  case (Cons b bs)
  have step: "handle rnd b (g, s) =
      (if int (length bs) = 0 then act rnd b (g, counting 0 s) else (Inr (), (g, counting (int (length bs)) s)))"
    using Cons.prems by (intro beat_step) auto
  show ?case
  proof (cases "bs = []")
    case True
    then show ?thesis using step by (simp add: bindM_def ret_def split: prod.split sum.split)
  next
    case False
    have "handle_beats handle rnd bs (g, counting (int (length bs)) s) =
        act rnd (last bs) (g, counting 0 (counting (int (length bs)) s))"
      using False Cons.prems by (intro Cons.IH) (auto simp: counting_simps)
    then show ?thesis using step False by (simp add: prog_simps counting_simps)
  qed
qed simp

text \<open>All beats of a message but the last are only counted; the last one triggers the action.\<close>

theorem message_arrives:
  assumes "fit s" "beats_remaining (get s) = 0" "bs \<noteq> []" "\<forall>b \<in> set bs. counted b \<and> size_of b = z"
    and "channel_num_beats (r_parent (get s)) z = Inr (int (length bs))"
  shows "handle_beats handle rnd bs (g, s) = act rnd (last bs) (g, s)"
proof (cases bs)
  case (Cons b cs)
  let ?k = "int (length cs)"
  have step: "handle rnd b (g, s) = (if ?k = 0 then act rnd b (g, counting 0 s) else (Inr (), (g, counting ?k s)))"
    using assms Cons by (intro beat_step) auto
  have same: "counting 0 s = s" using assms(2) by (rule counting_same)
  show ?thesis
  proof (cases "cs = []")
    case True
    then show ?thesis using step Cons same by (simp add: bindM_def ret_def split: prod.split sum.split)
  next
    case False
    have "handle_beats handle rnd cs (g, counting ?k s) = act rnd (last cs) (g, counting 0 (counting ?k s))"
      using False assms Cons by (intro beats_step) (auto simp: counting_simps)
    then show ?thesis using step Cons False same by (simp add: prog_simps counting_simps)
  qed
qed (use assms in simp)

end

definition is_put :: "tl_a_op_e \<Rightarrow> bool" where
  "is_put opcode \<longleftrightarrow> opcode = PutFullData \<or> opcode = PutPartialData"

interpretation puts: counted_channel v_a "\<lambda>r v. v\<lparr>v_a := r\<rparr>" handle_beat_a "\<lambda>b. is_put (a_opcode b)" a_size
    "\<lambda>rnd b. change (\<lambda>v. v\<lparr>v_d := handle_request_d_a rnd b (v_d v)\<rparr>)" "\<lambda>_. True"
  by unfold_locales (auto simp: handle_beat_a_def is_put_def Let_def)

interpretation releases: counted_channel v_c "\<lambda>r v. v\<lparr>v_c := r\<rparr>" handle_beat_c "\<lambda>b. c_opcode b = ReleaseData" c_size
    "\<lambda>rnd b. change (\<lambda>v. v\<lparr>v_d := handle_request_d_c rnd b (v_d v)\<rparr>)" "\<lambda>v. ep_protocol (v_endpoint v) = TL_C"
  by unfold_locales (auto simp: handle_beat_c_def prog_simps Let_def)

interpretation probe_acks: counted_channel v_c "\<lambda>r v. v\<lparr>v_c := r\<rparr>" handle_beat_c "\<lambda>b. c_opcode b = ProbeAckData" c_size
    "\<lambda>rnd b. bindM (of_sum (one_shl (c_size b))) (\<lambda>unit.
       bindM (of_sum (align_address (c_address b) (word_of_int unit))) (\<lambda>first_beat_addr.
       bindM (own v_endpoint) (\<lambda>ep. dev_b_end (get_b_id ep (c_source b) first_beat_addr))))"
    "\<lambda>v. ep_protocol (v_endpoint v) = TL_C"
  by unfold_locales
    (auto simp: handle_beat_c_def prog_simps Let_def count_beat_def new_beat_arrived_def bind_sum_def split: sum.split)

interpretation access_acks: counted_channel h_d "\<lambda>r h. h\<lparr>h_d := r\<rparr>" handle_beat_d "\<lambda>b. d_opcode b = AccessAckData" d_size
    "\<lambda>rnd b. part h_a (\<lambda>a h. h\<lparr>h_a := a\<rparr>) (end_transaction (d_source b))" "\<lambda>_. True"
  by unfold_locales (auto simp: handle_beat_d_def Let_def)

interpretation grants: counted_channel h_d "\<lambda>r h. h\<lparr>h_d := r\<rparr>" handle_beat_d "\<lambda>b. d_opcode b = GrantData" d_size
    "\<lambda>rnd b. bindM (part h_a (\<lambda>a h. h\<lparr>h_a := a\<rparr>) (end_transaction (d_source b))) (\<lambda>_.
       change (\<lambda>h. h\<lparr>h_e := handle_request_e rnd b (h_e h)\<rparr>))" "\<lambda>_. True"
  by unfold_locales (auto simp: handle_beat_d_def Let_def)

text \<open>Atomic operations are not counted: every beat is passed on by itself, since it has a response beat of its own.\<close>

lemma atomics_handled:
  "\<forall>b \<in> set bs. is_atomic (a_opcode b) \<Longrightarrow> handle_beats handle_beat_a rnd bs (g, v) =
     (Inr (), (g, v\<lparr>v_d := (v_d v)\<lparr>d_a_requests := d_a_requests (v_d v) @ map (Pair rnd) bs\<rparr>\<rparr>))"
proof (induction bs arbitrary: v)
  case (Cons b bs)
  have "handle_beat_a rnd b (g, v) = (Inr (), (g, v\<lparr>v_d := handle_request_d_a rnd b (v_d v)\<rparr>))"
    using Cons.prems by (auto simp: handle_beat_a_def is_atomic_def prog_simps Let_def)
  with Cons.IH [of "v\<lparr>v_d := handle_request_d_a rnd b (v_d v)\<rparr>"] Cons.prems show ?case
    by (simp add: prog_simps handle_request_d_a_def)
qed (simp add: prog_simps)

lemma end_transaction_host:
  "part h_a (\<lambda>a h. h\<lparr>h_a := a\<rparr>) (end_transaction i) (g, h) =
     (if i \<in> ids_in_use (h_a h) then (Inr (), (g, h\<lparr>h_a := (h_a h)\<lparr>ids_in_use := ids_in_use (h_a h) - {i}\<rparr>\<rparr>))
      else (Inl Assertion, (g, h)))"
  by (simp add: prog_simps end_transaction_def transaction_id_available_def)

text \<open>
  C35: What a receiver makes of the beats of a message. When all beats of a put, of a release with data,
  of a grant with data, of an acknowledgement with data or of a probe acknowledgement with data have come
  in, the message has been handled once, with its last beat: one response has been requested for the put and
  the release, the transaction of the request has ended for the acknowledgement and the grant (it must be open,
  otherwise an assertion fails) with one response for the grant, and the probe of the block
  has been ended for the probe acknowledgement. The counter is back at zero and nothing else has
  changed. The beats of an atomic operation are not counted; each of them is requested to be answered.
\<close>

theorem messages_handled_once:
  assumes "puts \<noteq> []" "\<forall>b \<in> set puts. is_put (a_opcode b) \<and> a_size b = za" "beats_remaining (v_a v) = 0"
    "channel_num_beats (r_parent (v_a v)) za = Inr (int (length puts))"
    and "rels \<noteq> []" "\<forall>b \<in> set rels. c_opcode b = ReleaseData \<and> c_size b = zc" "beats_remaining (v_c v) = 0"
    "channel_num_beats (r_parent (v_c v)) zc = Inr (int (length rels))" "ep_protocol (v_endpoint v) = TL_C"
    and "probes \<noteq> []" "\<forall>b \<in> set probes. c_opcode b = ProbeAckData \<and> c_size b = zp" "0 \<le> zp" "zp \<le> 30"
    "channel_num_beats (r_parent (v_c v)) zp = Inr (int (length probes))"
    and "grants \<noteq> []" "\<forall>b \<in> set grants. d_opcode b = GrantData \<and> d_size b = zd" "beats_remaining (h_d h) = 0"
    "channel_num_beats (r_parent (h_d h)) zd = Inr (int (length grants))"
    and "acks \<noteq> []" "\<forall>b \<in> set acks. d_opcode b = AccessAckData \<and> d_size b = ze"
    "channel_num_beats (r_parent (h_d h)) ze = Inr (int (length acks))"
    and "\<forall>b \<in> set atomics. is_atomic (a_opcode b)"
  shows "handle_beats handle_beat_a rnd puts (g, v) =
      (Inr (), (g, v\<lparr>v_d := (v_d v)\<lparr>d_a_requests := d_a_requests (v_d v) @ [(rnd, last puts)]\<rparr>\<rparr>)) \<and>
    handle_beats handle_beat_c rnd rels (g, v) =
      (Inr (), (g, v\<lparr>v_d := (v_d v)\<lparr>d_c_requests := d_c_requests (v_d v) @ [(rnd, last rels)]\<rparr>\<rparr>)) \<and>
    handle_beats handle_beat_c rnd probes (g, v) =
      dev_b_end (get_b_id (v_endpoint v) (c_source (last probes))
        (c_address (last probes) - c_address (last probes) mod 2 ^ nat zp)) (g, v) \<and>
    handle_beats handle_beat_d rnd grants (g, h) =
      (if d_source (last grants) \<in> ids_in_use (h_a h)
       then (Inr (), (g, h\<lparr>h_a := (h_a h)\<lparr>ids_in_use := ids_in_use (h_a h) - {d_source (last grants)}\<rparr>,
         h_e := (h_e h)\<lparr>e_d_requests := e_d_requests (h_e h) @ [(rnd, last grants)]\<rparr>\<rparr>))
       else (Inl Assertion, (g, h))) \<and>
    handle_beats handle_beat_d rnd acks (g, h) =
      (if d_source (last acks) \<in> ids_in_use (h_a h)
       then (Inr (), (g, h\<lparr>h_a := (h_a h)\<lparr>ids_in_use := ids_in_use (h_a h) - {d_source (last acks)}\<rparr>\<rparr>))
       else (Inl Assertion, (g, h))) \<and>
    handle_beats handle_beat_a rnd atomics (g, v) =
      (Inr (), (g, v\<lparr>v_d := (v_d v)\<lparr>d_a_requests := d_a_requests (v_d v) @ map (Pair rnd) atomics\<rparr>\<rparr>))"
proof (intro conjI)
  show "handle_beats handle_beat_a rnd puts (g, v) =
      (Inr (), (g, v\<lparr>v_d := (v_d v)\<lparr>d_a_requests := d_a_requests (v_d v) @ [(rnd, last puts)]\<rparr>\<rparr>))"
    using puts.message_arrives [OF TrueI assms(3,1,2,4)] by (simp add: prog_simps handle_request_d_a_def)
  show "handle_beats handle_beat_c rnd rels (g, v) =
      (Inr (), (g, v\<lparr>v_d := (v_d v)\<lparr>d_c_requests := d_c_requests (v_d v) @ [(rnd, last rels)]\<rparr>\<rparr>))"
    using releases.message_arrives [OF assms(9,7,5,6,8)] by (simp add: prog_simps handle_request_d_c_def)
  have "c_size (last probes) = zp" using assms(10,11) by simp
  moreover have "(word_of_int (2 ^ nat zp) :: u64) \<noteq> 0" using assms(13) by (simp add: nat_le_iff)
  ultimately show "handle_beats handle_beat_c rnd probes (g, v) =
      dev_b_end (get_b_id (v_endpoint v) (c_source (last probes))
        (c_address (last probes) - c_address (last probes) mod 2 ^ nat zp)) (g, v)"
    using probe_acks.message_arrives [OF assms(9,7,10,11,14)] assms(12,13)
    by (simp add: one_shl_def align_address_def bindM_apply of_sum_apply own_def gets_apply)
  show "handle_beats handle_beat_d rnd grants (g, h) =
      (if d_source (last grants) \<in> ids_in_use (h_a h)
       then (Inr (), (g, h\<lparr>h_a := (h_a h)\<lparr>ids_in_use := ids_in_use (h_a h) - {d_source (last grants)}\<rparr>,
         h_e := (h_e h)\<lparr>e_d_requests := e_d_requests (h_e h) @ [(rnd, last grants)]\<rparr>\<rparr>))
       else (Inl Assertion, (g, h)))"
    using grants.message_arrives [OF TrueI assms(17,15,16,18)]
    by (simp add: bindM_apply end_transaction_host handle_request_e_def change_apply)
  show "handle_beats handle_beat_d rnd acks (g, h) =
      (if d_source (last acks) \<in> ids_in_use (h_a h)
       then (Inr (), (g, h\<lparr>h_a := (h_a h)\<lparr>ids_in_use := ids_in_use (h_a h) - {d_source (last acks)}\<rparr>\<rparr>))
       else (Inl Assertion, (g, h)))"
    using access_acks.message_arrives [OF TrueI assms(17,19,20,21)] by (simp add: end_transaction_host)
  show "handle_beats handle_beat_a rnd atomics (g, v) =
      (Inr (), (g, v\<lparr>v_d := (v_d v)\<lparr>d_a_requests := d_a_requests (v_d v) @ map (Pair rnd) atomics\<rparr>\<rparr>))"
    using assms(22) by (rule atomics_handled)
qed

definition example_release :: tl_c where
  "example_release = \<lparr>c_opcode = ReleaseData, c_param = 0, c_size = 4, c_source = 1, c_address = 0x3000,
     c_corrupt = False, c_data = 0\<rparr>"

definition example_grant :: tl_d where
  "example_grant = \<lparr>d_opcode = GrantData, d_param = 0, d_size = 4, d_source = 2, d_sink = 3, d_denied = False,
     d_corrupt = False, d_data = 0\<rparr>"

definition example_device :: tl_device where
  "example_device = new_device example_ep (idle_wires example_put)
     (idle_wires \<lparr>b_opcode = ProbeBlock, b_param = 0, b_size = 0, b_source = 0, b_address = 0\<rparr>)
     (idle_wires example_release) (idle_wires example_grant) (idle_wires \<lparr>e_sink = 0\<rparr>)"

definition example_host :: tl_host where
  "example_host = new_host example_ep (idle_wires example_put)
     (idle_wires \<lparr>b_opcode = ProbeBlock, b_param = 0, b_size = 0, b_source = 0, b_address = 0\<rparr>)
     (idle_wires example_release) (idle_wires example_grant) (idle_wires \<lparr>e_sink = 0\<rparr>)"

lemma example_beats: "channel_num_beats example_ep 4 = Inr 2"
  using beat_counts(1) [of example_ep 8 4] by (simp add: example_ep_def)

lemma example_components:
  "beats_remaining (v_a example_device) = 0" "beats_remaining (v_c example_device) = 0" "beats_remaining (h_d example_host) = 0"
  "r_parent (v_a example_device) = example_ep" "r_parent (v_c example_device) = example_ep"
  "r_parent (h_d example_host) = example_ep" "ep_protocol (v_endpoint example_device) = TL_C"
  "d_a_requests (v_d example_device) = []" "ids_in_use (h_a example_host) = {}"
  by (simp_all add: example_device_def example_host_def new_device_def new_host_def new_receiver_def sender.extend_def
      new_sender_def) (simp add: example_ep_def)

lemma example_opcodes:
  "is_put (a_opcode example_put)" "a_size example_put = 4" "c_opcode example_release = ReleaseData" "c_size example_release = 4"
  "d_opcode example_grant = GrantData" "d_size example_grant = 4" "d_source example_grant = 2"
  by (simp_all add: is_put_def example_put_def example_release_def example_grant_def)

theorem messages_handled_once_witness:
  "handle_beats handle_beat_a False [example_put, example_put\<lparr>a_data := 8\<rparr>] (fixed_rng, example_device) =
     (Inr (), (fixed_rng, example_device\<lparr>v_d :=
        (v_d example_device)\<lparr>d_a_requests := [(False, example_put\<lparr>a_data := 8\<rparr>)]\<rparr>\<rparr>)) \<and>
   handle_beats handle_beat_d False [example_grant, example_grant] (fixed_rng, example_host) =
     (Inl Assertion, (fixed_rng, example_host)) \<and>
   handle_beats handle_beat_a False [example_put\<lparr>a_opcode := LogicalData\<rparr>, example_put\<lparr>a_opcode := LogicalData\<rparr>]
       (fixed_rng, example_device) =
     (Inr (), (fixed_rng, example_device\<lparr>v_d := (v_d example_device)\<lparr>d_a_requests :=
        [(False, example_put\<lparr>a_opcode := LogicalData\<rparr>), (False, example_put\<lparr>a_opcode := LogicalData\<rparr>)]\<rparr>\<rparr>))"
  using messages_handled_once [of "[example_put, example_put\<lparr>a_data := 8\<rparr>]" 4 example_device
      "[example_release, example_release]" 4 "replicate 2 (example_release\<lparr>c_opcode := ProbeAckData\<rparr>)" 4
      "[example_grant, example_grant]" 4 example_host "replicate 2 (example_grant\<lparr>d_opcode := AccessAckData\<rparr>)" 4
      "[example_put\<lparr>a_opcode := LogicalData\<rparr>, example_put\<lparr>a_opcode := LogicalData\<rparr>]" False fixed_rng]
  by (simp add: example_beats example_components example_opcodes is_atomic_def numeral_2_eq_2)

section \<open>A write from request to acknowledgement\<close>

text \<open>The request with default contents and a size of choice.\<close>

definition put_request :: "int \<Rightarrow> int \<Rightarrow> int \<Rightarrow> tl_a" where
  "put_request w i z = \<lparr>a_opcode = PutFullData, a_param = 0, a_size = z, a_source = i, a_address = 0x3000,
     a_mask = 2 ^ (2 ^ ilog2 (nat w)) - 1, a_corrupt = False, a_data = 0xDEADBEEFCAFEF00D\<rparr>"

definition put_message :: "int \<Rightarrow> int \<Rightarrow> int \<Rightarrow> tl_a tl_message" where
  "put_message w i z = \<lparr>channel_width_bytes = w, beats_to_send = max 1 (2 ^ nat z div w),
     beats_ready = max 1 (2 ^ nat z div w), beats_generated = 0, header = put_request w i z\<rparr>"

lemma full_mask_ilog2:
  assumes "0 < w" "w \<le> 30"
  shows "full_mask (int (ilog2 (nat w))) = Inr (2 ^ (2 ^ ilog2 (nat w)) - 1)"
proof -
  have le: "2 ^ ilog2 (nat w) \<le> nat w" using assms by (intro ilog2_le) auto
  then have "(2 :: int) ^ ilog2 (nat w) \<le> w" using assms
    by (metis nat_le_iff of_nat_numeral of_nat_power order_less_imp_le zle_int int_nat_eq)
  moreover have "ilog2 (nat w) \<le> 30" using le less_exp [of "ilog2 (nat w)"] assms by linarith
  ultimately show ?thesis
    using assms le by (simp add: full_mask_def one_shl_def bind_sum_def nat_power_eq)
qed

lemma queue_put_request:
  assumes "ids_in_range s" "ids_in_use s \<noteq> {ep_first_id (parent s)..ep_last_id (parent s)}"
    and "ep_bit_width (parent s) = 8 * w" "0 < w" "w \<le> 30" "0 \<le> z" "z \<le> 27"
  shows "\<exists>i. i \<notin> ids_in_use s \<and> queue_request_a net False [''size'' \<mapsto> z] (g, s) =
    (Inr (), (g, s\<lparr>to_send := to_send s @ [put_message w i z], ids_in_use := insert i (ids_in_use s)\<rparr>))"
proof -
  obtain i where i: "i \<notin> ids_in_use s" "get_transaction_id False (g, s) = (Inr i, (g, s))"
    using get_transaction_id_least [OF assms(1,2), of g] by blast
  have can: "can_start_new_transaction s" using can_start_iff [OF assms(1)] assms(2) by simp
  note n = beat_counts [OF assms(3,4,6,7)]
  have "beat_size (parent s) = Inr (int (ilog2 (nat w)))"
    using assms by (simp add: beat_size_def bits_to_size_def signed_divide_int_def sgn_if)
  then have req: "new_a_request net False (g, s) = (Inr (put_request w i (int (ilog2 (nat w)))), (g, s))"
    using i(2) full_mask_ilog2 [OF assms(4,5)]
    by (simp add: new_a_request_def new_a_request_default_def prog_simps get_address_def put_request_def)
  have "message_a net False [''size'' \<mapsto> z] (g, s) = (Inr (put_message w i z), (g, s))"
    using n req assms(4)
    by (simp add: message_a_def prog_simps Let_def modify_a_def update_field_def sized_message_def num_beats_a_def
        put_message_def put_request_def)
  then show ?thesis
    using i(1) can
    by (intro exI [of _ i]) (simp add: queue_request_a_def prog_simps push_message_def start_transaction_def
        transaction_id_available_def put_message_def put_request_def)
qed

definition ack_for :: "endpoint \<Rightarrow> tl_a \<Rightarrow> tl_d" where
  "ack_for ep request = \<lparr>d_opcode = AccessAck, d_param = 0, d_size = a_size request, d_source = a_source request,
     d_sink = ep_first_id ep, d_denied = False, d_corrupt = False, d_data = 0xDEADBEEFCAFEF00D\<rparr>"

definition ack_message :: "endpoint \<Rightarrow> tl_a \<Rightarrow> tl_d tl_message" where
  "ack_message ep request = \<lparr>channel_width_bytes = width_bytes ep, beats_to_send = 1, beats_ready = 1,
     beats_generated = 0, header = ack_for ep request\<rparr>"

lemma respond_d_put:
  assumes "is_put (a_opcode b)" "0 < width_bytes (parent s)" "\<not> lock_output_buffer s" "to_send s = []"
    "d_a_requests s = [(False, b)]" "d_c_requests s = []"
  shows "respond_d (g, s) = (Inr (), (g, s\<lparr>to_send := [ack_message (parent s) b], d_a_requests := []\<rparr>))"
proof -
  have "message_d_of_a b False (g, s') = (Inr (ack_message (parent s') b), (g, s'))"
    if "0 < width_bytes (parent s')" for s' :: sender_d
    using that assms(1)
    by (auto simp: message_d_of_a_def is_put_def prog_simps new_d_response_a_def get_routing_id_def
        sized_message_def num_beats_d_def payload_beats_def ack_message_def ack_for_def)
  then show ?thesis
    using assms
    by (auto simp: respond_d_def respond_all_def prog_simps respond_d_to_a_def is_put_def is_atomic_def
        push_message_def complete_def ack_message_def register_sink_def ack_for_def)
qed

lemma transmit_pending_put:
  assumes "is_put (a_opcode b)" "0 < width_bytes (parent s)" "\<not> lock_output_buffer s" "idle_sender s"
    "d_a_requests s = [(False, b)]" "d_c_requests s = []" "True \<in> set rs"
  shows "\<exists>s'. transmit methods_d rs (g, s) = (Inr [ack_for (parent s) b], (g, s')) \<and> remaining beat_d s' = []"
proof -
  let ?s = "s\<lparr>to_send := [ack_message (parent s) b], d_a_requests := []\<rparr>"
  have "respond_d (g, s) = (Inr (), (g, ?s))"
    using assms by (intro respond_d_put) (auto simp: idle_sender_def)
  then have same: "transmit methods_d rs (g, s) = transmit methods_d rs (g, ?s)"
    using assms(4,6,7)
    by (intro quiet_d.transmit_respond) (auto simp: methods_d_def finished_def ack_message_def)
  have beats: "rest_of beat_d (ack_message (parent s) b) = [ack_for (parent s) b]"
    by (simp add: rest_of_def ack_message_def upto_rec1 beat_d_def)
  have "count_list rs True > 0" using assms(7) by (simp add: count_list_0_iff zero_less_iff_neq_zero)
  then have "length (rest_of beat_d (ack_message (parent s) b)) \<le> count_list rs True" by (simp add: beats)
  then show ?thesis
    using quiet_d.transmit_message [of ?s "ack_message (parent s) b" rs g] assms(3,4,6) same beats
    by (simp add: idle_sender_def get_valid_def msg_ok_def complete_def ack_message_def) blast
qed

definition put_beats :: "int \<Rightarrow> int \<Rightarrow> int \<Rightarrow> tl_a list" where
  "put_beats w i z = map (beat_a (put_request w i z)) [0..max 1 (2 ^ nat z div w) - 1]"

lemma put_beats_facts:
  "put_beats w i z \<noteq> []" "int (length (put_beats w i z)) = max 1 (2 ^ nat z div w)"
  "\<forall>b \<in> set (put_beats w i z). is_put (a_opcode b) \<and> a_size b = z \<and> a_source b = i"
  by (auto simp: put_beats_def beat_a_def put_request_def is_put_def)

lemma transmit_put:
  assumes "idle_sender s" "max 1 (2 ^ nat z div w) \<le> int (count_list rs True)"
  shows "\<exists>s'. transmit methods_a rs (g, s\<lparr>to_send := [put_message w i z], ids_in_use := I\<rparr>) =
      (Inr (put_beats w i z), (g, s')) \<and> remaining beat_a s' = [] \<and> ids_in_use s' = I"
proof -
  let ?s = "s\<lparr>to_send := [put_message w i z], ids_in_use := I\<rparr>"
  have beats: "rest_of beat_a (put_message w i z) = put_beats w i z"
    by (simp add: rest_of_def put_message_def put_beats_def)
  have "msg_ok (put_message w i z)" "complete (put_message w i z)"
    by (auto simp: msg_ok_def complete_def put_message_def max_def)
  moreover have "length (put_beats w i z) \<le> count_list rs True"
    using assms(2) put_beats_facts(2) [of w i z] by linarith
  ultimately show ?thesis
    using quiet_a.transmit_message [of ?s "put_message w i z" rs g] assms(1) beats
    by (simp add: idle_sender_def get_valid_def)
qed

text \<open>
  C36: A write completes, without random choices and over a network that hands every beat on as it
  is. From an idle host with a free identifier and an idle device of the same width, the default
  request of any size up to \<open>2 ^ 27\<close> bytes that the ports can carry is queued, its beats reach the
  device as soon as the network has been ready often enough, the device sends exactly one
  acknowledgement in the first cycle in which channel D is ready, and when the host has
  received it, the identifier is free again and the same requests are open as before.
\<close>

theorem put_transaction_completes:
  assumes "ids_in_range (h_a h)"
    "ids_in_use (h_a h) \<noteq> {ep_first_id (parent (h_a h))..ep_last_id (parent (h_a h))}" "idle_sender (h_a h)"
    and "idle_sender (v_d v)" "d_a_requests (v_d v) = []" "d_c_requests (v_d v) = []" "\<not> lock_output_buffer (v_d v)"
    and "beats_remaining (v_a v) = 0"
    and "ep_bit_width (parent (h_a h)) = 8 * w" "ep_bit_width (r_parent (v_a v)) = 8 * w"
    "ep_bit_width (parent (v_d v)) = 8 * w" "0 < w" "w \<le> 30" "0 \<le> z" "z \<le> 27"
    and "max 1 (2 ^ nat z div w) \<le> int (count_list rs True)" "True \<in> set rs'"
  shows "\<exists>i a1 a2 beats v1 ack d h'. i \<notin> ids_in_use (h_a h) \<and>
    queue_request_a net False [''size'' \<mapsto> z] (g, h_a h) = (Inr (), (g, a1)) \<and> ids_in_use a1 = insert i (ids_in_use (h_a h)) \<and>
    transmit methods_a rs (g, a1) = (Inr beats, (g, a2)) \<and> int (length beats) = max 1 (2 ^ nat z div w) \<and>
    handle_beats handle_beat_a False beats (g, v) = (Inr (), (g, v1)) \<and>
    transmit methods_d rs' (g, v_d v1) = (Inr [ack], (g, d)) \<and> d_opcode ack = AccessAck \<and> d_source ack = i \<and>
    handle_beat_d False ack (g, h\<lparr>h_a := a2\<rparr>) = (Inr (), (g, h')) \<and>
    ids_in_use (h_a h') = ids_in_use (h_a h) \<and> remaining beat_a (h_a h') = [] \<and> remaining beat_d d = []"
proof -
  obtain i where i: "i \<notin> ids_in_use (h_a h)" "queue_request_a net False [''size'' \<mapsto> z] (g, h_a h) =
      (Inr (), (g, (h_a h)\<lparr>to_send := [put_message w i z], ids_in_use := insert i (ids_in_use (h_a h))\<rparr>))"
    using queue_put_request [OF assms(1,2,9,12-15), of net g] assms(3) by (auto simp: idle_sender_def)
  obtain a2 where a2: "transmit methods_a rs (g, (h_a h)\<lparr>to_send := [put_message w i z], ids_in_use := insert i (ids_in_use (h_a h))\<rparr>) =
      (Inr (put_beats w i z), (g, a2))" "remaining beat_a a2 = []" "ids_in_use a2 = insert i (ids_in_use (h_a h))"
    using transmit_put [OF assms(3,16)] by blast
  let ?b = "last (put_beats w i z)"
  let ?v = "v\<lparr>v_d := (v_d v)\<lparr>d_a_requests := [(False, ?b)]\<rparr>\<rparr>"
  have last: "is_put (a_opcode ?b)" "a_source ?b = i" using put_beats_facts [of w i z] by auto
  have "channel_num_beats (r_parent (v_a v)) z = Inr (int (length (put_beats w i z)))"
    using beat_counts(1) [OF assms(10,12,14,15)] put_beats_facts(2) [of w i z] by simp
  then have v: "handle_beats handle_beat_a False (put_beats w i z) (g, v) = (Inr (), (g, ?v))"
    using puts.message_arrives [of v "put_beats w i z" z False g] assms(5,8) put_beats_facts [of w i z]
    by (simp add: prog_simps handle_request_d_a_def)
  obtain d where d: "transmit methods_d rs' (g, v_d ?v) = (Inr [ack_for (parent (v_d v)) ?b], (g, d))"
    "remaining beat_d d = []"
    using transmit_pending_put [of ?b "v_d ?v" rs' g] assms last(1) beat_counts(3) [OF assms(11,12,14,15)]
    by (auto simp: idle_sender_def get_valid_def)
  have h: "handle_beat_d False (ack_for (parent (v_d v)) ?b) (g, h\<lparr>h_a := a2\<rparr>) =
      (Inr (), (g, h\<lparr>h_a := a2\<lparr>ids_in_use := ids_in_use (h_a h)\<rparr>\<rparr>))"
    using a2(3) i(1) last(2)
    by (simp add: handle_beat_d_def ack_for_def end_transaction_def transaction_id_available_def prog_simps)
  have r: "remaining beat_a (a2\<lparr>ids_in_use := I\<rparr>) = []" for I
    using a2(2) by (auto simp: remaining_def get_valid_def split: if_splits)
  show ?thesis
    using i a2(1) v d h r put_beats_facts(2) [of w i z] last(2)
    by (intro exI conjI) (assumption | simp add: ack_for_def)+
qed

theorem put_transaction_completes_witness:
  "\<exists>i a1 a2 beats. i \<notin> ids_in_use (h_a example_host) \<and>
     queue_request_a \<lparr>net_hosts = [example_ep], net_devices = [example_ep], net_garbage = 0\<rparr> False [''size'' \<mapsto> 4]
       (fixed_rng, h_a example_host) = (Inr (), (fixed_rng, a1)) \<and>
     transmit methods_a [True, False, True] (fixed_rng, a1) = (Inr beats, (fixed_rng, a2)) \<and> length beats = 2"
proof -
  let ?net = "\<lparr>net_hosts = [example_ep], net_devices = [example_ep], net_garbage = 0\<rparr>"
  have "({} :: int set) \<noteq> {0..3}" by auto
  then show ?thesis
    using put_transaction_completes [of example_host example_device 8 4 "[True, False, True]" "[True]" ?net fixed_rng]
    by (simp add: example_device_def example_host_def new_device_def new_host_def new_receiver_def new_sender_def
        sender.extend_def idle_wires_def idle_sender_def get_valid_def ids_in_range_def id_range_def example_ep_def)
      blast
qed

end
