(* ===== verification/TL_Coherence.thy ===== *)
theory TL_Coherence
  imports TL_Transactions
begin

text \<open>
  Cache coherence transactions of the traffic generator: an acquire on channel A, the grant of
  the device on channel D and its acknowledgement on channel E.
\<close>

section \<open>The request\<close>

text \<open>A default request whose opcode and size are changed by the requirements.\<close>

definition changed_request :: "int \<Rightarrow> int \<Rightarrow> int \<Rightarrow> int \<Rightarrow> tl_a" where
  "changed_request w i oper z = (put_request w i z)\<lparr>a_opcode := a_op_of oper\<rparr>"

definition changed_message :: "int \<Rightarrow> int \<Rightarrow> int \<Rightarrow> int \<Rightarrow> tl_a tl_message" where
  "changed_message w i oper z = \<lparr>channel_width_bytes = w, beats_to_send = 1, beats_ready = 1, beats_generated = 0,
     header = changed_request w i oper z\<rparr>"

lemma queue_changed_request:
  assumes "ids_in_range s" "ids_in_use s \<noteq> {ep_first_id (parent s)..ep_last_id (parent s)}"
    and "ep_bit_width (parent s) = 8 * w" "0 < w" "w \<le> 30" "\<not> has_payload_a (a_op_of oper)"
  shows "\<exists>i. i \<notin> ids_in_use s \<and> queue_request_a net False [''opcode'' \<mapsto> oper, ''size'' \<mapsto> z] (g, s) =
    (Inr (), (g, s\<lparr>to_send := to_send s @ [changed_message w i oper z], ids_in_use := insert i (ids_in_use s)\<rparr>))"
proof -
  obtain i where i: "i \<notin> ids_in_use s" "get_transaction_id False (g, s) = (Inr i, (g, s))"
    using get_transaction_id_least [OF assms(1,2), of g] by blast
  have can: "can_start_new_transaction s" using can_start_iff [OF assms(1)] assms(2) by simp
  have width: "width_bytes (parent s) = w" using assms(3,4) by (simp add: width_bytes_def signed_divide_int_def sgn_if)
  have "beat_size (parent s) = Inr (int (ilog2 (nat w)))"
    using assms by (simp add: beat_size_def bits_to_size_def signed_divide_int_def sgn_if)
  then have req: "new_a_request net False (g, s) = (Inr (put_request w i (int (ilog2 (nat w)))), (g, s))"
    using i(2) full_mask_ilog2 [OF assms(4,5)]
    by (simp add: new_a_request_def new_a_request_default_def prog_simps get_address_def put_request_def)
  have "message_a net False [''opcode'' \<mapsto> oper, ''size'' \<mapsto> z] (g, s) = (Inr (changed_message w i oper z), (g, s))"
    using req assms(4,6) width
    by (simp add: message_a_def prog_simps Let_def modify_a_def update_field_def sized_message_def num_beats_a_def
        payload_beats_def changed_message_def changed_request_def put_request_def del: has_payload_a.simps)
  then show ?thesis
    using i(1) can
    by (intro exI [of _ i]) (simp add: queue_request_a_def prog_simps push_message_def start_transaction_def
        transaction_id_available_def changed_message_def changed_request_def put_request_def)
qed

section \<open>The grant\<close>

definition is_acquire :: "tl_a_op_e \<Rightarrow> bool" where
  "is_acquire oper \<longleftrightarrow> oper = AcquireBlock \<or> oper = AcquirePerm"

definition grant_for :: "tl_a \<Rightarrow> int \<Rightarrow> tl_d" where
  "grant_for request k = \<lparr>d_opcode = Grant, d_param = 0, d_size = a_size request, d_source = a_source request,
     d_sink = k, d_denied = False, d_corrupt = False, d_data = 0xDEADBEEFCAFEF00D\<rparr>"

definition grant_message :: "endpoint \<Rightarrow> tl_a \<Rightarrow> int \<Rightarrow> tl_d tl_message" where
  "grant_message ep request k = \<lparr>channel_width_bytes = width_bytes ep, beats_to_send = 1, beats_ready = 1,
     beats_generated = 0, header = grant_for request k\<rparr>"

lemma respond_d_acquire:
  assumes "is_acquire (a_opcode b)" "0 < width_bytes (parent s)" "\<not> lock_output_buffer s" "to_send s = []"
    and "d_a_requests s = [(False, b)]" "d_c_requests s = []" "ids_in_range s"
    and "ids_in_use s \<noteq> {ep_first_id (parent s)..ep_last_id (parent s)}"
  shows "\<exists>k. k \<notin> ids_in_use s \<and> respond_d (g, s) = (Inr (), (g, s\<lparr>to_send := [grant_message (parent s) b k],
    d_a_requests := [], ids_in_use := insert k (ids_in_use s)\<rparr>))"
proof -
  obtain k where k: "k \<notin> ids_in_use s" "get_transaction_id False (g, s) = (Inr k, (g, s))"
    using get_transaction_id_least [OF assms(7,8), of g] by blast
  have "message_d_of_a b False (g, s) = (Inr (grant_message (parent s) b k), (g, s))"
    using assms(1,2) k(2)
    by (auto simp: message_d_of_a_def is_acquire_def prog_simps new_d_response_a_def sized_message_def
        num_beats_d_def payload_beats_def grant_message_def grant_for_def)
  then show ?thesis
    using assms k(1)
    by (intro exI [of _ k]) (auto simp: respond_d_def respond_all_def prog_simps respond_d_to_a_def is_acquire_def
        is_atomic_def push_message_def complete_def grant_message_def register_sink_def grant_for_def
        start_transaction_def transaction_id_available_def)
qed

lemma transmit_grant:
  assumes "is_acquire (a_opcode b)" "0 < width_bytes (parent s)" "\<not> lock_output_buffer s" "idle_sender s"
    and "d_a_requests s = [(False, b)]" "d_c_requests s = []" "ids_in_range s"
    and "ids_in_use s \<noteq> {ep_first_id (parent s)..ep_last_id (parent s)}" "True \<in> set rs"
  shows "\<exists>k s'. k \<notin> ids_in_use s \<and> transmit methods_d rs (g, s) = (Inr [grant_for b k], (g, s')) \<and>
    remaining beat_d s' = [] \<and> ids_in_use s' = insert k (ids_in_use s)"
proof -
  obtain k where k: "k \<notin> ids_in_use s" "respond_d (g, s) = (Inr (), (g, s\<lparr>to_send := [grant_message (parent s) b k],
      d_a_requests := [], ids_in_use := insert k (ids_in_use s)\<rparr>))"
    using respond_d_acquire [of b s g] assms by (auto simp: idle_sender_def)
  let ?m = "grant_message (parent s) b k"
  let ?s = "s\<lparr>to_send := [?m], d_a_requests := [], ids_in_use := insert k (ids_in_use s)\<rparr>"
  have same: "transmit methods_d rs (g, s) = transmit methods_d rs (g, ?s)"
    using assms(4,6,9) k(2)
    by (intro quiet_d.transmit_respond) (auto simp: methods_d_def finished_def grant_message_def)
  have beats: "rest_of beat_d ?m = [grant_for b k]"
    by (simp add: rest_of_def grant_message_def upto_rec1 beat_d_def grant_for_def)
  have "count_list rs True > 0" using assms(9) by (simp add: count_list_0_iff zero_less_iff_neq_zero)
  then have "\<exists>s'. transmit methods_d rs (g, ?s) = (Inr (rest_of beat_d ?m), (g, s')) \<and> remaining beat_d s' = [] \<and>
      ids_in_use s' = ids_in_use ?s"
    using assms(3,4,6) beats
    by (intro quiet_d.transmit_message) (simp_all add: idle_sender_def get_valid_def msg_ok_def complete_def grant_message_def)
  then show ?thesis using same beats k(1) by auto
qed

section \<open>The acknowledgement\<close>

definition grant_ack_message :: "endpoint \<Rightarrow> tl_d \<Rightarrow> tl_e tl_message" where
  "grant_ack_message ep b = \<lparr>channel_width_bytes = width_bytes ep, beats_to_send = 1, beats_ready = 1,
     beats_generated = 0, header = \<lparr>e_sink = d_sink b\<rparr>\<rparr>"

lemma transmit_grant_ack:
  assumes "idle_sender s" "e_d_requests s = [(False, b)]" "protocol_value (ep_protocol (parent s)) > protocol_value TL_UH"
    and "0 < width_bytes (parent s)" "True \<in> set rs"
  shows "\<exists>s'. transmit methods_e rs (g, s) = (Inr [\<lparr>e_sink = d_sink b\<rparr>], (g, s')) \<and> remaining (\<lambda>h i. h) s' = []"
proof -
  let ?m = "grant_ack_message (parent s) b"
  let ?s = "s\<lparr>to_send := [?m], e_d_requests := []\<rparr>"
  have "respond_e (g, s) = (Inr (), (g, ?s))"
    using assms
    by (auto simp: respond_e_def respond_all_def prog_simps respond_e_to_def message_e_response_def new_message_base_def
        new_e_response_def push_message_def idle_sender_def grant_ack_message_def)
  then have same: "transmit methods_e rs (g, s) = transmit methods_e rs (g, ?s)"
    using assms(1,5) by (intro quiet_e.transmit_respond) (auto simp: methods_e_def finished_def grant_ack_message_def)
  have beats: "rest_of (\<lambda>h i. h) ?m = [\<lparr>e_sink = d_sink b\<rparr>]"
    by (simp add: rest_of_def grant_ack_message_def upto_rec1)
  have "count_list rs True > 0" using assms(5) by (simp add: count_list_0_iff zero_less_iff_neq_zero)
  then have "\<exists>s'. transmit methods_e rs (g, ?s) = (Inr (rest_of (\<lambda>h i. h) ?m), (g, s')) \<and>
      remaining (\<lambda>h i. h) s' = [] \<and> ids_in_use s' = ids_in_use ?s"
    using assms(1) beats
    by (intro quiet_e.transmit_message)
      (simp_all add: idle_sender_def get_valid_def msg_ok_def complete_def grant_ack_message_def single_beat_def)
  then show ?thesis using same beats by auto
qed

section \<open>The whole transaction\<close>

lemma transmit_changed_request:
  assumes "idle_sender s" "True \<in> set rs"
  shows "\<exists>s'. transmit methods_a rs (g, s\<lparr>to_send := [changed_message w i oper z], ids_in_use := I\<rparr>) =
      (Inr [changed_request w i oper z], (g, s')) \<and> remaining beat_a s' = [] \<and> ids_in_use s' = I"
proof -
  let ?m = "changed_message w i oper z"
  have beats: "rest_of beat_a ?m = [changed_request w i oper z]"
    by (simp add: rest_of_def changed_message_def upto_rec1 beat_a_def)
  have "count_list rs True > 0" using assms(2) by (simp add: count_list_0_iff zero_less_iff_neq_zero)
  then show ?thesis
    using quiet_a.transmit_message [of "s\<lparr>to_send := [?m], ids_in_use := I\<rparr>" ?m rs g] assms(1) beats
    by (simp add: idle_sender_def get_valid_def msg_ok_def complete_def changed_message_def)
qed

lemma handle_acquire:
  assumes "is_acquire (a_opcode b)" "d_a_requests (v_d v) = []"
  shows "handle_beat_a False b (g, v) =
    (Inr (), (g, v\<lparr>v_b := handle_request_b False b (v_b v), v_d := (v_d v)\<lparr>d_a_requests := [(False, b)]\<rparr>\<rparr>))"
  using assms by (auto simp: handle_beat_a_def is_acquire_def prog_simps handle_request_d_a_def)

lemma handle_grant:
  assumes "i \<notin> I" "ids_in_use a = insert i I" "d_opcode b = Grant" "d_source b = i" "e_d_requests (h_e h) = []"
  shows "handle_beat_d False b (g, h\<lparr>h_a := a\<rparr>) =
    (Inr (), (g, h\<lparr>h_a := a\<lparr>ids_in_use := I\<rparr>, h_e := (h_e h)\<lparr>e_d_requests := [(False, b)]\<rparr>\<rparr>))"
  using assms
  by (simp add: handle_beat_d_def end_transaction_def transaction_id_available_def prog_simps handle_request_e_def Let_def)

lemma handle_grant_ack:
  assumes "ep_protocol (v_endpoint v) = TL_C" "k \<notin> K" "ids_in_use d = insert k K"
  shows "handle_beat_e False \<lparr>e_sink = k\<rparr> (g, v\<lparr>v_d := d\<rparr>) = (Inr (), (g, v\<lparr>v_d := d\<lparr>ids_in_use := K\<rparr>\<rparr>))"
  using assms by (simp add: handle_beat_e_def end_transaction_def transaction_id_available_def prog_simps)

text \<open>
  C37: A coherence transaction completes, without random choices and over a network that hands every
  beat on as it is. Let the host have a free source identifier and the device a free sink
  identifier, both without other work. An acquire of either kind and of any size that the ports can
  carry is queued and reaches the device in the first cycle in which channel A is ready. The device
  passes it on for its probes and answers with exactly one grant, which carries the source of the
  request and registers a fresh sink. The host takes the grant, releases the source, and sends
  exactly one acknowledgement on channel E with that sink; then the device releases the sink. In
  the end exactly the identifiers of the beginning are in use on both sides.
\<close>

theorem acquire_transaction_completes:
  assumes "ids_in_range (h_a h)" "ids_in_use (h_a h) \<noteq> {ep_first_id (parent (h_a h))..ep_last_id (parent (h_a h))}"
    and "idle_sender (h_a h)" "idle_sender (h_e h)" "e_d_requests (h_e h) = []"
    and "ep_bit_width (parent (h_a h)) = 8 * w" "0 < w" "w \<le> 30"
    and "protocol_value (ep_protocol (parent (h_e h))) > protocol_value TL_UH" "0 < width_bytes (parent (h_e h))"
    and "ids_in_range (v_d v)" "ids_in_use (v_d v) \<noteq> {ep_first_id (parent (v_d v))..ep_last_id (parent (v_d v))}"
    and "idle_sender (v_d v)" "d_a_requests (v_d v) = []" "d_c_requests (v_d v) = []" "\<not> lock_output_buffer (v_d v)"
    and "ep_protocol (v_endpoint v) = TL_C" "0 < width_bytes (parent (v_d v))"
    and "oper = 6 \<or> oper = 7" "True \<in> set ras" "True \<in> set rds" "True \<in> set res"
  shows "\<exists>i k a1 a2 request v1 d grant h1 ack e v2. i \<notin> ids_in_use (h_a h) \<and> k \<notin> ids_in_use (v_d v) \<and>
    queue_request_a net False [''opcode'' \<mapsto> oper, ''size'' \<mapsto> z] (g, h_a h) = (Inr (), (g, a1)) \<and>
    ids_in_use a1 = insert i (ids_in_use (h_a h)) \<and>
    transmit methods_a ras (g, a1) = (Inr [request], (g, a2)) \<and>
    handle_beat_a False request (g, v) = (Inr (), (g, v1)) \<and>
    b_a_requests (v_b v1) = b_a_requests (v_b v) @ [(False, request)] \<and>
    transmit methods_d rds (g, v_d v1) = (Inr [grant], (g, d)) \<and>
    d_opcode grant = Grant \<and> d_source grant = i \<and> ids_in_use d = insert k (ids_in_use (v_d v)) \<and>
    handle_beat_d False grant (g, h\<lparr>h_a := a2\<rparr>) = (Inr (), (g, h1)) \<and>
    ids_in_use (h_a h1) = ids_in_use (h_a h) \<and>
    transmit methods_e res (g, h_e h1) = (Inr [ack], (g, e)) \<and> e_sink ack = k \<and>
    handle_beat_e False ack (g, v1\<lparr>v_d := d\<rparr>) = (Inr (), (g, v2)) \<and>
    ids_in_use (v_d v2) = ids_in_use (v_d v)"
proof -
  have oper: "\<not> has_payload_a (a_op_of oper)" "is_acquire (a_op_of oper)"
    using assms(19) by (auto simp: a_op_of_def is_acquire_def)
  obtain i where i: "i \<notin> ids_in_use (h_a h)" "queue_request_a net False [''opcode'' \<mapsto> oper, ''size'' \<mapsto> z] (g, h_a h) =
      (Inr (), (g, (h_a h)\<lparr>to_send := [changed_message w i oper z], ids_in_use := insert i (ids_in_use (h_a h))\<rparr>))"
    using queue_changed_request [OF assms(1,2,6-8) oper(1), of net z g] assms(3) by (auto simp: idle_sender_def)
  let ?b = "changed_request w i oper z"
  have b: "is_acquire (a_opcode ?b)" "a_source ?b = i"
    using oper(2) by (simp_all add: changed_request_def put_request_def)
  obtain a2 where a2: "transmit methods_a ras (g, (h_a h)\<lparr>to_send := [changed_message w i oper z],
      ids_in_use := insert i (ids_in_use (h_a h))\<rparr>) = (Inr [?b], (g, a2))" "ids_in_use a2 = insert i (ids_in_use (h_a h))"
    using transmit_changed_request [OF assms(3,20)] by blast
  let ?v1 = "v\<lparr>v_b := handle_request_b False ?b (v_b v), v_d := (v_d v)\<lparr>d_a_requests := [(False, ?b)]\<rparr>\<rparr>"
  obtain k d where k: "k \<notin> ids_in_use (v_d v)" "transmit methods_d rds (g, v_d ?v1) = (Inr [grant_for ?b k], (g, d))"
    "ids_in_use d = insert k (ids_in_use (v_d v))"
    using transmit_grant [OF b(1), of "v_d ?v1" rds g] assms(11-16,18,21)
    by (auto simp: ids_in_range_def idle_sender_def get_valid_def)
  have grant: "d_opcode (grant_for ?b k) = Grant" "d_source (grant_for ?b k) = i" "d_sink (grant_for ?b k) = k"
    using b(2) by (simp_all add: grant_for_def)
  let ?h1 = "h\<lparr>h_a := a2\<lparr>ids_in_use := ids_in_use (h_a h)\<rparr>, h_e := (h_e h)\<lparr>e_d_requests := [(False, grant_for ?b k)]\<rparr>\<rparr>"
  obtain e where e: "transmit methods_e res (g, h_e ?h1) = (Inr [\<lparr>e_sink = k\<rparr>], (g, e))"
    using transmit_grant_ack [of "h_e ?h1" "grant_for ?b k" res g] assms(4,9,10,22) grant(3)
    by (auto simp: idle_sender_def get_valid_def)
  have "b_a_requests (v_b ?v1) = b_a_requests (v_b v) @ [(False, ?b)]" by (simp add: handle_request_b_def)
  with i a2 k e grant handle_acquire [OF b(1) assms(14), of g] handle_grant [OF i(1) a2(2) grant(1,2) assms(5), of g]
    handle_grant_ack [of ?v1 k "ids_in_use (v_d v)" d g] assms(17)
  show ?thesis by (intro exI conjI) (assumption | simp)+
qed

lemma example_ends_fields:
  "parent (h_a example_host) = example_ep" "parent (h_e example_host) = example_ep" "parent (v_d example_device) = example_ep"
  "ids_in_use (h_a example_host) = {}" "ids_in_use (v_d example_device) = {}" "v_endpoint example_device = example_ep"
  "idle_sender (h_a example_host)" "idle_sender (h_e example_host)" "idle_sender (v_d example_device)"
  "e_d_requests (h_e example_host) = []" "d_a_requests (v_d example_device) = []" "d_c_requests (v_d example_device) = []"
  "\<not> lock_output_buffer (v_d example_device)"
  by (simp_all add: example_device_def example_host_def new_device_def new_host_def new_sender_def sender.extend_def
      idle_wires_def idle_sender_def get_valid_def)

theorem acquire_transaction_completes_witness:
  "\<exists>a1 a2 request. queue_request_a \<lparr>net_hosts = [example_ep], net_devices = [example_ep], net_garbage = 0\<rparr> False
       [''opcode'' \<mapsto> 6, ''size'' \<mapsto> 6] (fixed_rng, h_a example_host) = (Inr (), (fixed_rng, a1)) \<and>
     transmit methods_a [False, True] (fixed_rng, a1) = (Inr [request], (fixed_rng, a2))"
proof -
  let ?net = "\<lparr>net_hosts = [example_ep], net_devices = [example_ep], net_garbage = 0\<rparr>"
  have "({} :: int set) \<noteq> {0..3}" by auto
  then show ?thesis
    using acquire_transaction_completes [of example_host 8 example_device 6 "[False, True]" "[True]" "[True]" ?net 6 fixed_rng]
    by (simp add: example_ends_fields ids_in_range_def id_range_def example_ep_def width_bytes_def signed_divide_int_def sgn_if)
      blast
qed

end
