(* ===== verification/TL_Responses.thy ===== *)
theory TL_Responses
  imports TL_Transactions
begin

text \<open>
  Pending requests and the responses to them: the sender of channel D with its output buffer
  locked or not, and the probes of the sender of channel B.
\<close>

section \<open>Responses on channel D\<close>

text \<open>Requests that need no identifier of their own.\<close>

definition answerable :: "tl_a \<Rightarrow> bool" where
  "answerable r \<longleftrightarrow> a_opcode r \<in> {PutFullData, PutPartialData, ArithmeticData, LogicalData, Get, Intent} \<and>
     0 \<le> a_size r \<and> a_size r \<le> 27"

text \<open>The beats that the last message in the queue still waits for.\<close>

definition missing :: "('c, 'z) sender_scheme \<Rightarrow> int" where
  "missing s = (if to_send s = [] then 0 else beats_to_send (last (to_send s)) - beats_ready (last (to_send s)))"

text \<open>The beats missing after the first one of a request of channel A has been answered.\<close>

definition missing_after :: "int \<Rightarrow> tl_a \<Rightarrow> int" where
  "missing_after w r = (if is_atomic (a_opcode r) then max 1 (2 ^ nat (a_size r) div w) - 1 else 0)"

text \<open>
  The beats of each atomic operation follow each other, \<open>k\<close> of them first for a message that is
  in the queue already; and the sources of the messages that begin in the list.
\<close>

fun contiguous :: "int \<Rightarrow> int \<Rightarrow> (bool \<times> tl_a) list \<Rightarrow> bool" where
  "contiguous w k [] \<longleftrightarrow> True"
| "contiguous w k ((rnd, r) # rs) \<longleftrightarrow> answerable r \<and>
     (if k > 0 then is_atomic (a_opcode r) \<and> contiguous w (k - 1) rs else contiguous w (missing_after w r) rs)"

fun started :: "int \<Rightarrow> int \<Rightarrow> (bool \<times> tl_a) list \<Rightarrow> int list" where
  "started w k [] = []"
| "started w k ((rnd, r) # rs) =
     (if k > 0 then started w (k - 1) rs else a_source r # started w (missing_after w r) rs)"

definition buffer_ok :: "sender_d \<Rightarrow> bool" where
  "buffer_ok s \<longleftrightarrow> (lock_output_buffer s \<longleftrightarrow> unfinished_tail (to_send s)) \<and>
     (to_send s \<noteq> [] \<longrightarrow> msg_ok (last (to_send s)))"

lemma buffer_ok_missing: "buffer_ok s \<Longrightarrow> lock_output_buffer s \<longleftrightarrow> missing s > 0"
  by (auto simp: buffer_ok_def unfinished_tail_def missing_def msg_ok_def complete_def)

lemma random_d_response:
  assumes "a_opcode r \<noteq> AcquireBlock" "opcode \<noteq> Grant" "opcode \<noteq> GrantData"
  shows "\<exists>x g'. new_d_response_random deny r opcode sink g = (Inr x, g') \<and> d_opcode x = opcode \<and>
    d_size x = a_size r \<and> d_source x = a_source r"
  using assms
  by (simp add: new_d_response_random_def prog_simps rand_def random_bool_def random_data_def align_address_def Let_def)

lemma random_id_succeeds: "id_range ep \<noteq> 0 \<Longrightarrow> \<exists>i g'. random_id ep g = (Inr i, g')"
  by (simp add: random_id_def prog_simps rand_def)

lemma routing_id_succeeds:
  "id_range (parent s) \<noteq> 0 \<Longrightarrow> \<exists>i g'. get_routing_id rnd (g, s) = (Inr i, (g', s))"
  using random_id_succeeds [of "parent s" g] by (auto simp: get_routing_id_def prog_simps)

definition answer_opcode :: "tl_a_op_e \<Rightarrow> tl_d_op_e" where
  "answer_opcode opcode =
     (if is_put opcode then AccessAck else if opcode = Intent then HintAck else AccessAckData)"

lemma d_response_answer:
  assumes "answerable r"
  shows "d_response_opcode (a_opcode r) = Inr (answer_opcode (a_opcode r))" "a_opcode r \<noteq> AcquireBlock"
    "\<not> requires_response_d (answer_opcode (a_opcode r))"
    "answer_opcode (a_opcode r) \<noteq> Grant" "answer_opcode (a_opcode r) \<noteq> GrantData"
    "is_atomic (a_opcode r) \<Longrightarrow> answer_opcode (a_opcode r) = AccessAckData"
  using assms by (auto simp: answerable_def answer_opcode_def is_put_def is_atomic_def)

lemma new_d_response_succeeds:
  assumes "answerable r" "id_range (parent s) \<noteq> 0"
  shows "\<exists>x g'. new_d_response_a r rnd (g, s) = (Inr x, (g', s)) \<and> d_opcode x = answer_opcode (a_opcode r) \<and>
    d_size x = a_size r \<and> d_source x = a_source r"
proof -
  note o = d_response_answer [OF assms(1)]
  obtain i g1 where i: "get_routing_id rnd (g, s) = (Inr i, (g1, s))" using routing_id_succeeds [OF assms(2)] by blast
  show ?thesis
    using i o random_d_response [OF o(2,4,5), of "ep_can_deny (parent s)" i g1]
    by (cases rnd) (auto simp: new_d_response_a_def prog_simps simp del: requires_response_d.simps)
qed

lemma message_d_succeeds:
  assumes "answerable r" "id_range (parent s) \<noteq> 0" "ep_bit_width (parent s) = 8 * w" "0 < w"
  shows "\<exists>m g'. message_d_of_a r rnd (g, s) = (Inr m, (g', s)) \<and> msg_ok m \<and> beats_generated m = 0 \<and>
    beats_to_send m - beats_ready m = missing_after w r \<and> d_source (header m) = a_source r \<and>
    \<not> requires_response_d (d_opcode (header m))"
proof -
  note o = d_response_answer [OF assms(1)]
  obtain x g' where x: "new_d_response_a r rnd (g, s) = (Inr x, (g', s))" "d_opcode x = answer_opcode (a_opcode r)"
    "d_size x = a_size r" "d_source x = a_source r"
    using new_d_response_succeeds [OF assms(1,2)] by blast
  have z: "0 \<le> a_size r" "a_size r \<le> 27" using assms(1) by (simp_all add: answerable_def)
  note n = beat_counts(2,3) [OF assms(3,4) z]
  show ?thesis
    using x n o assms(4)
    by (cases "has_payload_d (answer_opcode (a_opcode r))")
      (auto simp: message_d_of_a_def prog_simps sized_message_def num_beats_d_def payload_beats_def msg_ok_def
        missing_after_def is_atomic_def max_def)
qed

text \<open>What answering a request leaves alone.\<close>

definition same_base :: "sender_d \<Rightarrow> sender_d \<Rightarrow> bool" where
  "same_base s s' \<longleftrightarrow> parent s' = parent s \<and> ids_in_use s' = ids_in_use s \<and> channel s' = channel s"

definition sources :: "(tl_d, 'z) sender_scheme \<Rightarrow> int list" where
  "sources s = map (\<lambda>m. d_source (header m)) (to_send s)"

lemma request_queues [simp]:
  "missing (s\<lparr>d_a_requests := qa\<rparr>) = missing s" "missing (s\<lparr>d_c_requests := qc\<rparr>) = missing s"
  "buffer_ok (s\<lparr>d_a_requests := qa\<rparr>) = buffer_ok s" "buffer_ok (s\<lparr>d_c_requests := qc\<rparr>) = buffer_ok s"
  "sources (s\<lparr>d_a_requests := qa\<rparr>) = sources s" "sources (s\<lparr>d_c_requests := qc\<rparr>) = sources s"
  by (simp_all add: missing_def buffer_ok_def sources_def)

lemma continue_response_step:
  assumes "buffer_ok s" "missing s > 0"
  shows "\<exists>s'. continue_response (g, s) = (Inr (), (g, s')) \<and> buffer_ok s' \<and> missing s' = missing s - 1 \<and>
    sources s' = sources s \<and> same_base s s' \<and> d_a_requests s' = d_a_requests s \<and> d_c_requests s' = d_c_requests s"
proof -
  obtain q m where q: "to_send s = q @ [m]" "msg_ok m" "beats_ready m < beats_to_send m"
    using assms by (cases "to_send s" rule: rev_cases) (auto simp: missing_def buffer_ok_def)
  then show ?thesis
    by (auto simp: continue_response_def new_beat_ready_def prog_simps buffer_ok_def unfinished_tail_def missing_def
        msg_ok_def sources_def same_base_def)
qed

lemma respond_d_to_a_step:
  assumes "buffer_ok s" "answerable r" "id_range (parent s) \<noteq> 0" "ep_bit_width (parent s) = 8 * w" "0 < w"
    and "missing s > 0 \<longrightarrow> is_atomic (a_opcode r)"
  shows "\<exists>g' s'. respond_d_to_a (rnd, r) (g, s) = (Inr (), (g', s')) \<and> buffer_ok s' \<and> same_base s s' \<and>
    missing s' = (if missing s > 0 then missing s - 1 else missing_after w r) \<and>
    sources s' = sources s @ (if missing s > 0 then [] else [a_source r]) \<and>
    d_a_requests s' = d_a_requests s \<and> d_c_requests s' = d_c_requests s"
proof (cases "missing s > 0")
  case True
  then have "is_atomic (a_opcode r) \<and> to_send s \<noteq> [] \<and> \<not> complete (last (to_send s))"
    using assms by (auto simp: missing_def complete_def split: if_splits)
  then show ?thesis
    using True continue_response_step [OF assms(1) True, of g] by (auto simp: respond_d_to_a_def prog_simps)
next
  case False
  then have free: "\<not> lock_output_buffer s" "\<not> (to_send s \<noteq> [] \<and> \<not> complete (last (to_send s)))"
    using assms(1) buffer_ok_missing [OF assms(1)] by (auto simp: buffer_ok_def unfinished_tail_def)
  obtain m g' where m: "message_d_of_a r rnd (g, s) = (Inr m, (g', s))" "msg_ok m"
    "beats_to_send m - beats_ready m = missing_after w r" "d_source (header m) = a_source r"
    "\<not> requires_response_d (d_opcode (header m))"
    using message_d_succeeds [OF assms(2-5)] by blast
  then have "respond_d_to_a (rnd, r) (g, s) =
      (Inr (), (g', (push_message m s)\<lparr>lock_output_buffer := \<not> complete m\<rparr>))"
    using free by (auto simp: respond_d_to_a_def prog_simps register_sink_def simp del: requires_response_d.simps)
  then show ?thesis
    using False m by (auto simp: push_message_def buffer_ok_def unfinished_tail_def missing_def complete_def
        sources_def same_base_def)
qed

lemma respond_loop_a:
  assumes "buffer_ok s" "id_range (parent s) \<noteq> 0" "ep_bit_width (parent s) = 8 * w" "0 < w"
    and "d_a_requests s = rs" "contiguous w (missing s) rs"
  shows "\<exists>g' s'. respond_loop sender_fifo d_a_requests (\<lambda>q s. s\<lparr>d_a_requests := q\<rparr>) respond_d_to_a (length rs) (g, s) =
      (Inr True, (g', s')) \<and> buffer_ok s' \<and> same_base s s' \<and> sources s' = sources s @ started w (missing s) rs \<and>
    d_a_requests s' = [] \<and> d_c_requests s' = d_c_requests s"
  using assms
proof (induction rs arbitrary: g s)
  case Nil
  then show ?case by (simp add: prog_simps same_base_def)
next
  case (Cons p rs)
  obtain rnd r where p: "p = (rnd, r)" by (cases p)
  let ?k = "if missing s > 0 then missing s - 1 else missing_after w r"
  have hyp: "answerable r" "missing s > 0 \<longrightarrow> is_atomic (a_opcode r)" "contiguous w ?k rs"
    using Cons.prems(6) p by (auto split: if_splits)
  obtain g1 s1 where s1: "respond_d_to_a (rnd, r) (g, s) = (Inr (), (g1, s1))" "buffer_ok s1" "same_base s s1"
    "missing s1 = ?k" "sources s1 = sources s @ (if missing s > 0 then [] else [a_source r])"
    "d_a_requests s1 = d_a_requests s" "d_c_requests s1 = d_c_requests s"
    using respond_d_to_a_step [OF Cons.prems(1) hyp(1) Cons.prems(2-4) hyp(2), of rnd g] by blast
  let ?s = "s1\<lparr>d_a_requests := rs\<rparr>"
  have t: "buffer_ok ?s" "missing ?s = ?k" "sources ?s = sources s1" "parent ?s = parent s" "same_base s ?s"
    using s1 by (simp_all add: same_base_def)
  obtain g2 s2 where s2: "respond_loop sender_fifo d_a_requests (\<lambda>q s. s\<lparr>d_a_requests := q\<rparr>) respond_d_to_a (length rs)
      (g1, ?s) = (Inr True, (g2, s2))" "buffer_ok s2" "same_base ?s s2" "sources s2 = sources ?s @ started w (missing ?s) rs"
    "d_a_requests s2 = []" "d_c_requests s2 = d_c_requests ?s"
    using Cons.IH [of ?s g1] Cons.prems(2-4) hyp(3) t by auto
  have "respond_loop sender_fifo d_a_requests (\<lambda>q s. s\<lparr>d_a_requests := q\<rparr>) respond_d_to_a (length (p # rs)) (g, s) =
      (Inr True, (g2, s2))"
    using s1(1,6) s2(1) Cons.prems(5) p by (simp add: prog_simps tryM_apply)
  moreover have "sources s2 = sources s @ started w (missing s) (p # rs)"
    using s2(4) t(2,3) s1(5) p by simp
  moreover have "same_base s s2" using t(5) s2(3) by (simp add: same_base_def)
  ultimately show ?case using s2 s1(7) by auto
qed

lemma respond_d_to_c_step:
  assumes "buffer_ok s" "missing s = 0" "id_range (parent s) \<noteq> 0" "ep_bit_width (parent s) = 8 * w" "0 < w"
    and "c_opcode c = Release \<or> c_opcode c = ReleaseData"
  shows "\<exists>g' s'. respond_d_to_c (rnd, c) (g, s) = (Inr (), (g', s')) \<and> buffer_ok s' \<and> same_base s s' \<and>
    missing s' = 0 \<and> sources s' = sources s @ [c_source c] \<and>
    d_a_requests s' = d_a_requests s \<and> d_c_requests s' = d_c_requests s"
proof -
  obtain i g' where i: "get_routing_id rnd (g, s) = (Inr i, (g', s))" using routing_id_succeeds [OF assms(3)] by blast
  let ?m = "\<lparr>channel_width_bytes = w, beats_to_send = 1, beats_ready = 1, beats_generated = 0,
    header = \<lparr>d_opcode = ReleaseAck, d_param = 0, d_size = c_size c, d_source = c_source c, d_sink = i,
      d_denied = False, d_corrupt = False, d_data = 0\<rparr>\<rparr>"
  have w: "width_bytes (parent s) = w" using beat_counts(3) [OF assms(4,5), of 0] by simp
  have free: "\<not> lock_output_buffer s" "\<not> unfinished_tail (to_send s)"
    using assms(1,2) buffer_ok_missing [OF assms(1)] by (auto simp: buffer_ok_def)
  have "respond_d_to_c (rnd, c) (g, s) = (Inr (), (g', push_message ?m s))"
    using i free assms(5,6) w
    by (auto simp: respond_d_to_c_def prog_simps message_d_of_c_def new_d_response_c_def sized_message_def
        num_beats_d_def payload_beats_def register_sink_def)
  then show ?thesis
    using free by (auto simp: push_message_def buffer_ok_def unfinished_tail_def missing_def complete_def msg_ok_def
        sources_def same_base_def)
qed

lemma respond_loop_c:
  assumes "buffer_ok s" "missing s = 0" "id_range (parent s) \<noteq> 0" "ep_bit_width (parent s) = 8 * w" "0 < w"
    and "d_c_requests s = rs" "\<forall>p \<in> set rs. c_opcode (snd p) = Release \<or> c_opcode (snd p) = ReleaseData"
  shows "\<exists>g' s'. respond_loop sender_fifo d_c_requests (\<lambda>q s. s\<lparr>d_c_requests := q\<rparr>) respond_d_to_c (length rs) (g, s) =
      (Inr True, (g', s')) \<and> buffer_ok s' \<and> same_base s s' \<and> missing s' = 0 \<and>
    sources s' = sources s @ map (\<lambda>p. c_source (snd p)) rs \<and> d_a_requests s' = d_a_requests s \<and> d_c_requests s' = []"
  using assms
proof (induction rs arbitrary: g s)
  case Nil
  then show ?case by (simp add: prog_simps same_base_def)
next
  case (Cons p rs)
  obtain rnd c where p: "p = (rnd, c)" by (cases p)
  obtain g1 s1 where s1: "respond_d_to_c (rnd, c) (g, s) = (Inr (), (g1, s1))" "buffer_ok s1" "same_base s s1"
    "missing s1 = 0" "sources s1 = sources s @ [c_source c]"
    "d_a_requests s1 = d_a_requests s" "d_c_requests s1 = d_c_requests s"
    using respond_d_to_c_step [OF Cons.prems(1-5), of c rnd g] Cons.prems(7) p by auto
  let ?s = "s1\<lparr>d_c_requests := rs\<rparr>"
  have t: "parent ?s = parent s" "same_base s ?s" using s1 by (simp_all add: same_base_def)
  obtain g2 s2 where s2: "respond_loop sender_fifo d_c_requests (\<lambda>q s. s\<lparr>d_c_requests := q\<rparr>) respond_d_to_c (length rs)
      (g1, ?s) = (Inr True, (g2, s2))" "buffer_ok s2" "same_base ?s s2" "missing s2 = 0"
    "sources s2 = sources ?s @ map (\<lambda>p. c_source (snd p)) rs" "d_a_requests s2 = d_a_requests ?s" "d_c_requests s2 = []"
    using Cons.IH [of ?s g1] Cons.prems(3-5,7) s1 t by auto
  have "respond_loop sender_fifo d_c_requests (\<lambda>q s. s\<lparr>d_c_requests := q\<rparr>) respond_d_to_c (length (p # rs)) (g, s) =
      (Inr True, (g2, s2))"
    using s1(1,7) s2(1) Cons.prems(6) p by (simp add: prog_simps tryM_apply)
  moreover have "same_base s s2" using t(2) s2(3) by (simp add: same_base_def)
  ultimately show ?case using s2 s1 p by auto
qed

text \<open>
  C38: The sender of channel D answers all pending requests, in order. If the beats of each
  atomic operation follow each other and no request needs an identifier, \<open>respond\<close> fails no
  assertion, in random mode or not: every pending request of channel A is answered, one response
  for each message, and then every release, unless the last response waits for further beats;
  in that case the releases stay pending and the buffer is locked.
\<close>

theorem requests_answered_in_order:
  assumes "sender_ok lock_output_buffer (\<lambda>_. True) s" "contiguous w (missing s) (d_a_requests s)"
    and "\<forall>p \<in> set (d_c_requests s). c_opcode (snd p) = Release \<or> c_opcode (snd p) = ReleaseData"
    and "id_range (parent s) \<noteq> 0" "ep_bit_width (parent s) = 8 * w" "0 < w"
  shows "\<exists>g' s'. respond_d (g, s) = (Inr (), (g', s')) \<and> ids_in_use s' = ids_in_use s \<and> d_a_requests s' = [] \<and>
    d_c_requests s' = (if lock_output_buffer s' then d_c_requests s else []) \<and>
    (lock_output_buffer s' \<longleftrightarrow> missing s' > 0) \<and>
    sources s' = sources s @ started w (missing s) (d_a_requests s) @
      (if lock_output_buffer s' then [] else map (\<lambda>p. c_source (snd p)) (d_c_requests s))"
proof -
  have ok: "buffer_ok s" using assms(1) by (auto simp: buffer_ok_def sender_ok_def queue_ok_def)
  obtain g1 s1 where s1: "respond_loop sender_fifo d_a_requests (\<lambda>q s. s\<lparr>d_a_requests := q\<rparr>) respond_d_to_a
      (length (d_a_requests s)) (g, s) = (Inr True, (g1, s1))" "buffer_ok s1" "same_base s s1"
    "sources s1 = sources s @ started w (missing s) (d_a_requests s)" "d_a_requests s1 = []" "d_c_requests s1 = d_c_requests s"
    using respond_loop_a [OF ok assms(4-6) refl assms(2), of g] by blast
  show ?thesis
  proof (cases "lock_output_buffer s1")
    case True
    then have "respond_d (g, s) = (Inr (), (g1, s1))"
      using s1(1) by (simp add: respond_d_def respond_all_def prog_simps)
    then show ?thesis using True s1 buffer_ok_missing [OF s1(2)] by (auto simp: same_base_def)
  next
    case False
    have p: "parent s1 = parent s" and m: "missing s1 = 0"
      using s1(2,3) False buffer_ok_missing [OF s1(2)]
      by (auto simp: same_base_def missing_def buffer_ok_def msg_ok_def)
    obtain g2 s2 where s2: "respond_loop sender_fifo d_c_requests (\<lambda>q s. s\<lparr>d_c_requests := q\<rparr>) respond_d_to_c
        (length (d_c_requests s)) (g1, s1) = (Inr True, (g2, s2))" "buffer_ok s2" "same_base s1 s2" "missing s2 = 0"
      "sources s2 = sources s1 @ map (\<lambda>p. c_source (snd p)) (d_c_requests s)" "d_a_requests s2 = d_a_requests s1"
      "d_c_requests s2 = []"
      using respond_loop_c [OF s1(2) m _ _ assms(6) s1(6) assms(3), of g1] assms(4,5) p by auto
    have "respond_d (g, s) = (Inr (), (g2, s2))"
      using s1(1,6) s2(1) False by (simp add: respond_d_def respond_all_def prog_simps)
    then show ?thesis using s1 s2 buffer_ok_missing [OF s2(2)] by (auto simp: same_base_def)
  qed
qed

theorem requests_answered_in_order_witness:
  "\<exists>g' s'. respond_d (fixed_rng, example_d) = (Inr (), (g', s')) \<and> d_a_requests s' = [] \<and> sources s' = [2]"
proof -
  have "contiguous 8 (missing example_d) (d_a_requests example_d)" "d_a_requests example_d = [(False, example_put)]"
    "d_c_requests example_d = []" "id_range (parent example_d) \<noteq> 0" "ep_bit_width (parent example_d) = 8 * 8"
    "missing example_d = 0" "sources example_d = []"
    by (simp_all add: example_d_def new_sender_def sender.extend_def missing_def answerable_def example_put_def
        sources_def example_ep_def id_range_def)
  then show ?thesis
    using requests_answered_in_order [OF example_d_ok, of 8 fixed_rng] by (auto simp: example_put_def)
qed

text \<open>
  C39: The output buffer can be locked with an acquire at the front of the queue. If an acquire
  finds no free identifier, a component that need not keep the order puts it behind the beats
  of an atomic operation that have arrived so far. The response to these locks the buffer, and
  every later call of \<open>respond\<close> fails its assertion: the acquire now stands before any further
  beat \<open>q\<close> of the operation, whatever has become of the identifiers \<open>ids\<close> in the meantime.
\<close>

theorem acquire_blocks_atomic:
  assumes "\<not> ep_fifo (parent s)" "\<not> can_start_new_transaction s" "buffer_ok s" "\<not> lock_output_buffer s"
    and "d_a_requests s = [(ra, acquire), (rb, atomic)]" "a_opcode acquire = AcquireBlock \<or> a_opcode acquire = AcquirePerm"
    and "is_atomic (a_opcode atomic)" "answerable atomic" "id_range (parent s) \<noteq> 0"
    and "ep_bit_width (parent s) = 8 * w" "0 < w" "2 * w \<le> 2 ^ nat (a_size atomic)"
  shows "\<exists>g1 s1. respond_d (g, s) = (Inr (), (g1, s1)) \<and> lock_output_buffer s1 \<and> d_a_requests s1 = [(ra, acquire)] \<and>
    (\<forall>g2 q ids. let s2 = s1\<lparr>d_a_requests := d_a_requests s1 @ q, ids_in_use := ids\<rparr> in
      respond_d (g2, s2) = (Inl Assertion, (g2, s2)))"
proof -
  have w: "width_bytes (parent s) = w" using beat_counts(3) [OF assms(10,11), of 0] by simp
  have acquire: "\<not> is_atomic (a_opcode acquire)" using assms(6) by (auto simp: is_atomic_def)
  have throw: "respond_d_to_a (ra, acquire) (g, s) = (Inl (Throw NoAvailableIDException), (g, s))"
    using assms(2,4,6,11) w acquire
    by (auto simp: respond_d_to_a_def prog_simps message_d_of_a_def new_d_response_a_def get_transaction_id_def)
  let ?s = "s\<lparr>d_a_requests := [(rb, atomic), (ra, acquire)]\<rparr>"
  have "2 \<le> 2 ^ nat (a_size atomic) div w" using assms(11,12) zdiv_mono1 [OF assms(12,11)] by simp
  then have k: "missing_after w atomic > 0" using assms(7) by (simp add: missing_after_def)
  obtain g1 s1 where s1: "respond_d_to_a (rb, atomic) (g, ?s) = (Inr (), (g1, s1))" "buffer_ok s1" "missing s1 > 0"
    "d_a_requests s1 = d_a_requests ?s"
  proof -
    have "missing s \<le> 0" using assms(3,4) buffer_ok_missing by force
    then show ?thesis
      using respond_d_to_a_step [of ?s atomic w rb g] assms(3,7-11) k that by auto
  qed
  let ?s1 = "s1\<lparr>d_a_requests := [(ra, acquire)]\<rparr>"
  have lock: "lock_output_buffer s1" using s1(2,3) buffer_ok_missing by blast
  have first: "respond_d (g, s) = (Inr (), (g1, ?s1))"
    using throw s1(1,4) lock assms(1,5)
    by (simp add: respond_d_def respond_all_def prog_simps numeral_2_eq_2 tryM_apply sender_fifo_def)
  have "respond_d (g2, ?s1\<lparr>d_a_requests := (ra, acquire) # q, ids_in_use := ids\<rparr>) =
      (Inl Assertion, (g2, ?s1\<lparr>d_a_requests := (ra, acquire) # q, ids_in_use := ids\<rparr>))" for g2 q ids
    using lock acquire
    by (simp add: respond_d_def respond_all_def prog_simps tryM_apply respond_d_to_a_def)
  then show ?thesis using first lock by auto
qed

definition example_acquire :: tl_a where
  "example_acquire = example_put\<lparr>a_opcode := AcquireBlock\<rparr>"

definition example_atomic :: tl_a where
  "example_atomic = example_put\<lparr>a_opcode := ArithmeticData\<rparr>"

theorem acquire_blocks_atomic_witness:
  "\<exists>g1 s1. respond_d (fixed_rng, example_d\<lparr>ids_in_use := {0..3},
       d_a_requests := [(False, example_acquire), (False, example_atomic)]\<rparr>) = (Inr (), (g1, s1)) \<and>
     (let s2 = s1\<lparr>d_a_requests := d_a_requests s1 @ [(False, example_atomic)], ids_in_use := {}\<rparr> in
      respond_d (g1, s2) = (Inl Assertion, (g1, s2)))"
proof -
  let ?s = "example_d\<lparr>ids_in_use := {0..3}, d_a_requests := [(False, example_acquire), (False, example_atomic)]\<rparr>"
  have "\<not> ep_fifo (parent ?s)" "\<not> can_start_new_transaction ?s" "buffer_ok ?s" "\<not> lock_output_buffer ?s"
    "id_range (parent ?s) \<noteq> 0" "ep_bit_width (parent ?s) = 8 * 8"
    "answerable example_atomic" "is_atomic (a_opcode example_atomic)" "a_opcode example_acquire = AcquireBlock"
    "2 * 8 \<le> (2 :: int) ^ nat (a_size example_atomic)"
    by (simp_all add: example_d_def new_sender_def sender.extend_def example_ep_def id_range_def buffer_ok_def
        can_start_new_transaction_def unfinished_tail_def example_acquire_def example_atomic_def example_put_def
        answerable_def is_atomic_def)
  then show ?thesis
    using acquire_blocks_atomic [of ?s False example_acquire False example_atomic 8 fixed_rng]
    by (auto simp: Let_def)
qed

section \<open>Probes\<close>

definition probed :: "endpoint list \<Rightarrow> endpoint list" where
  "probed hosts = filter (\<lambda>h. ep_protocol h = TL_C) hosts"

definition probe_id :: "endpoint \<Rightarrow> tl_b tl_message \<Rightarrow> int" where
  "probe_id device m = get_b_id device (b_source (header m)) (b_address (header m))"

text \<open>A probe that goes to the given host.\<close>

definition probe_for :: "endpoint \<Rightarrow> u64 \<Rightarrow> endpoint \<Rightarrow> tl_b tl_message \<Rightarrow> bool" where
  "probe_for device address host m \<longleftrightarrow> b_address (header m) = address \<and>
     get_owner (ep_routing device) (b_source (header m)) = ep_position host"

lemma readonly_pending_probes: "readonly (pending_probes request hosts pending)"
  by (induction hosts arbitrary: request pending)
    (auto simp: Let_def intro!: readonly_intros)

lemma pending_probes_Some:
  assumes "pending_probes request hosts pending (g, s) = (Inr (Some ps), (g', s'))"
  shows "\<exists>qs. ps = pending @ qs \<and> list_all2 (probe_for (parent s) (b_address (header request))) (probed hosts) qs \<and>
    (\<forall>q \<in> set qs. probe_id (parent s) q \<notin> ids_in_use s)"
  using assms
proof (induction hosts arbitrary: request pending)
  case Nil
  then show ?case by (auto simp: prog_simps probed_def)
next
  case (Cons host hosts)
  show ?case
  proof (cases "ep_protocol host = TL_C")
    case False
    then show ?thesis using Cons by (simp add: probed_def)
  next
    case True
    then obtain source where source: "device_get_routing_id (parent s) (ep_position host) = Inr source"
      using Cons.prems by (auto simp: prog_simps split: sum.splits)
    let ?r = "request\<lparr>header := (header request)\<lparr>b_source := source\<rparr>\<rparr>"
    have free: "probe_id (parent s) ?r \<notin> ids_in_use s"
      and rest: "pending_probes ?r hosts (pending @ [?r]) (g, s) = (Inr (Some ps), (g', s'))"
      using Cons.prems True source
      by (auto simp: prog_simps probe_id_def transaction_id_available_def Let_def split: if_splits)
    obtain qs where "ps = pending @ [?r] @ qs"
      "list_all2 (probe_for (parent s) (b_address (header ?r))) (probed hosts) qs"
      "\<forall>q \<in> set qs. probe_id (parent s) q \<notin> ids_in_use s"
      using Cons.IH [OF rest] by auto
    moreover have "probe_for (parent s) (b_address (header request)) host ?r"
      using routing_id_owner [OF source] by (simp add: probe_for_def)
    ultimately show ?thesis using True free by (intro exI [of _ "?r # qs"]) (auto simp: probed_def)
  qed
qed

lemma probe_ids_distinct:
  assumes "list_all2 (probe_for device address) hosts qs" "distinct (map ep_position hosts)"
  shows "distinct (map (probe_id device) qs)"
proof -
  let ?id = "\<lambda>i. uint (address AND 0xFFF) + push_bit 16 i"
  have "map (probe_id device) qs = map (\<lambda>h. ?id (ep_position h)) hosts"
    using assms(1) by (induction rule: list_all2_induct) (auto simp: probe_id_def probe_for_def get_b_id_def)
  moreover have "inj_on ?id A" for A by (auto simp: inj_on_def push_bit_eq_mult)
  ultimately show ?thesis
    using assms(2) distinct_map [of ?id "map ep_position hosts"] by (simp add: comp_def)
qed

lemma send_probes_all:
  assumes "distinct (map (probe_id (parent s)) qs)" "\<forall>q \<in> set qs. probe_id (parent s) q \<notin> ids_in_use s"
  shows "send_probes qs (g, s) =
    (Inr (), (g, s\<lparr>to_send := to_send s @ qs, ids_in_use := ids_in_use s \<union> probe_id (parent s) ` set qs\<rparr>))"
  using assms
proof (induction qs arbitrary: s)
  case Nil
  then show ?case by (simp add: prog_simps)
next
  case (Cons q qs)
  let ?s = "s\<lparr>to_send := to_send s @ [q], ids_in_use := insert (probe_id (parent s) q) (ids_in_use s)\<rparr>"
  have "send_probes (q # qs) (g, s) = send_probes qs (g, ?s)"
    using Cons.prems
    by (simp add: prog_simps push_message_def start_transaction_def transaction_id_available_def probe_id_def)
  moreover have "\<forall>p \<in> set qs. probe_id (parent ?s) p \<notin> ids_in_use ?s" using Cons.prems by (auto simp: image_iff)
  ultimately show ?case using Cons.IH [of ?s] Cons.prems by (simp add: Un_commute)
qed

lemma message_b_readonly: "readonly (message_b net rnd u)"
  unfolding message_b_def sized_message_def Let_def by (intro readonly_intros)

lemma readonly_keeps: "readonly m \<Longrightarrow> m (g, s) = (r, (g', s')) \<Longrightarrow> s' = s"
  unfolding readonly_def by (metis snd_conv)

text \<open>
  C40: New probes are all or nothing. Whatever \<open>queue_request\<close> of channel B returns, either the
  sender is unchanged, or exactly one probe for each coherent host has been queued, in the order
  of the hosts, each with an identifier that was free, and these identifiers, all different, are
  in use now.
\<close>

theorem probes_all_or_nothing:
  assumes "distinct (map ep_position (probed (net_hosts net)))"
    and "queue_request_b net rnd u (g, s) = (r, (g', s'))"
  shows "s' = s \<or> r = Inr () \<and> (\<exists>address qs. list_all2 (probe_for (parent s) address) (probed (net_hosts net)) qs \<and>
    distinct (map (probe_id (parent s)) qs) \<and> probe_id (parent s) ` set qs \<inter> ids_in_use s = {} \<and>
    s' = s\<lparr>to_send := to_send s @ qs, ids_in_use := ids_in_use s \<union> probe_id (parent s) ` set qs\<rparr>)"
proof -
  obtain rm gm sm where m: "message_b net rnd u (g, s) = (rm, (gm, sm))" by (metis prod_cases3)
  have sm: "sm = s" by (rule readonly_keeps [OF message_b_readonly m])
  show ?thesis
  proof (cases "(ep_protocol (parent s) = TL_C \<and> can_start_new_transaction s) \<and> \<not> isl rm")
    case False
    then show ?thesis using assms(2) m sm by (cases rm) (auto simp: queue_request_b_def prog_simps split: if_splits)
  next
    case True
    then obtain request where rm: "rm = Inr request" by (cases rm) auto
    obtain rp gp sp where p: "pending_probes request (net_hosts net) [] (gm, s) = (rp, (gp, sp))" by (metis prod_cases3)
    have sp: "sp = s" by (rule readonly_keeps [OF readonly_pending_probes p])
    show ?thesis
    proof (cases "\<exists>qs. rp = Inr (Some qs)")
      case False
      then show ?thesis
        using assms(2) m sm rm p sp True
        by (cases rp) (auto simp: queue_request_b_def prog_simps split: if_splits option.splits)
    next
      case some: True
      then obtain qs where rp: "rp = Inr (Some qs)" by blast
      have qs: "list_all2 (probe_for (parent s) (b_address (header request))) (probed (net_hosts net)) qs"
        "\<forall>q \<in> set qs. probe_id (parent s) q \<notin> ids_in_use s"
        using pending_probes_Some p rp by fastforce+
      note d = probe_ids_distinct [OF qs(1) assms(1)]
      have "queue_request_b net rnd u (g, s) = send_probes qs (gp, s)"
        using m sm rm p sp rp True by (simp add: queue_request_b_def prog_simps)
      then show ?thesis using assms(2) send_probes_all [OF d qs(2), of gp] qs d by auto
    qed
  qed
qed

definition example_hosts :: "endpoint list" where
  "example_hosts = [example_ep, example_ep\<lparr>ep_position := 1\<rparr>]"

definition example_net :: network where
  "example_net = \<lparr>net_hosts = example_hosts, net_devices = [example_ep], net_garbage = 0\<rparr>"

definition example_b :: sender_b where
  "example_b = sender.extend (new_sender (example_ep\<lparr>ep_routing := \<lparr>rt_base = [0, 4], rt_mask = [3, 3], rt_target = [0, 1]\<rparr>\<rparr>)
     (idle_wires \<lparr>b_opcode = ProbeBlock, b_param = 0, b_size = 0, b_source = 0, b_address = 0\<rparr>)) \<lparr>b_a_requests = []\<rparr>"

lemma any_id_loop_numeral:
  "any_id_loop rt link (numeral n) i = (if get_owner rt i = link then Inr i else any_id_loop rt link (pred_numeral n) (i + 1))"
  by (simp add: numeral_eq_Suc)

lemma example_b_routing:
  "device_get_routing_id (parent example_b) 0 = Inr 0" "device_get_routing_id (parent example_b) 1 = Inr 4"
  by (simp_all add: example_b_def sender.extend_def new_sender_def device_get_routing_id_def get_any_id_def
      any_id_loop_numeral get_owner_def)

lemma example_b_fields:
  "beat_size (parent example_b) = Inr 3" "width_bytes (parent example_b) = 8" "ep_position (parent example_b) = 0"
  "ep_protocol (parent example_b) = TL_C" "can_start_new_transaction example_b" "ids_in_use example_b = {}" "to_send example_b = []"
  by (simp_all add: example_b_def sender.extend_def new_sender_def example_ep_def beat_size_def bits_to_size_def
      ilog2.simps width_bytes_def can_start_new_transaction_def id_range_def)

lemma example_hosts_fields:
  "length example_hosts = 2" "ep_position (example_hosts ! 0) = 0" "ep_protocol (example_hosts ! 0) = TL_C"
  "probed example_hosts = example_hosts" "map ep_position example_hosts = [0, 1]" "example_hosts \<noteq> []"
  by (simp_all add: example_hosts_def example_ep_def probed_def)

lemma example_message_b:
  "message_b example_net False Map.empty (fixed_rng, example_b) =
     (Inr \<lparr>channel_width_bytes = 8, beats_to_send = 1, beats_ready = 1, beats_generated = 0,
        header = \<lparr>b_opcode = ProbeBlock, b_param = 0, b_size = 3, b_source = 0, b_address = 0x3000\<rparr>\<rparr>,
      (fixed_rng\<lparr>rand_next := 1\<rparr>, example_b))"
proof -
  have "random_endpoint 10 example_hosts TL_C fixed_rng = (Inr (example_hosts ! 0), fixed_rng\<lparr>rand_next := 1\<rparr>)"
    using example_hosts_fields by (simp add: numeral_eq_Suc prog_simps rand_def fixed_rng_def)
  then have host: "random_host example_net TL_C fixed_rng = (Inr (example_hosts ! 0), fixed_rng\<lparr>rand_next := 1\<rparr>)"
    by (simp add: random_host_def example_net_def prog_simps fixed_rng_def)
  have "next_b_address 10 3 0 0x3000 (g, example_b) = (Inr 0x3000, (g, example_b))" for g
    by (simp add: numeral_eq_Suc prog_simps transaction_id_available_def example_b_fields)
  then show ?thesis
    using host example_hosts_fields(2) example_b_routing example_b_fields
    by (simp add: message_b_def prog_simps new_b_request_def get_address_def sized_message_def modify_b_def
        update_field_def num_beats_b_def payload_beats_def fixed_rng_def)
qed

lemma example_pending:
  "\<exists>ps. pending_probes m example_hosts [] (g, example_b) = (Inr (Some ps), (g, example_b)) \<and> ps \<noteq> []"
proof -
  have "ep_protocol example_ep = TL_C" "ep_position example_ep = 0" by (simp_all add: example_ep_def)
  then show ?thesis
    using example_b_routing
    by (simp add: example_hosts_def prog_simps transaction_id_available_def example_b_fields Let_def)
qed

theorem probes_all_or_nothing_witness:
  "length (to_send (snd (snd (queue_request_b example_net False Map.empty (fixed_rng, example_b))))) = 2"
proof -
  obtain r g' s' where run: "queue_request_b example_net False Map.empty (fixed_rng, example_b) = (r, (g', s'))"
    by (metis prod_cases3)
  have net: "net_hosts example_net = example_hosts" by (simp add: example_net_def)
  have dist: "distinct (map ep_position (probed (net_hosts example_net)))"
    unfolding net example_hosts_fields by simp
  obtain m g1 ps where m: "message_b example_net False Map.empty (fixed_rng, example_b) = (Inr m, (g1, example_b))"
    and ps: "pending_probes m example_hosts [] (g1, example_b) = (Inr (Some ps), (g1, example_b))" "ps \<noteq> []"
    using example_message_b example_pending by blast
  have "distinct (map (probe_id (parent example_b)) ps)"
    using pending_probes_Some [OF ps(1)] probe_ids_distinct dist unfolding net by fastforce
  then have "to_send s' = ps"
    using run m ps(1) send_probes_all [of example_b ps g1]
    by (auto simp: queue_request_b_def prog_simps example_b_fields net)
  then have "s' \<noteq> example_b" using ps(2) example_b_fields by auto
  then show ?thesis
    using probes_all_or_nothing [OF dist run] list_all2_lengthD
    unfolding run net example_hosts_fields(4) by (fastforce simp: example_b_fields example_hosts_fields)
qed

text \<open>
  The response to an acquire is not: if the identifier of a later probe is in use, the probes
  before it stay in the queue although the request is tried again as a whole.
\<close>

lemma probe_response_partial:
  assumes "ep_protocol h1 = TL_C" "ep_protocol h2 = TL_C"
    and "device_get_routing_id (parent s) (ep_position h1) = Inr i" "device_get_routing_id (parent s) (ep_position h2) = Inr j"
    and "get_b_id (parent s) i (b_address (header m)) \<notin> ids_in_use s" "get_b_id (parent s) j (b_address (header m)) \<in> ids_in_use s"
  shows "probe_hosts m (h1 # h2 # hs) (g, s) = (Inl (Throw NoAvailableIDException),
    (g, s\<lparr>to_send := to_send s @ [m\<lparr>header := (header m)\<lparr>b_source := i\<rparr>\<rparr>],
      ids_in_use := insert (get_b_id (parent s) i (b_address (header m))) (ids_in_use s)\<rparr>))"
  using assms
  by (simp add: prog_simps Let_def push_message_def start_transaction_def transaction_id_available_def)

end
