(* ===== verification/TL_Config.thy ===== *)
theory TL_Config
  imports TL_Endpoints Number_Parsing
begin

text \<open>
  Configuration files of the TileLink test bench (\<open>tl_config.h\<close>, \<open>tl_config.cc\<close>): a small
  subset of YAML that lists hosts and devices with their parameters. A file is its text; the
  file system is a parameter.
\<close>

section \<open>Data\<close>

record tl_endpoint_config_t =
  cf_protocol :: tl_protocol_e
  cf_data_width :: int
  cf_first_id :: int
  cf_last_id :: int
  cf_max_size :: int
  cf_fifo :: bool
  cf_can_deny :: bool
  cf_bases :: "int list"
  cf_masks :: "int list"
  cf_targets :: "int list"

record tl_config_t =
  cf_hosts :: "tl_endpoint_config_t list"
  cf_devices :: "tl_endpoint_config_t list"

definition new_endpoint :: "int \<Rightarrow> tl_endpoint_config_t \<Rightarrow> failure + endpoint" where
  "new_endpoint position params =
     bind_sum (new_RoutingTable (cf_bases params) (cf_masks params) (cf_targets params)) (\<lambda>rt.
       Inr \<lparr>ep_position = position, ep_protocol = cf_protocol params, ep_bit_width = cf_data_width params,
         ep_first_id = cf_first_id params, ep_last_id = cf_last_id params, ep_max_size = cf_max_size params,
         ep_fifo = cf_fifo params, ep_can_deny = cf_can_deny params, ep_routing = rt\<rparr>)"

section \<open>Lines\<close>

definition remove_comments :: "string \<Rightarrow> string" where
  "remove_comments line = takeWhile (\<lambda>c. c \<noteq> CHR ''#'') line"

text \<open>The six characters of the C++ literal: blank, tab, newline, return, form feed, vertical tab.\<close>

definition whitespace :: "char \<Rightarrow> bool" where
  "whitespace c \<longleftrightarrow> of_char c \<in> {32, 9, 10, 13, 12, 11 :: nat}"

definition strip_whitespace :: "string \<Rightarrow> string" where
  "strip_whitespace line =
     (let line1 = (if \<exists>c \<in> set line. \<not> whitespace c then rev (dropWhile whitespace (rev line)) else line) in
      if \<exists>c \<in> set line1. \<not> whitespace c then dropWhile whitespace line1 else [])"

definition is_empty :: "string \<Rightarrow> bool" where
  "is_empty line \<longleftrightarrow> strip_whitespace (remove_comments line) = []"

definition ends_with :: "string \<Rightarrow> string \<Rightarrow> bool" where
  "ends_with str suffix \<longleftrightarrow>
     length suffix \<le> length str \<and> drop (length str - length suffix) str = suffix"

text \<open>
  \<open>getline\<close> with a delimiter: the pieces of a text between delimiters. The last piece is
  dropped if it is empty, since the stream is at its end then.
\<close>

fun split_at :: "char \<Rightarrow> string \<Rightarrow> string \<Rightarrow> string list" where
  "split_at d [] piece = [piece]"
| "split_at d (c # cs) piece = (if c = d then piece # split_at d cs [] else split_at d cs (piece @ [c]))"

definition getlines :: "char \<Rightarrow> string \<Rightarrow> string list" where
  "getlines d t = (let ps = split_at d t [] in if last ps = [] then butlast ps else ps)"

fun parse_tokens :: "string list \<Rightarrow> failure + int list" where
  "parse_tokens [] = Inr []"
| "parse_tokens (token # tokens) =
     (if token = [] then parse_tokens tokens
      else bind_sum (stoi token) (\<lambda>i. bind_sum (parse_tokens tokens) (\<lambda>is. Inr (i # is))))"

definition parse_int_list :: "string \<Rightarrow> failure + int list" where
  "parse_int_list line = parse_tokens (getlines (CHR '' '') line)"

text \<open>Lists of numbers written with single blanks are read back.\<close>

fun join_ints :: "int list \<Rightarrow> string" where
  "join_ints [] = []"
| "join_ints [i] = decimal_int i"
| "join_ints (i # is) = decimal_int i @ CHR '' '' # join_ints is"

lemma split_at_none: "d \<notin> set xs \<Longrightarrow> split_at d xs piece = [piece @ xs]"
  by (induction xs arbitrary: piece) auto

lemma split_at_first: "d \<notin> set xs \<Longrightarrow> split_at d (xs @ d # ys) piece = (piece @ xs) # split_at d ys []"
  by (induction xs arbitrary: piece) auto

lemma decimal_int_word: "CHR '' '' \<notin> set (decimal_int i)" "decimal_int i \<noteq> []"
proof -
  have "CHR '' '' \<notin> set (decimal n)" for n
    using bspec [OF decimal_digits [of n], of "CHR '' ''"] by (auto simp: is_digit_def)
  then show "CHR '' '' \<notin> set (decimal_int i)" by (simp add: decimal_int_def)
  show "decimal_int i \<noteq> []" by (simp add: decimal_int_def decimal_not_Nil)
qed

lemma split_join_ints: "is \<noteq> [] \<Longrightarrow> split_at (CHR '' '') (join_ints is) [] = map decimal_int is"
  by (induction "is" rule: join_ints.induct) (simp_all add: split_at_none split_at_first decimal_int_word)

lemma parse_int_list_join:
  assumes "\<forall>i \<in> set is. - (2 ^ 31) \<le> i \<and> i < 2 ^ 31"
  shows "parse_int_list (join_ints is) = Inr is"
proof -
  have tokens: "parse_tokens (map decimal_int is) = Inr is"
    using assms by (induction "is") (simp_all add: decimal_int_word stoi_decimal_int bind_sum_def)
  show ?thesis
  proof (cases "is = []")
    case False
    then have "last (map decimal_int is) \<noteq> []" by (simp add: last_map decimal_int_word)
    then show ?thesis using tokens split_join_ints [OF False] by (simp add: parse_int_list_def getlines_def Let_def)
  qed (simp add: parse_int_list_def getlines_def)
qed

section \<open>Components\<close>

definition parse_protocol :: "string \<Rightarrow> failure + tl_protocol_e" where
  "parse_protocol value =
     (if value = ''TL-C'' then Inr TL_C
      else if value = ''TL-C-ROM-TERM'' then Inr TL_C_ROM_TERM
      else if value = ''TL-C-IO-TERM'' then Inr TL_C_IO_TERM
      else if value = ''TL-UH'' then Inr TL_UH
      else if value = ''TL-UL'' then Inr TL_UL
      else Inl (Exit 1))"

definition set_parameter ::
  "string \<Rightarrow> string \<Rightarrow> tl_endpoint_config_t \<Rightarrow> failure + tl_endpoint_config_t" where
  "set_parameter name value c =
     (if name = ''Protocol'' then bind_sum (parse_protocol value) (\<lambda>p. Inr (c\<lparr>cf_protocol := p\<rparr>))
      else if name = ''DataWidth'' then bind_sum (stoi value) (\<lambda>i. Inr (c\<lparr>cf_data_width := i\<rparr>))
      else if name = ''FirstID'' then bind_sum (stoi value) (\<lambda>i. Inr (c\<lparr>cf_first_id := i\<rparr>))
      else if name = ''LastID'' then bind_sum (stoi value) (\<lambda>i. Inr (c\<lparr>cf_last_id := i\<rparr>))
      else if name = ''MaxSize'' then bind_sum (stoi value) (\<lambda>i. Inr (c\<lparr>cf_max_size := i\<rparr>))
      else if name = ''Fifo'' then bind_sum (stoi value) (\<lambda>i. Inr (c\<lparr>cf_fifo := (i \<noteq> 0)\<rparr>))
      else if name = ''CanDeny'' then bind_sum (stoi value) (\<lambda>i. Inr (c\<lparr>cf_can_deny := (i \<noteq> 0)\<rparr>))
      else if ends_with name ''Base'' then bind_sum (parse_int_list value) (\<lambda>is. Inr (c\<lparr>cf_bases := is\<rparr>))
      else if ends_with name ''Mask'' then bind_sum (parse_int_list value) (\<lambda>is. Inr (c\<lparr>cf_masks := is\<rparr>))
      else if ends_with name ''Target'' then bind_sum (parse_int_list value) (\<lambda>is. Inr (c\<lparr>cf_targets := is\<rparr>))
      else Inr c)"

text \<open>\<open>u\<close> holds the members that the lines do not set.\<close>

fun parse_parameters :: "string list \<Rightarrow> tl_endpoint_config_t \<Rightarrow> failure + tl_endpoint_config_t" where
  "parse_parameters [] c = Inr c"
| "parse_parameters (line # data) c =
     (if CHR '':'' \<notin> set line then Inl (Exit 1)
      else
        let name = strip_whitespace (takeWhile (\<lambda>x. x \<noteq> CHR '':'') line);
            value = strip_whitespace (remove_comments (tl (dropWhile (\<lambda>x. x \<noteq> CHR '':'') line))) in
        bind_sum (set_parameter name value c) (parse_parameters data))"

definition add_component ::
  "tl_endpoint_config_t \<Rightarrow> tl_config_t \<Rightarrow> string \<Rightarrow> string list \<Rightarrow> failure + tl_config_t" where
  "add_component u config type data =
     (if data = [] then Inr config
      else if type = [] then Inl Assertion
      else bind_sum (parse_parameters data (u\<lparr>cf_bases := [], cf_masks := [], cf_targets := []\<rparr>)) (\<lambda>endpoint.
        if type = ''host'' then Inr (config\<lparr>cf_hosts := cf_hosts config @ [endpoint]\<rparr>)
        else if type = ''device'' then Inr (config\<lparr>cf_devices := cf_devices config @ [endpoint]\<rparr>)
        else Inl Assertion))"

section \<open>Files\<close>

fun config_loop ::
  "tl_endpoint_config_t \<Rightarrow> string list \<Rightarrow> tl_config_t \<Rightarrow> string \<Rightarrow> string list \<Rightarrow> failure + tl_config_t" where
  "config_loop u [] config section' component = add_component u config section' component"
| "config_loop u (line # lines) config section' component =
     (if is_empty line then config_loop u lines config section' component
      else if take 6 line = ''hosts:'' then
        bind_sum (add_component u config section' component) (\<lambda>config'. config_loop u lines config' ''host'' [])
      else if take 8 line = ''devices:'' then
        bind_sum (add_component u config section' component) (\<lambda>config'. config_loop u lines config' ''device'' [])
      else
        let line' = strip_whitespace line in
        if line' \<noteq> [] \<and> hd line' = CHR ''-'' then
          bind_sum (add_component u config section' component) (\<lambda>config'.
            config_loop u lines config' section' [tl line'])
        else config_loop u lines config section' (component @ [line']))"

definition read_config ::
  "(string \<rightharpoonup> string) \<Rightarrow> tl_endpoint_config_t \<Rightarrow> string \<Rightarrow> failure + tl_config_t" where
  "read_config fs u filename =
     (case fs filename of
        None \<Rightarrow> Inl (Exit 1)
      | Some text \<Rightarrow> config_loop u (split_at (CHR 0x0A) text []) \<lparr>cf_hosts = [], cf_devices = []\<rparr> [] [])"

end
