(* ===== verification/TL_Harness.thy ===== *)
theory TL_Harness
  imports TL_Devices TL_Config Simulation
begin

text \<open>
  The TileLink test bench (\<open>tl_harness.h\<close>, \<open>tl_main.cc\<close>): hosts and devices around the network
  under test, the clock, the selection of tests and random traffic. The network is the function
  \<open>eval\<close> on the whole state, since Verilator generates it: it can read what the channel ends
  drive and change what they see. Tests are programs of the state.
\<close>

section \<open>State\<close>

text \<open>\<open>tl_base\<close> holds the members that are inherited from \<open>Simulation\<close>, apart from the design.\<close>

record 'd tl_sim =
  tl_base :: "(unit, unit) sim"
  tl_rng :: rng
  tl_hosts :: "tl_host list"
  tl_devices :: "tl_device list"
  tl_dut :: 'd
  tl_clk :: bool
  tl_rst_n :: bool
  tl_randomise :: bool
  tl_duration :: int
  tl_tests_to_run :: "nat list"
  tl_config_file :: string
  tl_garbage :: u64

type_synonym 'd eval = "'d tl_sim \<Rightarrow> 'd tl_sim"

definition network_of :: "('d, 'z) tl_sim_scheme \<Rightarrow> network" where
  "network_of s =
     \<lparr>net_hosts = map h_endpoint (tl_hosts s), net_devices = map v_endpoint (tl_devices s),
      net_garbage = tl_garbage s\<rparr>"

definition tilelink_args :: "string \<Rightarrow> ArgumentParser \<Rightarrow> ArgumentParser" where
  "tilelink_args name args =
     add_argument ''--run'' ''Generate random traffic for the given duration (in cycles)'' ARGS_ONE
     (add_argument ''--random-seed'' ''Set the random seed'' ARGS_ONE
     (add_argument ''--config'' ''Load host/device configuration from a file'' ARGS_ONE
     (add_argument ''--list-tests'' ''List all available tests'' ARGS_NONE
     (set_description (''Usage: '' @ name @ '' [simulator args] [tests to run]'') args))))"

text \<open>Members without an initialiser start with the values of the parameter \<open>u\<close>.\<close>

definition new_tl_simulation :: "string \<Rightarrow> 'd tl_sim \<Rightarrow> 'd tl_sim" where
  "new_tl_simulation name u =
     u\<lparr>tl_base := (new_Simulation name (tl_base u))\<lparr>sim_args := tilelink_args name (base_args (sim_build (tl_base u)))\<rparr>,
       tl_duration := 0, tl_randomise := False, tl_tests_to_run := [],
       tl_config_file := ''configs/default/config.yaml'', tl_hosts := [], tl_devices := []\<rparr>"

section \<open>Command line\<close>

definition on_base :: "((unit, unit) sim, 'a) prog \<Rightarrow> ('d tl_sim, 'a) prog" where
  "on_base = zoom tl_base (\<lambda>b s. s\<lparr>tl_base := b\<rparr>)"

definition tl_when_arg :: "string \<Rightarrow> (string \<Rightarrow> ('d tl_sim, unit) prog) \<Rightarrow> ('d tl_sim, unit) prog" where
  "tl_when_arg name m =
     bindM (gets (\<lambda>s. found_arg name (sim_args (tl_base s)))) (\<lambda>found.
     if found then bindM (on_base (arg_value name)) m else ret ())"

fun list_tests :: "nat \<Rightarrow> string list \<Rightarrow> string" where
  "list_tests i [] = []"
| "list_tests i (d # ds) =
     CHR 0x09 # decimal i @ [CHR 0x09] @ d @ newline @ list_tests (i + 1) ds"

text \<open>\<open>test < tests.size()\<close> compares unsigned values, so that a negative number is too large.\<close>

fun select_tests :: "nat \<Rightarrow> string list \<Rightarrow> ('d tl_sim, unit) prog" where
  "select_tests n [] = ret ()"
| "select_tests n (arg # argv) =
     bindM (of_sum (atoi arg)) (\<lambda>t.
     bindM (assertM (0 \<le> t \<and> t < int n)) (\<lambda>_.
     bindM (modify (\<lambda>s. s\<lparr>tl_tests_to_run := tl_tests_to_run s @ [nat t]\<rparr>)) (\<lambda>_.
     select_tests n argv)))"

text \<open>\<open>seeded i\<close> is the sequence of random values after \<open>srand(i)\<close>.\<close>

definition tl_parse_args ::
  "string list \<Rightarrow> (int \<Rightarrow> nat \<Rightarrow> nat) \<Rightarrow> string list \<Rightarrow> ('d tl_sim, unit) prog" where
  "tl_parse_args descriptions seeded argv =
     (if argv = [] then
        bindM (gets (\<lambda>s. print_help (sim_args (tl_base s)))) (\<lambda>t.
        bindM (on_base (print_to_stdout t)) (\<lambda>_. fail (Exit 0)))
      else
        bindM (on_base (Simulation_parse_args argv)) (\<lambda>_.
        bindM (gets (\<lambda>s. found_arg ''--list-tests'' (sim_args (tl_base s)))) (\<lambda>listing.
        bindM (if listing then bindM (on_base (print_to_stdout (list_tests 0 descriptions))) (\<lambda>_. fail (Exit 0))
               else ret ()) (\<lambda>_.
        bindM (tl_when_arg ''--config'' (\<lambda>v. modify (\<lambda>s. s\<lparr>tl_config_file := v\<rparr>))) (\<lambda>_.
        bindM (tl_when_arg ''--random-seed'' (\<lambda>v. bindM (of_sum (stoi v)) (\<lambda>i.
          modify (\<lambda>s. s\<lparr>tl_rng := (tl_rng s)\<lparr>rand_values := seeded i, rand_next := 0\<rparr>\<rparr>)))) (\<lambda>_.
        bindM (tl_when_arg ''--run'' (\<lambda>v. bindM (of_sum (stoi v)) (\<lambda>i.
          modify (\<lambda>s. s\<lparr>tl_duration := i\<rparr>)))) (\<lambda>_.
        bindM (gets (\<lambda>s. get_args_parsed (sim_args (tl_base s)))) (\<lambda>pos.
        select_tests (length descriptions) (drop pos argv)))))))))"

lemma atoi_decimal: "int t < 2 ^ 31 \<Longrightarrow> atoi (decimal t) = Inr (int t)"
  using stoi_decimal_int [of "int t"] by (simp add: atoi_def decimal_int_def)

text \<open>Test numbers on the command line select exactly these tests, in order.\<close>

lemma select_tests_decimal:
  assumes "\<forall>t \<in> set ts. t < n" "int n \<le> 2 ^ 31"
  shows "select_tests n (map decimal ts) s = (Inr (), s\<lparr>tl_tests_to_run := tl_tests_to_run s @ ts\<rparr>)"
  using assms
proof (induction ts arbitrary: s)
  case (Cons t ts)
  then have "atoi (decimal t) = Inr (int t)" by (intro atoi_decimal) auto
  then show ?case using Cons by (simp add: prog_simps)
qed (simp add: prog_simps)

section \<open>Clock\<close>

text \<open>Run a program of each component in turn.\<close>

fun each :: "nat \<Rightarrow> ('d tl_sim \<Rightarrow> 'e list) \<Rightarrow> ('e list \<Rightarrow> 'd tl_sim \<Rightarrow> 'd tl_sim) \<Rightarrow> ('e, unit) tl \<Rightarrow>
    nat \<Rightarrow> ('d tl_sim, unit) prog" where
  "each 0 get put m i = ret ()"
| "each (Suc n) get put m i =
     bindM (\<lambda>s. case m (tl_rng s, get s ! i) of
       (r, (g, e)) \<Rightarrow> (r, put ((get s)[i := e]) (s\<lparr>tl_rng := g\<rparr>))) (\<lambda>_.
     each n get put m (i + 1))"

definition each_host :: "(tl_host, unit) tl \<Rightarrow> ('d tl_sim, unit) prog" where
  "each_host m = bindM (gets (\<lambda>s. length (tl_hosts s))) (\<lambda>n.
     each n tl_hosts (\<lambda>hs s. s\<lparr>tl_hosts := hs\<rparr>) m 0)"

definition each_device :: "(tl_device, unit) tl \<Rightarrow> ('d tl_sim, unit) prog" where
  "each_device m = bindM (gets (\<lambda>s. length (tl_devices s))) (\<lambda>n.
     each n tl_devices (\<lambda>vs s. s\<lparr>tl_devices := vs\<rparr>) m 0)"

definition tl_set_flow_control :: "('d tl_sim, unit) prog" where
  "tl_set_flow_control =
     bindM (each_host (change host_set_flow_control)) (\<lambda>_. each_device (change device_set_flow_control))"

definition tl_set_outputs :: "('d tl_sim, unit) prog" where
  "tl_set_outputs =
     bindM (gets (\<lambda>s. (network_of s, tl_randomise s))) (\<lambda>(net, randomise).
     bindM (each_host (host_set_outputs net randomise)) (\<lambda>_.
     each_device (device_set_outputs net randomise)))"

definition tl_get_inputs :: "('d tl_sim, unit) prog" where
  "tl_get_inputs =
     bindM (gets tl_randomise) (\<lambda>randomise.
     bindM (each_host (host_get_inputs randomise)) (\<lambda>_. each_device (device_get_inputs randomise)))"

definition tl_first_half :: "'d eval \<Rightarrow> ('d tl_sim, unit) prog" where
  "tl_first_half eval = bindM (modify eval) (\<lambda>_. bindM tl_set_flow_control (\<lambda>_. tl_set_outputs))"

definition tl_second_half :: "'d eval \<Rightarrow> ('d tl_sim, unit) prog" where
  "tl_second_half eval = bindM (modify eval) (\<lambda>_. tl_get_inputs)"

text \<open>The traces are those of the base class, which no method overrides.\<close>

definition next_cycle :: "'d eval \<Rightarrow> ('d tl_sim, unit) prog" where
  "next_cycle eval =
     bindM (modify (\<lambda>s. s\<lparr>tl_clk := True\<rparr>)) (\<lambda>_.
     bindM (tl_first_half eval) (\<lambda>_.
     bindM (on_base Simulation_trace_state_change) (\<lambda>_.
     bindM (on_base advance) (\<lambda>_.
     bindM (modify (\<lambda>s. s\<lparr>tl_clk := False\<rparr>)) (\<lambda>_.
     bindM (tl_second_half eval) (\<lambda>_.
     bindM (on_base Simulation_trace_state_change) (\<lambda>_.
     on_base advance)))))))"

fun cycles :: "'d eval \<Rightarrow> nat \<Rightarrow> ('d tl_sim, unit) prog" where
  "cycles eval 0 = ret ()"
| "cycles eval (Suc n) = bindM (next_cycle eval) (\<lambda>_. cycles eval n)"

definition tl_run :: "'d eval \<Rightarrow> bool \<Rightarrow> int \<Rightarrow> int \<Rightarrow> ('d tl_sim, unit) prog" where
  "tl_run eval random duration drain =
     bindM (modify (\<lambda>s. s\<lparr>tl_randomise := random\<rparr>)) (\<lambda>_.
     bindM (cycles eval (nat duration)) (\<lambda>_.
     bindM (modify (\<lambda>s. s\<lparr>tl_randomise := False\<rparr>)) (\<lambda>_.
     cycles eval (nat drain))))"

text \<open>
  The waits of the directed tests, for a sender or a receiver somewhere in the simulation: cycles
  pass until the condition holds, but not more than the timeout.
\<close>

fun await_loop :: "'d eval \<Rightarrow> ('d tl_sim \<Rightarrow> bool) \<Rightarrow> nat \<Rightarrow> ('d tl_sim, unit) prog" where
  "await_loop eval ok 0 = ret ()"
| "await_loop eval ok (Suc n) =
     bindM (gets ok) (\<lambda>done. if done then ret () else bindM (next_cycle eval) (\<lambda>_. await_loop eval ok n))"

definition await_ready :: "'d eval \<Rightarrow> int \<Rightarrow> ('d tl_sim \<Rightarrow> ('c, 'z) sender_scheme) \<Rightarrow> ('d tl_sim, unit) prog" where
  "await_ready eval limit sender =
     bindM (await_loop eval (\<lambda>s. get_ready (sender s)) (nat limit)) (\<lambda>_.
     bindM (gets (\<lambda>s. get_ready (sender s))) assertM)"

definition await ::
  "'d eval \<Rightarrow> int \<Rightarrow> ('d tl_sim \<Rightarrow> 'c receiver) \<Rightarrow> ('c receiver \<Rightarrow> 'd tl_sim \<Rightarrow> 'd tl_sim) \<Rightarrow> ('d tl_sim, 'c) prog" where
  "await eval limit get put =
     bindM (await_loop eval (\<lambda>s. wire_valid (r_channel (get s))) (nat limit)) (\<lambda>_.
     bindM (gets (\<lambda>s. wire_valid (r_channel (get s)))) (\<lambda>valid.
     bindM (assertM valid) (\<lambda>_.
     bindM (modify (\<lambda>s. put ((get s)\<lparr>recv_ready := True\<rparr>) s)) (\<lambda>_.
     gets (\<lambda>s. wire_data (r_channel (get s)))))))"

section \<open>Set-up and tests\<close>

fun new_endpoints :: "int \<Rightarrow> tl_endpoint_config_t list \<Rightarrow> failure + endpoint list" where
  "new_endpoints i [] = Inr []"
| "new_endpoints i (p # ps) =
     bind_sum (new_endpoint i p) (\<lambda>e. bind_sum (new_endpoints (i + 1) ps) (\<lambda>es. Inr (e # es)))"

text \<open>
  \<open>make_host\<close> and \<open>make_device\<close> are \<open>new_host\<close> and \<open>new_device\<close> on the signals of the network that
  belong to the position.
\<close>

definition tl_init ::
  "(string \<rightharpoonup> string) \<Rightarrow> tl_endpoint_config_t \<Rightarrow> (endpoint \<Rightarrow> tl_host) \<Rightarrow> (endpoint \<Rightarrow> tl_device) \<Rightarrow>
     ('d tl_sim, unit) prog" where
  "tl_init fs u make_host make_device =
     bindM (gets (\<lambda>s. read_config fs u (tl_config_file s))) (\<lambda>c.
     bindM (of_sum c) (\<lambda>config.
     bindM (of_sum (new_endpoints 0 (cf_hosts config))) (\<lambda>hosts.
     bindM (modify (\<lambda>s. s\<lparr>tl_hosts := tl_hosts s @ map make_host hosts\<rparr>)) (\<lambda>_.
     bindM (of_sum (new_endpoints 0 (cf_devices config))) (\<lambda>devices.
     bindM (modify (\<lambda>s. s\<lparr>tl_devices := tl_devices s @ map make_device devices\<rparr>)) (\<lambda>_.
     bindM (modify (\<lambda>s. s\<lparr>tl_clk := True, tl_rst_n := True\<rparr>)) (\<lambda>_.
     on_base Simulation_trace_init)))))))"

fun tl_reset_loop :: "'d eval \<Rightarrow> nat \<Rightarrow> 'd tl_sim \<Rightarrow> 'd tl_sim" where
  "tl_reset_loop eval 0 s = s"
| "tl_reset_loop eval (Suc n) s =
     tl_reset_loop eval n (eval ((eval (s\<lparr>tl_clk := True\<rparr>))\<lparr>tl_clk := False\<rparr>))"

definition tl_reset :: "'d eval \<Rightarrow> 'd tl_sim \<Rightarrow> 'd tl_sim" where
  "tl_reset eval s = (tl_reset_loop eval 10 (s\<lparr>tl_rst_n := False\<rparr>))\<lparr>tl_rst_n := True\<rparr>"

text \<open>A test is its description and its program.\<close>

type_synonym 'd tl_test = "string \<times> ('d tl_sim, unit) prog"

fun run_selected :: "'d eval \<Rightarrow> 'd tl_test list \<Rightarrow> nat list \<Rightarrow> ('d tl_sim, unit) prog" where
  "run_selected eval tests [] = ret ()"
| "run_selected eval tests (t # ts) =
     (if t < length tests then
        bindM (on_base (print_to_stdout (''Test selected: '' @ fst (tests ! t) @ newline))) (\<lambda>_.
        bindM (snd (tests ! t)) (\<lambda>_.
        bindM (cycles eval 100) (\<lambda>_.
        run_selected eval tests ts)))
      else fail Undefined)"

definition run_tests :: "'d eval \<Rightarrow> 'd eval \<Rightarrow> 'd tl_test list \<Rightarrow> ('d tl_sim, unit) prog" where
  "run_tests eval final tests =
     bindM (modify (\<lambda>s. s\<lparr>tl_randomise := False\<rparr>)) (\<lambda>_.
     bindM (gets tl_tests_to_run) (\<lambda>selected.
     bindM (run_selected eval tests selected) (\<lambda>_.
     bindM (gets tl_duration) (\<lambda>duration.
     bindM (if duration > 0 then tl_run eval True duration 1000 else ret ()) (\<lambda>_.
     bindM (modify final) (\<lambda>_.
     bindM (on_base Simulation_trace_close) (\<lambda>_.
     on_base (print_to_stdout (''No assertions triggered'' @ newline)))))))))"

text \<open>The main program on a simulation that has just been constructed; \<open>argv\<close> is without the name of the program.\<close>

definition tl_main ::
  "'d eval \<Rightarrow> 'd eval \<Rightarrow> 'd tl_test list \<Rightarrow> (int \<Rightarrow> nat \<Rightarrow> nat) \<Rightarrow> (string \<rightharpoonup> string) \<Rightarrow>
     tl_endpoint_config_t \<Rightarrow> (endpoint \<Rightarrow> tl_host) \<Rightarrow> (endpoint \<Rightarrow> tl_device) \<Rightarrow> string list \<Rightarrow> ('d tl_sim, unit) prog" where
  "tl_main eval final tests seeded fs u make_host make_device argv =
     bindM (tl_parse_args (map fst tests) seeded argv) (\<lambda>_.
     bindM (tl_init fs u make_host make_device) (\<lambda>_.
     bindM (modify (tl_reset eval)) (\<lambda>_.
     run_tests eval final tests)))"

end
