(* ===== verification/TL_Bench.thy ===== *)
theory TL_Bench
  imports TL_Responses TL_Harness
begin

text \<open>
  The whole TileLink test bench in motion: hosts, devices and the network under test over any
  number of cycles. The network is any function that reads what the channel ends drive and
  changes only what they see.
\<close>

section \<open>Invariants of hosts and devices\<close>

abbreviation ok_a :: "sender_a \<Rightarrow> bool" where "ok_a \<equiv> sender_ok (\<lambda>_. False) (\<lambda>_. True)"
abbreviation ok_b :: "sender_b \<Rightarrow> bool" where "ok_b \<equiv> sender_ok (\<lambda>_. False) single_beat"
abbreviation ok_c :: "sender_c \<Rightarrow> bool" where "ok_c \<equiv> sender_ok (\<lambda>_. False) (\<lambda>_. True)"
abbreviation ok_d :: "sender_d \<Rightarrow> bool" where "ok_d \<equiv> sender_ok lock_output_buffer (\<lambda>_. True)"
abbreviation ok_e :: "sender_e \<Rightarrow> bool" where "ok_e \<equiv> sender_ok (\<lambda>_. False) single_beat"

definition host_ok :: "tl_host \<Rightarrow> bool" where
  "host_ok h \<longleftrightarrow> ok_a (h_a h) \<and> ok_c (h_c h) \<and> ok_e (h_e h)"

definition device_ok :: "tl_device \<Rightarrow> bool" where
  "device_ok v \<longleftrightarrow> ok_b (v_b v) \<and> ok_d (v_d v)"

lemma sender_ok_cong:
  "to_send s' = to_send s \<Longrightarrow> get_valid s' = get_valid s \<Longrightarrow> modifications s' = modifications s \<Longrightarrow>
     locked s' = locked s \<Longrightarrow> sender_ok locked good s' = sender_ok locked good s"
  by (simp add: sender_ok_def)

text \<open>Requests that arrive and transactions that end do not touch what the invariant is about.\<close>

lemma sender_ok_updates [simp]:
  "sender_ok (\<lambda>_. b) good (s\<lparr>ids_in_use := i\<rparr>) = sender_ok (\<lambda>_. b) good s"
  by (rule sender_ok_cong) (simp_all add: get_valid_def)

lemma ok_d_ids [simp]: "ok_d (s\<lparr>ids_in_use := i\<rparr>) = ok_d s"
  by (rule sender_ok_cong) (simp_all add: get_valid_def)

lemma ok_requests [simp]:
  "ok_b (handle_request_b rnd ra sb) = ok_b sb" "ok_c (handle_request_c rnd rb sc) = ok_c sc"
  "ok_d (handle_request_d_a rnd ra sd) = ok_d sd" "ok_d (handle_request_d_c rnd rc sd) = ok_d sd"
  "ok_e (handle_request_e rnd rd se) = ok_e se"
  by (rule sender_ok_cong; simp add: get_valid_def handle_request_b_def handle_request_c_def
      handle_request_d_a_def handle_request_d_c_def handle_request_e_def)+

lemma ok_inputs [simp]:
  "ok_a (sender_get_inputs sa) = ok_a sa" "ok_b (sender_get_inputs sb) = ok_b sb"
  "ok_c (sender_get_inputs sc) = ok_c sc" "ok_d (sender_get_inputs sd) = ok_d sd"
  "ok_e (sender_get_inputs se) = ok_e se"
  by (rule sender_ok_cong; simp add: get_valid_def sender_get_inputs_def)+

lemma sender_ok_flow_control:
  assumes "sender_ok locked good s" "locked (sender_set_flow_control s) = locked s"
  shows "sender_ok locked good (sender_set_flow_control s)"
  using assms by (auto simp: sender_ok_def sender_set_flow_control_def set_valid_def get_valid_def)

lemma ok_flow_control:
  "ok_a sa \<Longrightarrow> ok_a (sender_set_flow_control sa)" "ok_b sb \<Longrightarrow> ok_b (sender_set_flow_control sb)"
  "ok_c sc \<Longrightarrow> ok_c (sender_set_flow_control sc)" "ok_d sd \<Longrightarrow> ok_d (sender_set_flow_control sd)"
  "ok_e se \<Longrightarrow> ok_e (sender_set_flow_control se)"
  by (rule sender_ok_flow_control; simp add: sender_set_flow_control_def set_valid_def)+

lemma sender_ok_push:
  assumes "sender_ok (\<lambda>_. False) good s" "fresh good m" "complete m"
  shows "sender_ok (\<lambda>_. False) good (push_message m s)"
  using assms queue_ok_push [of good "to_send s" m]
  by (cases "to_send s") (auto simp: sender_ok_def push_message_def get_valid_def fresh_def unfinished_tail_def)

section \<open>New requests\<close>

lemma triple_push_start:
  assumes "triple (sender_ok (\<lambda>_. False) good) (sender_ok (\<lambda>_. False) good) mk
      (\<lambda>m s. sender_ok (\<lambda>_. False) good s \<and> fresh good m \<and> complete m)"
    and "\<And>m. triple (sender_ok (\<lambda>_. False) good) (sender_ok (\<lambda>_. False) good) (k m) (\<lambda>_. sender_ok (\<lambda>_. False) good)"
  shows "triple (sender_ok (\<lambda>_. False) good) (sender_ok (\<lambda>_. False) good)
    (bindM mk (\<lambda>m. bindM (change (push_message m)) (\<lambda>_. k m))) (\<lambda>_. sender_ok (\<lambda>_. False) good)"
  by (rule triple_bind [OF assms(1)], rule triple_bind [where R = "\<lambda>_. sender_ok (\<lambda>_. False) good"])
    (auto intro!: triple_intros sender_ok_push assms(2))

lemma message_a_fresh:
  "triple ok_a ok_a (message_a net rnd u) (\<lambda>m s. ok_a s \<and> fresh (\<lambda>_. True) m \<and> complete m)"
  unfolding message_a_def Let_def
  by (rule triple_bind_readonly, intro readonly_intros, assumption,
      rule triple_bind_readonly, intro readonly_intros, assumption,
      rule triple_bind_readonly, intro readonly_intros, assumption,
      rule triple_sized_message) (auto simp: complete_def fresh_def)

lemma message_c_fresh:
  "triple ok_c ok_c (message_c net rnd u) (\<lambda>m s. ok_c s \<and> fresh (\<lambda>_. True) m \<and> complete m)"
  unfolding message_c_def Let_def
  by (rule triple_bind_readonly, intro readonly_intros, assumption,
      rule triple_bind_readonly, intro readonly_intros, assumption,
      rule triple_bind_readonly, intro readonly_intros, assumption,
      rule triple_sized_message) (auto simp: complete_def fresh_def)

lemma message_b_fresh:
  "triple ok_b ok_b (message_b net rnd u) (\<lambda>m s. ok_b s \<and> fresh single_beat m \<and> complete m)"
  unfolding message_b_def Let_def num_beats_b_def
  by (rule triple_bind_readonly, intro readonly_intros, assumption,
      rule triple_bind_readonly, intro readonly_intros, assumption,
      rule triple_bind_readonly, intro readonly_intros, assumption,
      rule triple_sized_message) (auto simp: complete_def fresh_def single_beat_def payload_beats_def)

lemma queue_request_a_ok: "triple ok_a ok_a (queue_request_a net rnd u) (\<lambda>_. ok_a)"
  unfolding queue_request_a_def
  by (rule triple_bind_readonly, intro readonly_intros, assumption, rule triple_if, (intro triple_intros, assumption),
      rule triple_push_start [OF message_a_fresh], rule triple_start_transaction, simp)

lemma queue_request_c_ok: "triple ok_c ok_c (queue_request_c net rnd u) (\<lambda>_. ok_c)"
  unfolding queue_request_c_def
  by (rule triple_bind_readonly, intro readonly_intros, assumption, rule triple_if, (intro triple_intros, assumption),
      rule triple_push_start [OF message_c_fresh], rule triple_if, rule triple_start_transaction, simp)
    (intro triple_intros, assumption)

lemma pending_probes_fresh:
  assumes "fresh single_beat request" "complete request" "\<forall>m \<in> set pending. fresh single_beat m \<and> complete m"
  shows "triple ok_b ok_b (pending_probes request hosts pending)
    (\<lambda>ps s. ok_b s \<and> (\<forall>qs. ps = Some qs \<longrightarrow> (\<forall>m \<in> set qs. fresh single_beat m \<and> complete m)))"
  using assms
proof (induction hosts arbitrary: request pending)
  case Nil
  then show ?case by (simp, intro triple_intros, simp)
next
  case (Cons host hosts)
  then show ?case
    by (auto simp: Let_def intro!: triple_intros triple_bind_readonly [where m = "own f" for f]
        triple_bind_readonly [where m = "of_sum y" for y] readonly_intros Cons.IH)
qed

lemma send_probes_ok:
  "\<forall>m \<in> set qs. fresh single_beat m \<and> complete m \<Longrightarrow> triple ok_b ok_b (send_probes qs) (\<lambda>_. ok_b)"
proof (induction qs)
  case Nil
  show ?case by (simp, intro triple_intros, assumption)
next
  case (Cons m qs)
  then show ?case
    unfolding send_probes.simps
    by (intro triple_bind [where R = "\<lambda>_. ok_b"])
      (auto intro!: triple_intros sender_ok_push triple_start_transaction)
qed

lemma queue_request_b_ok: "triple ok_b ok_b (queue_request_b net rnd u) (\<lambda>_. ok_b)"
  unfolding queue_request_b_def
  apply (rule triple_bind_readonly, intro readonly_intros, assumption, rule triple_if, (intro triple_intros, assumption))
  apply (rule triple_bind [OF message_b_fresh], rule triple_pure)
  apply (rule triple_bind [OF pending_probes_fresh], simp, simp, simp, rule triple_pure)
  apply (auto split: option.split intro!: triple_intros send_probes_ok)
  done

section \<open>Steps of hosts and devices\<close>

text \<open>The invariant of a component, as one of the state of a program of that component.\<close>

abbreviation component :: "('s \<Rightarrow> bool) \<Rightarrow> rng \<times> 's \<Rightarrow> bool" where
  "component K \<equiv> \<lambda>(g, s). K s"

lemma preserves_component:
  "preserves (component K) m \<longleftrightarrow> (\<forall>g s r g' s'. K s \<longrightarrow> m (g, s) = (r, (g', s')) \<longrightarrow> K s')"
  unfolding preserves_def by (auto split: prod.split) (metis snd_conv, metis surjective_pairing)

lemma preserves_triple:
  assumes "triple K K m (\<lambda>_. K)"
  shows "preserves (component K) m"
  unfolding preserves_component
proof (intro allI impI)
  fix g s r g' s'
  assume "K s" "m (g, s) = (r, (g', s'))"
  from tripleD [OF assms this] show "K s'" by (cases r) simp_all
qed

lemma preserves_steps [preserves_intros]:
  "preserves (component K) (own f)" "preserves (component K) (randomly p)"
  "(\<And>s. K s \<Longrightarrow> K (h s)) \<Longrightarrow> preserves (component K) (change h)"
  by (auto simp: preserves_def prog_simps split: prod.split)

lemma preserves_part:
  assumes "preserves (component I) m" "\<And>s. K s \<Longrightarrow> I (get s)" "\<And>s t. K s \<Longrightarrow> I t \<Longrightarrow> K (put t s)"
  shows "preserves (component K) (part get put m)"
  unfolding preserves_component
proof (intro allI impI)
  fix g s r g' s'
  assume K: "K s" and p: "part get put m (g, s) = (r, (g', s'))"
  obtain t where "m (g, get s) = (r, (g', t))" "s' = put t s"
    using p by (auto simp: part_apply split: prod.splits)
  then show "K s'" using assms K unfolding preserves_component by blast
qed

lemma preserves_end_transaction:
  "(\<And>s i. K s \<Longrightarrow> K (s\<lparr>ids_in_use := i\<rparr>)) \<Longrightarrow> preserves (component K) (end_transaction i)"
  unfolding end_transaction_def by (intro preserves_intros)

lemma host_ok_receivers [simp]: "host_ok (h\<lparr>h_b := rb\<rparr>) = host_ok h" "host_ok (h\<lparr>h_d := rd\<rparr>) = host_ok h"
  by (simp_all add: host_ok_def)

lemma device_ok_receivers [simp]:
  "device_ok (v\<lparr>v_a := ra\<rparr>) = device_ok v" "device_ok (v\<lparr>v_c := rc\<rparr>) = device_ok v"
  "device_ok (v\<lparr>v_e := re\<rparr>) = device_ok v"
  by (simp_all add: device_ok_def)

lemma host_ok_handlers [simp]:
  "host_ok (h\<lparr>h_c := handle_request_c rnd xb (h_c h)\<rparr>) = host_ok h"
  "host_ok (h\<lparr>h_e := handle_request_e rnd xd (h_e h)\<rparr>) = host_ok h"
  "host_ok (h\<lparr>h_a := sender_get_inputs (h_a h)\<rparr>) = host_ok h"
  "host_ok (h\<lparr>h_c := sender_get_inputs (h_c h)\<rparr>) = host_ok h"
  "host_ok (h\<lparr>h_e := sender_get_inputs (h_e h)\<rparr>) = host_ok h"
  by (simp_all add: host_ok_def)

lemma device_ok_handlers [simp]:
  "device_ok (v\<lparr>v_b := handle_request_b rnd xa (v_b v)\<rparr>) = device_ok v"
  "device_ok (v\<lparr>v_d := handle_request_d_a rnd xa (v_d v)\<rparr>) = device_ok v"
  "device_ok (v\<lparr>v_d := handle_request_d_c rnd xc (v_d v)\<rparr>) = device_ok v"
  "device_ok (v\<lparr>v_b := sender_get_inputs (v_b v)\<rparr>) = device_ok v"
  "device_ok (v\<lparr>v_d := sender_get_inputs (v_d v)\<rparr>) = device_ok v"
  by (simp_all add: device_ok_def)

lemma host_parts:
  "preserves (component ok_a) ma \<Longrightarrow> preserves (component host_ok) (part h_a (\<lambda>a h. h\<lparr>h_a := a\<rparr>) ma)"
  "preserves (component ok_c) mc \<Longrightarrow> preserves (component host_ok) (part h_c (\<lambda>c h. h\<lparr>h_c := c\<rparr>) mc)"
  "preserves (component ok_e) me \<Longrightarrow> preserves (component host_ok) (part h_e (\<lambda>e h. h\<lparr>h_e := e\<rparr>) me)"
  by (erule preserves_part; simp add: host_ok_def)+

lemma device_parts:
  "preserves (component ok_b) mb \<Longrightarrow> preserves (component device_ok) (part v_b (\<lambda>b v. v\<lparr>v_b := b\<rparr>) mb)"
  "preserves (component ok_d) md \<Longrightarrow> preserves (component device_ok) (part v_d (\<lambda>d v. v\<lparr>v_d := d\<rparr>) md)"
  by (erule preserves_part; simp add: device_ok_def)+

lemma host_set_outputs_ok: "preserves (component host_ok) (host_set_outputs net rnd)"
  unfolding host_set_outputs_def
  by (intro preserves_intros host_parts preserves_triple queue_request_a_ok queue_request_c_ok
      send_a.set_outputs_ok send_c.set_outputs_ok send_e.set_outputs_ok)

lemma device_set_outputs_ok: "preserves (component device_ok) (device_set_outputs net rnd)"
  unfolding device_set_outputs_def
  by (intro preserves_intros device_parts preserves_triple queue_request_b_ok send_b.set_outputs_ok
      send_d.set_outputs_ok)

lemma preserves_count_beat:
  "(\<And>s r. K s \<Longrightarrow> K (put r s)) \<Longrightarrow> preserves (component K) (count_beat get put z)"
  unfolding count_beat_def by (intro preserves_intros)

lemma preserves_receiver:
  "(\<And>s r. K s \<Longrightarrow> K (put r s)) \<Longrightarrow> (\<And>x. preserves (component K) (handle rnd x)) \<Longrightarrow>
     preserves (component K) (receiver_get_inputs get put handle rnd)"
  unfolding receiver_get_inputs_def by (intro preserves_intros)

lemma handle_host_ok:
  "preserves (component host_ok) (handle_beat_b rnd xb)" "preserves (component host_ok) (handle_beat_d rnd xd)"
  unfolding handle_beat_b_def handle_beat_d_def Let_def
  by (auto split: tl_b_op_e.split tl_d_op_e.split intro!: preserves_intros preserves_count_beat host_parts
      preserves_end_transaction)

lemma handle_device_ok:
  "preserves (component device_ok) (handle_beat_a rnd xa)" "preserves (component device_ok) (handle_beat_c rnd xc)"
  "preserves (component device_ok) (handle_beat_e rnd xe)"
  unfolding handle_beat_a_def handle_beat_c_def handle_beat_e_def dev_b_end_def Let_def
  by (auto split: tl_a_op_e.split tl_c_op_e.split intro!: preserves_intros preserves_count_beat device_parts
      preserves_end_transaction)

lemma host_get_inputs_ok: "preserves (component host_ok) (host_get_inputs rnd)"
  unfolding host_get_inputs_def
  by (intro preserves_intros preserves_receiver handle_host_ok) simp_all

lemma device_get_inputs_ok: "preserves (component device_ok) (device_get_inputs rnd)"
  unfolding device_get_inputs_def
  by (intro preserves_intros preserves_receiver handle_device_ok) simp_all

lemma flow_control_ok:
  "host_ok h \<Longrightarrow> host_ok (host_set_flow_control h)" "device_ok v \<Longrightarrow> device_ok (device_set_flow_control v)"
  by (simp_all add: host_ok_def device_ok_def host_set_flow_control_def device_set_flow_control_def ok_flow_control)

section \<open>The whole bench\<close>

definition bench_ok :: "'d tl_sim \<Rightarrow> bool" where
  "bench_ok s \<longleftrightarrow> (\<forall>h \<in> set (tl_hosts s). host_ok h) \<and> (\<forall>v \<in> set (tl_devices s). device_ok v)"

text \<open>What the network under test may change: the ready signals of senders, and what receivers see.\<close>

definition sender_sees :: "('c, 'z) sender_scheme \<Rightarrow> ('c, 'z) sender_scheme \<Rightarrow> bool" where
  "sender_sees s s' \<longleftrightarrow> (\<exists>b. s' = s\<lparr>channel := (channel s)\<lparr>wire_ready := b\<rparr>\<rparr>)"

definition receiver_sees :: "'c receiver \<Rightarrow> 'c receiver \<Rightarrow> bool" where
  "receiver_sees r r' \<longleftrightarrow> (\<exists>b d. r' = r\<lparr>r_channel := (r_channel r)\<lparr>wire_valid := b, wire_data := d\<rparr>\<rparr>)"

definition host_sees :: "tl_host \<Rightarrow> tl_host \<Rightarrow> bool" where
  "host_sees h h' \<longleftrightarrow> h_endpoint h' = h_endpoint h \<and> sender_sees (h_a h) (h_a h') \<and>
     receiver_sees (h_b h) (h_b h') \<and> sender_sees (h_c h) (h_c h') \<and> receiver_sees (h_d h) (h_d h') \<and>
     sender_sees (h_e h) (h_e h')"

definition device_sees :: "tl_device \<Rightarrow> tl_device \<Rightarrow> bool" where
  "device_sees v v' \<longleftrightarrow> v_endpoint v' = v_endpoint v \<and> receiver_sees (v_a v) (v_a v') \<and>
     sender_sees (v_b v) (v_b v') \<and> receiver_sees (v_c v) (v_c v') \<and> sender_sees (v_d v) (v_d v') \<and>
     receiver_sees (v_e v) (v_e v')"

definition network_eval :: "'d eval \<Rightarrow> bool" where
  "network_eval eval \<longleftrightarrow> (\<forall>s. \<exists>hs vs d. eval s = s\<lparr>tl_hosts := hs, tl_devices := vs, tl_dut := d\<rparr> \<and>
     list_all2 host_sees (tl_hosts s) hs \<and> list_all2 device_sees (tl_devices s) vs)"

lemma network_evalD:
  assumes "network_eval eval"
  shows "list_all2 host_sees (tl_hosts s) (tl_hosts (eval s))"
    "list_all2 device_sees (tl_devices s) (tl_devices (eval s))"
    "tl_base (eval s) = tl_base s" "tl_tests_to_run (eval s) = tl_tests_to_run s"
proof -
  obtain hs vs d where "eval s = s\<lparr>tl_hosts := hs, tl_devices := vs, tl_dut := d\<rparr>"
    "list_all2 host_sees (tl_hosts s) hs" "list_all2 device_sees (tl_devices s) vs"
    using assms unfolding network_eval_def by metis
  then show "list_all2 host_sees (tl_hosts s) (tl_hosts (eval s))"
    "list_all2 device_sees (tl_devices s) (tl_devices (eval s))"
    "tl_base (eval s) = tl_base s" "tl_tests_to_run (eval s) = tl_tests_to_run s" by simp_all
qed

lemma sees_ok:
  "host_sees h h' \<Longrightarrow> host_ok h \<Longrightarrow> host_ok h'" "device_sees v v' \<Longrightarrow> device_ok v \<Longrightarrow> device_ok v'"
proof -
  have s: "sender_ok locked good s \<Longrightarrow> sender_sees s s' \<Longrightarrow> (\<And>w. locked (s\<lparr>channel := w\<rparr>) = locked s) \<Longrightarrow>
      sender_ok locked good s'" for locked good and s s' :: "('c, 'z) sender_scheme"
    by (auto simp: sender_sees_def sender_ok_def get_valid_def)
  show "host_sees h h' \<Longrightarrow> host_ok h \<Longrightarrow> host_ok h'"
    unfolding host_sees_def host_ok_def by (auto elim: s)
  show "device_sees v v' \<Longrightarrow> device_ok v \<Longrightarrow> device_ok v'"
    unfolding device_sees_def device_ok_def by (auto elim: s)
qed

lemma list_all2_transfer:
  "list_all2 R xs ys \<Longrightarrow> (\<And>x y. R x y \<Longrightarrow> P x \<Longrightarrow> P y) \<Longrightarrow> \<forall>x \<in> set xs. P x \<Longrightarrow> \<forall>y \<in> set ys. P y"
  by (induction rule: list_all2_induct) auto

lemma bench_ok_eval:
  assumes "network_eval eval" "bench_ok s"
  shows "bench_ok (eval s)"
proof -
  note h = network_evalD(1) [OF assms(1), of s] and v = network_evalD(2) [OF assms(1), of s]
  have "\<forall>h \<in> set (tl_hosts (eval s)). host_ok h"
    by (rule list_all2_transfer [OF h]) (use assms(2) sees_ok(1) in \<open>auto simp: bench_ok_def\<close>)
  moreover have "\<forall>v \<in> set (tl_devices (eval s)). device_ok v"
    by (rule list_all2_transfer [OF v]) (use assms(2) sees_ok(2) in \<open>auto simp: bench_ok_def\<close>)
  ultimately show ?thesis by (simp add: bench_ok_def)
qed

lemma bench_ok_other [simp]:
  "bench_ok (s\<lparr>tl_clk := c\<rparr>) = bench_ok s" "bench_ok (s\<lparr>tl_rst_n := c\<rparr>) = bench_ok s"
  "bench_ok (s\<lparr>tl_base := b\<rparr>) = bench_ok s" "bench_ok (s\<lparr>tl_randomise := c\<rparr>) = bench_ok s"
  "bench_ok (s\<lparr>tl_rng := g\<rparr>) = bench_ok s" "bench_ok (s\<lparr>tl_duration := n\<rparr>) = bench_ok s"
  "bench_ok (s\<lparr>tl_tests_to_run := ts\<rparr>) = bench_ok s" "bench_ok (s\<lparr>tl_config_file := f\<rparr>) = bench_ok s"
  by (simp_all add: bench_ok_def)

lemma preserves_on_base [preserves_intros]: "preserves bench_ok (on_base m)"
  unfolding on_base_def by (rule preserves_zoom) simp

text \<open>A step of each component in turn keeps what every component keeps.\<close>

lemma preserves_each:
  assumes "preserves (component K) m" "\<And>s. P s \<longleftrightarrow> Q s \<and> (\<forall>e \<in> set (get s). K e)"
    and "\<And>es s. get (put es s) = es" "\<And>es s. Q (put es s) = Q s"
    and "\<And>g s. get (s\<lparr>tl_rng := g\<rparr>) = get s" "\<And>g s. Q (s\<lparr>tl_rng := g\<rparr>) = Q s"
  shows "P s \<Longrightarrow> i + n \<le> length (get s) \<Longrightarrow> P (snd (each n get put m i s))"
proof (induction n arbitrary: i s)
  case 0
  then show ?case by (simp add: ret_apply)
next
  case (Suc n)
  obtain r g e where m: "m (tl_rng s, get s ! i) = (r, (g, e))" by (metis prod_cases3)
  let ?s = "put ((get s)[i := e]) (s\<lparr>tl_rng := g\<rparr>)"
  have "K (get s ! i)" using Suc.prems assms(2) by simp
  then have "K e" using assms(1) m unfolding preserves_component by blast
  then have "P ?s" using Suc.prems(1) assms(2-6) by (auto dest: set_update_subset_insert [THEN subsetD])
  moreover have "i + 1 + n \<le> length (get ?s)" using Suc.prems(2) assms(3) by simp
  ultimately show ?case
    using Suc.IH [of ?s "i + 1"] m by (cases r) (simp_all add: bindM_apply)
qed

lemma preserves_each_host [preserves_intros]:
  assumes "preserves (component host_ok) m"
  shows "preserves bench_ok (each_host m)"
  unfolding preserves_def each_host_def
  using preserves_each [OF assms, of bench_ok "\<lambda>s. \<forall>v \<in> set (tl_devices s). device_ok v" tl_hosts
      "\<lambda>hs s. s\<lparr>tl_hosts := hs\<rparr>" _ 0]
  by (auto simp: bindM_apply gets_apply bench_ok_def)

lemma preserves_each_device [preserves_intros]:
  assumes "preserves (component device_ok) m"
  shows "preserves bench_ok (each_device m)"
  unfolding preserves_def each_device_def
  using preserves_each [OF assms, of bench_ok "\<lambda>s. \<forall>h \<in> set (tl_hosts s). host_ok h" tl_devices
      "\<lambda>vs s. s\<lparr>tl_devices := vs\<rparr>" _ 0]
  by (auto simp: bindM_apply gets_apply bench_ok_def)

lemma next_cycle_ok:
  assumes "network_eval eval"
  shows "preserves bench_ok (next_cycle eval)"
  unfolding next_cycle_def tl_first_half_def tl_second_half_def tl_set_flow_control_def tl_set_outputs_def
    tl_get_inputs_def split_beta
  by (intro preserves_intros host_set_outputs_ok device_set_outputs_ok host_get_inputs_ok device_get_inputs_ok)
    (simp_all add: bench_ok_eval [OF assms] flow_control_ok)

lemma cycles_ok: "network_eval eval \<Longrightarrow> preserves bench_ok (cycles eval n)"
  by (induction n) (simp_all, (intro preserves_intros next_cycle_ok | assumption)+)

lemma tl_run_ok: "network_eval eval \<Longrightarrow> preserves bench_ok (tl_run eval rnd duration drain)"
  unfolding tl_run_def by (intro preserves_intros cycles_ok) simp_all

lemma tl_reset_ok: "network_eval eval \<Longrightarrow> bench_ok s \<Longrightarrow> bench_ok (tl_reset eval s)"
proof -
  assume e: "network_eval eval"
  have "bench_ok t \<Longrightarrow> bench_ok (tl_reset_loop eval n t)" for n t
    by (induction n arbitrary: t) (simp_all add: bench_ok_eval [OF e])
  then show "bench_ok s \<Longrightarrow> bench_ok (tl_reset eval s)" by (simp add: tl_reset_def)
qed

lemma run_selected_ok:
  "network_eval eval \<Longrightarrow> \<forall>t \<in> set ts. t < length tests \<longrightarrow> preserves bench_ok (snd (tests ! t)) \<Longrightarrow>
     preserves bench_ok (run_selected eval tests ts)"
  by (induction ts) (auto intro!: preserves_intros cycles_ok)

lemma run_tests_ok:
  assumes "network_eval eval" "network_eval final" "bench_ok s"
    and "\<forall>t \<in> set (tl_tests_to_run s). t < length tests \<longrightarrow> preserves bench_ok (snd (tests ! t))"
  shows "bench_ok (snd (run_tests eval final tests s))"
proof -
  let ?rest = "\<lambda>selected. bindM (run_selected eval tests selected) (\<lambda>_.
     bindM (gets tl_duration) (\<lambda>duration.
     bindM (if duration > 0 then tl_run eval True duration 1000 else ret ()) (\<lambda>_.
     bindM (modify final) (\<lambda>_.
     bindM (on_base Simulation_trace_close) (\<lambda>_.
     on_base (print_to_stdout (''No assertions triggered'' @ newline)))))))"
  have "preserves bench_ok (?rest (tl_tests_to_run s))"
    by (intro preserves_intros run_selected_ok tl_run_ok assms) (simp add: bench_ok_eval [OF assms(2)])
  then show ?thesis
    using assms(3) by (simp add: run_tests_def bindM_apply [of "modify f" for f] bindM_apply [of "gets f" for f]
        modify_apply gets_apply preserves_def)
qed

text \<open>The ends start with nothing on the channels that they drive.\<close>

lemma new_ends_ok:
  "\<not> wire_valid wa \<Longrightarrow> \<not> wire_valid wc \<Longrightarrow> \<not> wire_valid we \<Longrightarrow> host_ok (new_host ep wa wb wc wd we)"
  "\<not> wire_valid wb \<Longrightarrow> \<not> wire_valid wd \<Longrightarrow> device_ok (new_device ep wa wb wc wd we)"
  by (simp_all add: host_ok_def device_ok_def new_host_def new_device_def new_sender_def sender.extend_def
      sender_ok_def get_valid_def unfinished_tail_def)

lemma tl_init_ok:
  assumes "\<And>e. host_ok (make_host e)" "\<And>e. device_ok (make_device e)"
  shows "preserves bench_ok (tl_init fs u make_host make_device)"
  unfolding tl_init_def
  by (intro preserves_intros) (auto simp: bench_ok_def assms)

text \<open>Everything after the command line: set-up, reset and the tests.\<close>

definition tl_bench_run ::
  "'d eval \<Rightarrow> 'd eval \<Rightarrow> 'd tl_test list \<Rightarrow> (string \<rightharpoonup> string) \<Rightarrow> tl_endpoint_config_t \<Rightarrow>
     (endpoint \<Rightarrow> tl_host) \<Rightarrow> (endpoint \<Rightarrow> tl_device) \<Rightarrow> ('d tl_sim, unit) prog" where
  "tl_bench_run eval final tests fs u make_host make_device =
     bindM (tl_init fs u make_host make_device) (\<lambda>_.
     bindM (modify (tl_reset eval)) (\<lambda>_.
     run_tests eval final tests))"

lemma tl_main_bench:
  "tl_main eval final tests seeded fs u make_host make_device argv =
     bindM (tl_parse_args (map fst tests) seeded argv) (\<lambda>_. tl_bench_run eval final tests fs u make_host make_device)"
  by (simp add: tl_main_def tl_bench_run_def)

lemma tl_reset_tests: "network_eval eval \<Longrightarrow> tl_tests_to_run (tl_reset eval s) = tl_tests_to_run s"
proof -
  assume e: "network_eval eval"
  have "tl_tests_to_run (tl_reset_loop eval n t) = tl_tests_to_run t" for n t
    by (induction n arbitrary: t) (simp_all add: network_evalD(4) [OF e])
  then show ?thesis by (simp add: tl_reset_def)
qed

lemma tl_init_tests: "keeps tl_tests_to_run (tl_init fs u make_host make_device)"
  unfolding tl_init_def on_base_def by (intro keeps_intros) simp_all

lemma tl_bench_run_ok:
  assumes "network_eval eval" "network_eval final" "\<And>e. host_ok (make_host e)" "\<And>e. device_ok (make_device e)"
    and "\<forall>t \<in> set (tl_tests_to_run s). t < length tests \<longrightarrow> preserves bench_ok (snd (tests ! t))" "bench_ok s"
  shows "bench_ok (snd (tl_bench_run eval final tests fs u make_host make_device s))"
proof -
  obtain r s1 where s1: "tl_init fs u make_host make_device s = (r, s1)" by fastforce
  have ok: "bench_ok s1" by (rule preservesD [OF tl_init_ok [OF assms(3,4)] s1 assms(6)])
  show ?thesis
  proof (cases r)
    case (Inl e)
    then show ?thesis using s1 ok by (simp add: tl_bench_run_def bindM_apply)
  next
    case (Inr x)
    have "bench_ok (snd (run_tests eval final tests (tl_reset eval s1)))"
      by (rule run_tests_ok [OF assms(1,2)])
        (use assms(5) in \<open>simp_all add: tl_reset_ok [OF assms(1) ok] tl_reset_tests [OF assms(1)] keepsD [OF tl_init_tests s1]\<close>)
    then show ?thesis using s1 Inr by (simp add: tl_bench_run_def bindM_apply modify_apply)
  qed
qed

lemma select_tests_ok: "preserves bench_ok (select_tests n argv)"
  by (induction argv) (auto intro!: preserves_intros)

lemma tl_parse_args_ok: "preserves bench_ok (tl_parse_args descriptions seeded argv)"
  unfolding tl_parse_args_def tl_when_arg_def
  by (intro preserves_intros select_tests_ok) simp_all

section \<open>Waveforms of the bench\<close>

text \<open>The bench repeats the code of the clock loop; it dumps the waveforms in the same way.\<close>

lemma logs_bench_tick [logs_intros]:
  "logs tl_base (bindM (on_base Simulation_trace_state_change) (\<lambda>_. on_base advance))"
  by (simp add: logs_def logged_def on_base_def Simulation_trace_state_change_def advance_def on_waves_def
      wave_dump_def waves_of_def prog_simps)

lemma logs_silent: "keeps tl_base m \<Longrightarrow> logs tl_base m"
  by (simp add: logs_def logged_def keeps_def)

lemma keeps_each: "(\<And>es s. tl_base (put es s) = tl_base s) \<Longrightarrow> keeps tl_base (each n get put m i)"
proof (induction n arbitrary: i)
  case (Suc n)
  have "keeps tl_base (\<lambda>s. case m (tl_rng s, get s ! i) of (r, (g, e)) \<Rightarrow> (r, put ((get s)[i := e]) (s\<lparr>tl_rng := g\<rparr>)))"
    by (simp add: keeps_def Suc.prems split: prod.split)
  then show ?case unfolding each.simps by (intro keeps_intros Suc)
qed (simp add: keeps_basic)

lemma keeps_each_component [keeps_intros]:
  "keeps tl_base (each_host m)" "keeps tl_base (each_device n)"
  unfolding each_host_def each_device_def by (intro keeps_intros keeps_each; simp)+

lemma halves_silent:
  "network_eval eval \<Longrightarrow> keeps tl_base (tl_first_half eval)" "network_eval eval \<Longrightarrow> keeps tl_base (tl_second_half eval)"
  unfolding tl_first_half_def tl_second_half_def tl_set_flow_control_def tl_set_outputs_def tl_get_inputs_def split_beta
  by (intro keeps_intros; simp add: network_evalD)+

lemma next_cycle_logs:
  assumes "network_eval eval"
  shows "logs tl_base (next_cycle eval)"
proof -
  have p: "logs tl_base (bindM (modify (\<lambda>s. s\<lparr>tl_clk := True\<rparr>)) (\<lambda>_. tl_first_half eval))"
    and q: "logs tl_base (bindM (modify (\<lambda>s. s\<lparr>tl_clk := False\<rparr>)) (\<lambda>_. tl_second_half eval))"
    by (intro logs_silent keeps_intros halves_silent assms; simp)+
  have "next_cycle eval =
     bindM (bindM (modify (\<lambda>s. s\<lparr>tl_clk := True\<rparr>)) (\<lambda>_. tl_first_half eval)) (\<lambda>_.
     bindM (bindM (on_base Simulation_trace_state_change) (\<lambda>_. on_base advance)) (\<lambda>_.
     bindM (bindM (modify (\<lambda>s. s\<lparr>tl_clk := False\<rparr>)) (\<lambda>_. tl_second_half eval)) (\<lambda>_.
     bindM (on_base Simulation_trace_state_change) (\<lambda>_. on_base advance))))"
    by (simp add: next_cycle_def bindM_assoc)
  then show ?thesis
    by (simp only:) (intro logs_bindM [OF p] logs_bindM [OF q] logs_bindM [OF logs_bench_tick] logs_bench_tick)
qed

lemma cycles_log: "network_eval eval \<Longrightarrow> logs tl_base (cycles eval n)"
  by (induction n) (simp_all, (intro logs_intros next_cycle_logs | assumption)+)

end
