(* ===== verification/TL_Tests.thy ===== *)
theory TL_Tests
  imports TL_Bench
begin

text \<open>
  The directed tests of the TileLink bench (\<open>tl_tests.cc\<close>) as programs of the simulation. Each
  takes the network under test as a parameter, since it lets cycles pass while it waits for a
  message.
\<close>

section \<open>Steps of the tests\<close>

text \<open>\<open>sim.host(i)\<close> and \<open>sim.device(i)\<close> refer to an element of a vector; there has to be one.\<close>

definition on_host :: "nat \<Rightarrow> (tl_host, 'a) tl \<Rightarrow> ('d tl_sim, 'a) prog" where
  "on_host i m = (\<lambda>s.
     if i < length (tl_hosts s) then
       case m (tl_rng s, tl_hosts s ! i) of (r, (g, h)) \<Rightarrow> (r, s\<lparr>tl_rng := g, tl_hosts := (tl_hosts s)[i := h]\<rparr>)
     else (Inl Undefined, s))"

definition on_device :: "nat \<Rightarrow> (tl_device, 'a) tl \<Rightarrow> ('d tl_sim, 'a) prog" where
  "on_device i m = (\<lambda>s.
     if i < length (tl_devices s) then
       case m (tl_rng s, tl_devices s ! i) of (r, (g, v)) \<Rightarrow> (r, s\<lparr>tl_rng := g, tl_devices := (tl_devices s)[i := v]\<rparr>)
     else (Inl Undefined, s))"

definition on_host_a :: "nat \<Rightarrow> (sender_a, 'a) tl \<Rightarrow> ('d tl_sim, 'a) prog" where
  "on_host_a i m = on_host i (part h_a (\<lambda>a h. h\<lparr>h_a := a\<rparr>) m)"

definition on_device_d :: "nat \<Rightarrow> (sender_d, 'a) tl \<Rightarrow> ('d tl_sim, 'a) prog" where
  "on_device_d i m = on_device i (part v_d (\<lambda>d v. v\<lparr>v_d := d\<rparr>) m)"

text \<open>\<open>tl_message<tl_a> message(host.a, false, {...})\<close> and \<open>message.next_beat(false)\<close>.\<close>

definition new_request :: "nat \<Rightarrow> updates \<Rightarrow> ('d tl_sim, tl_a) prog" where
  "new_request i requirements =
     bindM (gets network_of) (\<lambda>net.
     on_host_a i (bindM (message_a net False requirements) (\<lambda>message.
       bindM (randomly (next_beat_a False message)) (\<lambda>(beat, message'). ret beat))))"

definition start_and_send :: "nat \<Rightarrow> tl_a \<Rightarrow> ('d tl_sim, unit) prog" where
  "start_and_send i request =
     bindM (on_host_a i (start_transaction (a_source request))) (\<lambda>_. on_host_a i (send request))"

text \<open>\<open>queue_request(false, {...})\<close> and \<open>change_next_beat({...})\<close> of the host's channel A or the device's channel D.\<close>

definition queue_a :: "nat \<Rightarrow> updates \<Rightarrow> ('d tl_sim, unit) prog" where
  "queue_a i requirements =
     bindM (gets network_of) (\<lambda>net. on_host_a i (queue_request_a net False requirements))"

definition change_a :: "nat \<Rightarrow> updates \<Rightarrow> ('d tl_sim, unit) prog" where
  "change_a i u = on_host_a i (change (change_next_beat u))"

definition change_d :: "nat \<Rightarrow> updates \<Rightarrow> ('d tl_sim, unit) prog" where
  "change_d i u = on_device_d i (change (change_next_beat u))"

definition await_a :: "'d eval \<Rightarrow> nat \<Rightarrow> ('d tl_sim, tl_a) prog" where
  "await_a eval i =
     bindM (on_device i (ret ())) (\<lambda>_.
     await eval 100 (\<lambda>s. v_a (tl_devices s ! i))
       (\<lambda>r s. s\<lparr>tl_devices := (tl_devices s)[i := (tl_devices s ! i)\<lparr>v_a := r\<rparr>]\<rparr>))"

definition await_d :: "'d eval \<Rightarrow> nat \<Rightarrow> ('d tl_sim, tl_d) prog" where
  "await_d eval i =
     bindM (on_host i (ret ())) (\<lambda>_.
     await eval 100 (\<lambda>s. h_d (tl_hosts s ! i))
       (\<lambda>r s. s\<lparr>tl_hosts := (tl_hosts s)[i := (tl_hosts s ! i)\<lparr>h_d := r\<rparr>]\<rparr>))"

text \<open>The address of a device as the \<open>int\<close> of a map of requirements.\<close>

definition address_in :: "int \<Rightarrow> ('d tl_sim, int) prog" where
  "address_in device = bindM (of_sum (get_address 0x3000 device)) (\<lambda>a. ret (sint (ucast a :: u32)))"

definition acknowledged :: "tl_d \<Rightarrow> tl_a \<Rightarrow> tl_d_op_e \<Rightarrow> bool" where
  "acknowledged response request oper \<longleftrightarrow>
     \<not> d_denied response \<and> \<not> d_corrupt response \<and> d_source response = a_source request \<and> d_opcode response = oper"

section \<open>Tests that should pass\<close>

definition valid_write_operation :: "'d eval \<Rightarrow> ('d tl_sim, unit) prog" where
  "valid_write_operation eval =
     bindM (new_request 0 [''opcode'' \<mapsto> 0]) (\<lambda>request.
     bindM (start_and_send 0 request) (\<lambda>_.
     bindM (await_a eval 0) (\<lambda>received.
     bindM (assertM (a_address received = a_address request \<and> a_opcode received = a_opcode request \<and>
       a_mask received = a_mask request \<and> a_data received = a_data request)) (\<lambda>_.
     bindM (await_d eval 0) (\<lambda>response.
     assertM (acknowledged response request AccessAck))))))"

definition valid_read_operation :: "'d eval \<Rightarrow> ('d tl_sim, unit) prog" where
  "valid_read_operation eval =
     bindM (new_request 1 [''opcode'' \<mapsto> 4]) (\<lambda>request.
     bindM (start_and_send 1 request) (\<lambda>_.
     bindM (change_d 0 [''data'' \<mapsto> 0x1234]) (\<lambda>_.
     bindM (await_a eval 0) (\<lambda>received.
     bindM (assertM (a_address received = a_address request \<and> a_opcode received = a_opcode request \<and>
       a_mask received = a_mask request)) (\<lambda>_.
     bindM (await_d eval 1) (\<lambda>response.
     assertM (acknowledged response request AccessAckData \<and> d_data response = 0x1234)))))))"

definition valid_dev1_operation :: "'d eval \<Rightarrow> ('d tl_sim, unit) prog" where
  "valid_dev1_operation eval =
     bindM (address_in 1) (\<lambda>address.
     bindM (new_request 1 [''address'' \<mapsto> address]) (\<lambda>request.
     bindM (start_and_send 1 request) (\<lambda>_.
     bindM (await_a eval 1) (\<lambda>received.
     bindM (assertM (a_address received = a_address request \<and> a_opcode received = a_opcode request \<and>
       a_mask received = a_mask request \<and> a_data received = a_data request)) (\<lambda>_.
     bindM (await_d eval 1) (\<lambda>response.
     assertM (acknowledged response request AccessAck)))))))"

definition multiple_valid_requests :: "'d eval \<Rightarrow> ('d tl_sim, unit) prog" where
  "multiple_valid_requests eval =
     bindM (new_request 0 Map.empty) (\<lambda>dev0_request.
     bindM (start_and_send 0 dev0_request) (\<lambda>_.
     bindM (address_in 1) (\<lambda>address.
     bindM (new_request 1 [''address'' \<mapsto> address]) (\<lambda>dev1_request.
     bindM (start_and_send 1 dev1_request) (\<lambda>_.
     bindM (await_a eval 0) (\<lambda>_.
     bindM (await_a eval 1) (\<lambda>_.
     bindM (await_d eval 0) (\<lambda>dev0_d.
     bindM (assertM (acknowledged dev0_d dev0_request AccessAck)) (\<lambda>_.
     bindM (await_d eval 1) (\<lambda>dev1_d.
     assertM (acknowledged dev1_d dev1_request AccessAck)))))))))))"

text \<open>The second beat of a hand-made burst.\<close>

definition next_in_burst :: "u64 \<Rightarrow> tl_a \<Rightarrow> tl_a" where
  "next_in_burst data request = request\<lparr>a_address := a_address request + 8, a_data := data\<rparr>"

definition multibeat_tlc :: "'d eval \<Rightarrow> ('d tl_sim, unit) prog" where
  "multibeat_tlc eval =
     bindM (new_request 0 [''opcode'' \<mapsto> 0, ''size'' \<mapsto> 4]) (\<lambda>request.
     bindM (start_and_send 0 request) (\<lambda>_.
     bindM (await_a eval 0) (\<lambda>received.
     bindM (assertM (a_data received = a_data request)) (\<lambda>_.
     let request2 = next_in_burst 0x87654321 request in
     bindM (on_host_a 0 (send request2)) (\<lambda>_.
     bindM (next_cycle eval) (\<lambda>_.
     bindM (await_a eval 0) (\<lambda>received2.
     bindM (assertM (a_data received2 = a_data request2)) (\<lambda>_.
     bindM (await_d eval 0) (\<lambda>_. ret ())))))))))"

definition multibeat_tlul :: "'d eval \<Rightarrow> ('d tl_sim, unit) prog" where
  "multibeat_tlul eval =
     bindM (address_in 2) (\<lambda>address.
     bindM (new_request 0 [''opcode'' \<mapsto> 0, ''size'' \<mapsto> 4, ''address'' \<mapsto> address]) (\<lambda>request.
     bindM (start_and_send 0 request) (\<lambda>_.
     let request2 = next_in_burst 0x87654321 request in
     bindM (on_host_a 0 (send request2)) (\<lambda>_.
     bindM (await_a eval 2) (\<lambda>received.
     bindM (assertM (a_data received = a_data request)) (\<lambda>_.
     bindM (next_cycle eval) (\<lambda>_.
     bindM (await_a eval 2) (\<lambda>received2.
     bindM (assertM (a_data received2 = a_data request2)) (\<lambda>_.
     bindM (await_d eval 0) (\<lambda>_. ret ()))))))))))"

definition a_corrupt_payload :: "'d eval \<Rightarrow> ('d tl_sim, unit) prog" where
  "a_corrupt_payload eval =
     bindM (new_request 0 [''opcode'' \<mapsto> 0, ''corrupt'' \<mapsto> 1]) (\<lambda>request.
     bindM (start_and_send 0 request) (\<lambda>_.
     bindM (await_a eval 0) (\<lambda>_.
     bindM (await_d eval 0) (\<lambda>_. ret ()))))"

definition all_passing_tests :: "'d eval \<Rightarrow> ('d tl_sim, unit) prog" where
  "all_passing_tests eval =
     bindM (valid_write_operation eval) (\<lambda>_.
     bindM (valid_read_operation eval) (\<lambda>_.
     bindM (valid_dev1_operation eval) (\<lambda>_.
     bindM (multiple_valid_requests eval) (\<lambda>_.
     bindM (multibeat_tlc eval) (\<lambda>_.
     bindM (multibeat_tlul eval) (\<lambda>_.
     a_corrupt_payload eval))))))"

section \<open>Tests that should trigger an assertion of the network\<close>

text \<open>\<open>sim.run(false)\<close> with its default arguments.\<close>

definition run_directed :: "'d eval \<Rightarrow> ('d tl_sim, unit) prog" where
  "run_directed eval = tl_run eval False 1000 100"

definition a_illegal_opcode :: "'d eval \<Rightarrow> ('d tl_sim, unit) prog" where
  "a_illegal_opcode eval =
     bindM (address_in 2) (\<lambda>address.
     bindM (queue_a 0 [''opcode'' \<mapsto> 2, ''address'' \<mapsto> address]) (\<lambda>_. run_directed eval))"

definition a_illegal_param :: "'d eval \<Rightarrow> ('d tl_sim, unit) prog" where
  "a_illegal_param eval = bindM (queue_a 0 [''opcode'' \<mapsto> 0, ''param'' \<mapsto> 2]) (\<lambda>_. run_directed eval)"

definition a_size_too_small :: "'d eval \<Rightarrow> ('d tl_sim, unit) prog" where
  "a_size_too_small eval =
     bindM (queue_a 0 [''opcode'' \<mapsto> 4, ''size'' \<mapsto> 1, ''mask'' \<mapsto> 0xF]) (\<lambda>_. run_directed eval)"

definition a_size_mask_mismatch :: "'d eval \<Rightarrow> ('d tl_sim, unit) prog" where
  "a_size_mask_mismatch eval =
     bindM (queue_a 0 [''opcode'' \<mapsto> 0, ''size'' \<mapsto> 3, ''mask'' \<mapsto> 0xF]) (\<lambda>_. run_directed eval)"

definition a_unaligned_address :: "'d eval \<Rightarrow> ('d tl_sim, unit) prog" where
  "a_unaligned_address eval =
     bindM (queue_a 0 [''size'' \<mapsto> 3, ''address'' \<mapsto> 0x3001]) (\<lambda>_. run_directed eval)"

definition a_multibeat_addr_inc :: "'d eval \<Rightarrow> ('d tl_sim, unit) prog" where
  "a_multibeat_addr_inc eval =
     bindM (queue_a 0 [''opcode'' \<mapsto> 0, ''size'' \<mapsto> 4, ''address'' \<mapsto> 0x3000]) (\<lambda>_.
     bindM (change_a 0 Map.empty) (\<lambda>_.
     bindM (change_a 0 [''address'' \<mapsto> 0x3000]) (\<lambda>_. run_directed eval)))"

definition a_multibeat_ctrl_const :: "'d eval \<Rightarrow> ('d tl_sim, unit) prog" where
  "a_multibeat_ctrl_const eval =
     bindM (queue_a 0 [''opcode'' \<mapsto> 0, ''size'' \<mapsto> 4]) (\<lambda>_.
     bindM (change_a 0 Map.empty) (\<lambda>_.
     bindM (change_a 0 [''size'' \<mapsto> 3]) (\<lambda>_. run_directed eval)))"

text \<open>\<open>tl_message<tl_d> response(device.d, request, false)\<close>, and its first beat is sent.\<close>

definition respond_by_hand :: "nat \<Rightarrow> tl_a \<Rightarrow> ('d tl_sim, unit) prog" where
  "respond_by_hand i request =
     on_device_d i (bindM (message_d_of_a request False) (\<lambda>response.
       bindM (randomly (next_beat_d False response)) (\<lambda>(beat, response'). send beat)))"

definition a_too_many_beats :: "'d eval \<Rightarrow> ('d tl_sim, unit) prog" where
  "a_too_many_beats eval =
     bindM (new_request 0 [''opcode'' \<mapsto> 0, ''size'' \<mapsto> 4]) (\<lambda>request.
     bindM (on_host_a 0 (send request)) (\<lambda>_.
     bindM (await_a eval 0) (\<lambda>received.
     bindM (assertM (a_data received = a_data request)) (\<lambda>_.
     let request2 = next_in_burst 0x87654321 request in
     bindM (on_host_a 0 (send request2)) (\<lambda>_.
     bindM (next_cycle eval) (\<lambda>_.
     bindM (await_a eval 0) (\<lambda>received2.
     bindM (assertM (a_data received2 = a_data request2)) (\<lambda>_.
     let request3 = next_in_burst 0x18273645 request2 in
     bindM (on_host_a 0 (send request3)) (\<lambda>_.
     bindM (next_cycle eval) (\<lambda>_.
     bindM (await_a eval 0) (\<lambda>received3.
     bindM (assertM (a_data received3 = a_data request3)) (\<lambda>_.
     bindM (respond_by_hand 0 received3) (\<lambda>_.
     bindM (await_d eval 0) (\<lambda>_. ret ()))))))))))))))"

definition a_too_few_beats :: "'d eval \<Rightarrow> ('d tl_sim, unit) prog" where
  "a_too_few_beats eval =
     bindM (new_request 0 [''opcode'' \<mapsto> 0, ''size'' \<mapsto> 4]) (\<lambda>request.
     bindM (on_host_a 0 (send request)) (\<lambda>_.
     bindM (await_a eval 0) (\<lambda>received.
     bindM (assertM (a_data received = a_data request)) (\<lambda>_.
     bindM (respond_by_hand 0 received) (\<lambda>_.
     bindM (await_d eval 0) (\<lambda>_. ret ()))))))"

definition a_noncontiguous_mask :: "'d eval \<Rightarrow> ('d tl_sim, unit) prog" where
  "a_noncontiguous_mask eval =
     bindM (queue_a 0 [''opcode'' \<mapsto> 4, ''size'' \<mapsto> 2, ''mask'' \<mapsto> 0x33]) (\<lambda>_. run_directed eval)"

definition a_multibeat_bad_mask :: "'d eval \<Rightarrow> ('d tl_sim, unit) prog" where
  "a_multibeat_bad_mask eval =
     bindM (queue_a 0 [''opcode'' \<mapsto> 0, ''size'' \<mapsto> 4]) (\<lambda>_.
     bindM (change_a 0 Map.empty) (\<lambda>_.
     bindM (change_a 0 [''mask'' \<mapsto> 0xF0]) (\<lambda>_. run_directed eval)))"

definition a_misaligned_mask :: "'d eval \<Rightarrow> ('d tl_sim, unit) prog" where
  "a_misaligned_mask eval =
     bindM (queue_a 0 [''opcode'' \<mapsto> 0, ''size'' \<mapsto> 0, ''address'' \<mapsto> 0x3001, ''mask'' \<mapsto> 0x4]) (\<lambda>_.
     run_directed eval)"

definition a_corrupt_without_payload :: "'d eval \<Rightarrow> ('d tl_sim, unit) prog" where
  "a_corrupt_without_payload eval =
     bindM (queue_a 0 [''opcode'' \<mapsto> 4, ''corrupt'' \<mapsto> 1]) (\<lambda>_. run_directed eval)"

definition d_illegal_opcode :: "'d eval \<Rightarrow> ('d tl_sim, unit) prog" where
  "d_illegal_opcode eval =
     bindM (queue_a 0 [''opcode'' \<mapsto> 0]) (\<lambda>_. bindM (change_d 0 [''opcode'' \<mapsto> 2]) (\<lambda>_. run_directed eval))"

definition d_illegal_param :: "'d eval \<Rightarrow> ('d tl_sim, unit) prog" where
  "d_illegal_param eval =
     bindM (queue_a 0 [''opcode'' \<mapsto> 0]) (\<lambda>_. bindM (change_d 0 [''param'' \<mapsto> 2]) (\<lambda>_. run_directed eval))"

definition d_size_mismatch :: "'d eval \<Rightarrow> ('d tl_sim, unit) prog" where
  "d_size_mismatch eval =
     bindM (queue_a 0 [''size'' \<mapsto> 3]) (\<lambda>_. bindM (change_d 0 [''size'' \<mapsto> 2]) (\<lambda>_. run_directed eval))"

definition d_too_many_beats :: "'d eval \<Rightarrow> ('d tl_sim, unit) prog" where
  "d_too_many_beats eval =
     bindM (queue_a 0 [''opcode'' \<mapsto> 4, ''size'' \<mapsto> 4, ''address'' \<mapsto> 0x3000]) (\<lambda>_.
     bindM (change_d 0 Map.empty) (\<lambda>_.
     bindM (change_d 0 [''duplicate_beat'' \<mapsto> 0]) (\<lambda>_.
     bindM (change_d 0 [''address'' \<mapsto> 0x3010]) (\<lambda>_. run_directed eval))))"

definition d_too_few_beats :: "'d eval \<Rightarrow> ('d tl_sim, unit) prog" where
  "d_too_few_beats eval =
     bindM (queue_a 0 [''opcode'' \<mapsto> 4, ''size'' \<mapsto> 4]) (\<lambda>_.
     bindM (change_d 0 Map.empty) (\<lambda>_.
     bindM (change_d 0 [''drop_beat'' \<mapsto> 0]) (\<lambda>_. run_directed eval)))"

definition d_response_without_request :: "'d eval \<Rightarrow> ('d tl_sim, unit) prog" where
  "d_response_without_request eval =
     bindM (queue_a 0 Map.empty) (\<lambda>_. bindM (change_d 0 [''source'' \<mapsto> 1]) (\<lambda>_. run_directed eval))"

definition d_denied_without_corrupt :: "'d eval \<Rightarrow> ('d tl_sim, unit) prog" where
  "d_denied_without_corrupt eval =
     bindM (queue_a 0 [''opcode'' \<mapsto> 4]) (\<lambda>_.
     bindM (change_d 0 [''denied'' \<mapsto> 1, ''corrupt'' \<mapsto> 0]) (\<lambda>_. run_directed eval))"

definition tests :: "'d eval \<Rightarrow> 'd tl_test list" where
  "tests eval =
     [(''All tests which should trigger no assertions'', all_passing_tests eval),
      (''Valid write operation (should pass)'', valid_write_operation eval),
      (''Valid read operation (should pass)'', valid_read_operation eval),
      (''Non-default host/device (should pass)'', valid_dev1_operation eval),
      (''Concurrent requests (should pass)'', multiple_valid_requests eval),
      (''Multibeat request (should pass)'', multibeat_tlc eval),
      (''Multibeat request on TL-UL (should pass)'', multibeat_tlul eval),
      (''Request with payload is marked corrupt (should pass)'', a_corrupt_payload eval),
      (''Illegal opcode on A channel'', a_illegal_opcode eval),
      (''Illegal parameter on A channel'', a_illegal_param eval),
      (''Request size smaller than mask'', a_size_too_small eval),
      (''Request size doesn'' @ [CHR 0x27] @ ''t match mask for \"full\" access'', a_size_mask_mismatch eval),
      (''Misaligned request address'', a_unaligned_address eval),
      (''Multibeat requests must increment the address'', a_multibeat_addr_inc eval),
      (''Multibeat requests must keep control signals constant'', a_multibeat_ctrl_const eval),
      (''Multibeat request with too many beats'', a_too_many_beats eval),
      (''Multibeat request with too few beats'', a_too_few_beats eval),
      (''Noncontiguous mask for a \"full\" request'', a_noncontiguous_mask eval),
      (''Multibeat request with incomplete mask'', a_multibeat_bad_mask eval),
      (''Mask is correct size but in wrong position'', a_misaligned_mask eval),
      (''Request without payload is marked corrupt'', a_corrupt_without_payload eval),
      (''Illegal opcode on D channel'', d_illegal_opcode eval),
      (''Illegal parameter on D channel'', d_illegal_param eval),
      (''Response size differs from request size'', d_size_mismatch eval),
      (''Multibeat response with too many beats'', d_too_many_beats eval),
      (''Multibeat response with too few beats'', d_too_few_beats eval),
      (''Response received with no matching request'', d_response_without_request eval),
      (''Response denied but not marked corrupt'', d_denied_without_corrupt eval)]"

section \<open>The invariant under the tests\<close>

lemma preserves_readonly: "readonly m \<Longrightarrow> preserves (component K) m"
  unfolding preserves_component readonly_def by (metis snd_conv)

lemma preserves_on_host:
  assumes "preserves (component host_ok) m"
  shows "preserves bench_ok (on_host i m)"
  unfolding preserves_def
proof (intro allI impI)
  fix s :: "'d tl_sim"
  assume s: "bench_ok s"
  obtain r g h where m: "m (tl_rng s, tl_hosts s ! i) = (r, (g, h))" by (metis prod_cases3)
  then have "i < length (tl_hosts s) \<Longrightarrow> host_ok h"
    using assms s unfolding preserves_component bench_ok_def by (meson nth_mem)
  then show "bench_ok (snd (on_host i m s))"
    using s m by (auto simp: on_host_def bench_ok_def dest: set_update_subset_insert [THEN subsetD])
qed

lemma preserves_on_device:
  assumes "preserves (component device_ok) m"
  shows "preserves bench_ok (on_device i m)"
  unfolding preserves_def
proof (intro allI impI)
  fix s :: "'d tl_sim"
  assume s: "bench_ok s"
  obtain r g v where m: "m (tl_rng s, tl_devices s ! i) = (r, (g, v))" by (metis prod_cases3)
  then have "i < length (tl_devices s) \<Longrightarrow> device_ok v"
    using assms s unfolding preserves_component bench_ok_def by (meson nth_mem)
  then show "bench_ok (snd (on_device i m s))"
    using s m by (auto simp: on_device_def bench_ok_def dest: set_update_subset_insert [THEN subsetD])
qed

lemma preserves_on_host_a: "preserves (component ok_a) m \<Longrightarrow> preserves bench_ok (on_host_a i m)"
  unfolding on_host_a_def by (intro preserves_on_host host_parts)

lemma preserves_on_device_d: "preserves (component ok_d) m \<Longrightarrow> preserves bench_ok (on_device_d i m)"
  unfolding on_device_d_def by (intro preserves_on_device device_parts)

lemma message_a_readonly: "readonly (message_a net rnd u)"
  unfolding message_a_def sized_message_def Let_def by (intro readonly_intros)

lemma new_request_ok [preserves_intros]: "preserves bench_ok (new_request i u)"
  unfolding new_request_def
  by (intro preserves_intros preserves_on_host_a preserves_readonly readonly_intros message_a_readonly)

lemma send_a_ok: "preserves (component ok_a) (send x)"
  unfolding send_def
proof (rule preserves_triple, rule triple_bind_readonly, intro readonly_intros, assumption)
  fix ep
  show "triple ok_a ok_a (bindM (of_sum (message_given ep x 1)) (\<lambda>m. change (push_message m))) (\<lambda>_. ok_a)"
    by (rule triple_bind [where R = "\<lambda>m s. ok_a s \<and> fresh (\<lambda>_. True) m \<and> complete m"], rule triple_of_sum)
      (auto simp: message_given_def new_message_base_def fresh_def msg_ok_def complete_def split: if_splits
        intro!: triple_intros sender_ok_push)
qed

lemma preserves_start: "preserves (component ok_a) (start_transaction i)"
  by (rule preserves_triple, rule triple_start_transaction) simp

lemma host_steps_ok [preserves_intros]:
  "preserves bench_ok (start_and_send i request)" "preserves bench_ok (on_host_a i (send request))"
  "preserves bench_ok (queue_a i u)"
  unfolding start_and_send_def queue_a_def
  by (intro preserves_intros preserves_on_host_a preserves_start send_a_ok preserves_triple queue_request_a_ok)+

lemma change_next_beat_ok:
  "plain_updates u \<Longrightarrow> ok_a s \<Longrightarrow> ok_a (change_next_beat u s)" "plain_updates u \<Longrightarrow> ok_d d \<Longrightarrow> ok_d (change_next_beat u d)"
  by (auto simp: sender_ok_def change_next_beat_def get_valid_def)

lemma changes_ok:
  "plain_updates u \<Longrightarrow> preserves bench_ok (change_a i u)" "plain_updates u \<Longrightarrow> preserves bench_ok (change_d i u)"
  unfolding change_a_def change_d_def
  by (intro preserves_on_host_a preserves_on_device_d preserves_steps change_next_beat_ok; assumption)+

lemma await_loop_ok: "network_eval eval \<Longrightarrow> preserves bench_ok (await_loop eval p n)"
  by (induction n) (simp_all, (intro preserves_intros next_cycle_ok | assumption)+)

lemma awaits_ok:
  assumes "network_eval eval"
  shows "preserves bench_ok (await_a eval i)" "preserves bench_ok (await_d eval i)"
proof -
  have a: "bench_ok (s\<lparr>tl_devices := (tl_devices s)[i := (tl_devices s ! i)\<lparr>v_a := r\<rparr>]\<rparr>)" if "bench_ok s" for s :: "'a tl_sim" and r
    using that by (cases "i < length (tl_devices s)")
      (auto simp: bench_ok_def list_update_beyond not_less dest: set_update_subset_insert [THEN subsetD])
  have d: "bench_ok (s\<lparr>tl_hosts := (tl_hosts s)[i := (tl_hosts s ! i)\<lparr>h_d := r\<rparr>]\<rparr>)" if "bench_ok s" for s :: "'a tl_sim" and r
    using that by (cases "i < length (tl_hosts s)")
      (auto simp: bench_ok_def list_update_beyond not_less dest: set_update_subset_insert [THEN subsetD])
  show "preserves bench_ok (await_a eval i)" "preserves bench_ok (await_d eval i)"
    unfolding await_a_def await_d_def await_def
    by (intro preserves_intros preserves_on_host preserves_on_device await_loop_ok assms a d; assumption)+
qed

lemma address_in_ok [preserves_intros]: "preserves bench_ok (address_in i)"
  unfolding address_in_def by (intro preserves_intros)

lemmas test_steps_ok = awaits_ok next_cycle_ok tl_run_ok changes_ok preserves_intros

lemma passing_tests_ok:
  assumes "network_eval eval"
  shows "preserves bench_ok (valid_write_operation eval)" "preserves bench_ok (valid_read_operation eval)"
    "preserves bench_ok (valid_dev1_operation eval)" "preserves bench_ok (multiple_valid_requests eval)"
    "preserves bench_ok (multibeat_tlc eval)" "preserves bench_ok (multibeat_tlul eval)"
    "preserves bench_ok (a_corrupt_payload eval)"
  unfolding valid_write_operation_def valid_read_operation_def valid_dev1_operation_def multiple_valid_requests_def
    multibeat_tlc_def multibeat_tlul_def a_corrupt_payload_def Let_def
  by (intro test_steps_ok assms; simp add: plain_updates_def)+

lemma failing_tests_ok:
  assumes "network_eval eval"
  shows "preserves bench_ok (a_illegal_opcode eval)" "preserves bench_ok (a_illegal_param eval)"
    "preserves bench_ok (a_size_too_small eval)" "preserves bench_ok (a_size_mask_mismatch eval)"
    "preserves bench_ok (a_unaligned_address eval)" "preserves bench_ok (a_multibeat_addr_inc eval)"
    "preserves bench_ok (a_multibeat_ctrl_const eval)" "preserves bench_ok (a_noncontiguous_mask eval)"
    "preserves bench_ok (a_multibeat_bad_mask eval)" "preserves bench_ok (a_misaligned_mask eval)"
    "preserves bench_ok (a_corrupt_without_payload eval)" "preserves bench_ok (d_illegal_opcode eval)"
    "preserves bench_ok (d_illegal_param eval)" "preserves bench_ok (d_size_mismatch eval)"
    "preserves bench_ok (d_response_without_request eval)" "preserves bench_ok (d_denied_without_corrupt eval)"
  unfolding a_illegal_opcode_def a_illegal_param_def a_size_too_small_def a_size_mask_mismatch_def
    a_unaligned_address_def a_multibeat_addr_inc_def a_multibeat_ctrl_const_def a_noncontiguous_mask_def
    a_multibeat_bad_mask_def a_misaligned_mask_def a_corrupt_without_payload_def d_illegal_opcode_def
    d_illegal_param_def d_size_mismatch_def d_response_without_request_def d_denied_without_corrupt_def run_directed_def
  by (intro test_steps_ok assms; simp add: plain_updates_def)+

text \<open>
  The exceptions are the tests that break the protocol below the level of messages: two of them
  duplicate or drop a beat, and two answer by hand while a response of the device may be
  unfinished.
\<close>

definition unruly_tests :: "nat set" where
  "unruly_tests = {15, 16, 24, 25}"

lemma tests_ok:
  assumes "network_eval eval" "t < length (tests eval)" "t \<notin> unruly_tests"
  shows "preserves bench_ok (snd (tests eval ! t))"
proof -
  have "preserves bench_ok (all_passing_tests eval)"
    unfolding all_passing_tests_def by (intro preserves_intros passing_tests_ok assms(1))
  moreover have "t < 28" using assms(2) by (simp add: tests_def)
  then have "t \<in> {0, 1, 2, 3, 4, 5, 6, 7, 8, 9, 10, 11, 12, 13, 14, 15, 16, 17, 18, 19, 20, 21, 22, 23, 24, 25, 26, 27}"
    by (simp, presburger)
  ultimately show ?thesis
    using assms(3) passing_tests_ok [OF assms(1)] failing_tests_ok [OF assms(1)]
    by (elim insertE emptyE) (simp_all add: tests_def unruly_tests_def)
qed

text \<open>
  C30: The invariant of the whole test bench. Let the network under test be anything that only
  changes the signals it drives, and let the ends start with nothing on the channels that they
  drive. Then after the main program, for every command line that selects none of the tests 15, 16, 24 and
  25, for every configuration and all random values, and whether it ends normally, by an exception or by a failed assertion, every sender of
  every host and device is in its invariant: the counters of its messages are in order, only the
  front message is in progress, no message but the last of a response channel is incomplete, the
  output buffer is locked exactly while that one is, a valid beat belongs to the front message, and
  probes and acknowledgements of grants have a single beat. The four tests that are excluded
  (\<open>unruly_tests\<close>) duplicate or drop a beat or answer by hand.
\<close>

theorem bench_invariant:
  assumes "network_eval eval" "network_eval final"
    and "\<forall>e. \<not> wire_valid (wa e) \<and> \<not> wire_valid (wc e) \<and> \<not> wire_valid (we e)"
    and "\<forall>e. \<not> wire_valid (xb e) \<and> \<not> wire_valid (xd e)"
    and "set (tl_tests_to_run (snd (tl_parse_args (map fst (tests eval)) seeded argv (new_tl_simulation name u))))
      \<inter> unruly_tests = {}"
  shows "bench_ok (snd (tl_main eval final (tests eval) seeded fs cfg
    (\<lambda>e. new_host e (wa e) (wb e) (wc e) (wd e) (we e)) (\<lambda>e. new_device e (xa e) (xb e) (xc e) (xd e) (xe e))
    argv (new_tl_simulation name u)))"
proof -
  let ?parse = "tl_parse_args (map fst (tests eval)) seeded argv"
  obtain r s1 where s1: "?parse (new_tl_simulation name u) = (r, s1)" by fastforce
  have "bench_ok (new_tl_simulation name u)" by (simp add: new_tl_simulation_def bench_ok_def)
  from preservesD [OF tl_parse_args_ok s1 this] have ok: "bench_ok s1" .
  show ?thesis
  proof (cases r)
    case (Inl e)
    then show ?thesis using s1 ok by (simp add: tl_main_bench bindM_apply)
  next
    case (Inr x)
    have "bench_ok (snd (tl_bench_run eval final (tests eval) fs cfg
        (\<lambda>e. new_host e (wa e) (wb e) (wc e) (wd e) (we e)) (\<lambda>e. new_device e (xa e) (xb e) (xc e) (xd e) (xe e)) s1))"
      by (rule tl_bench_run_ok) (use assms s1 ok in \<open>auto intro: new_ends_ok tests_ok\<close>)
    then show ?thesis using s1 Inr by (simp add: tl_main_bench bindM_apply)
  qed
qed

definition idle_bench :: "unit tl_sim" where
  "idle_bench =
     \<lparr>tl_base = idle_sim, tl_rng = fixed_rng, tl_hosts = [], tl_devices = [], tl_dut = (), tl_clk = False,
      tl_rst_n = False, tl_randomise = False, tl_duration = 0, tl_tests_to_run = [], tl_config_file = [],
      tl_garbage = 0\<rparr>"

lemma sees_refl [simp]: "sender_sees s s" "receiver_sees r r"
proof -
  show "sender_sees s s" unfolding sender_sees_def by (rule exI [of _ "wire_ready (channel s)"]) simp
  show "receiver_sees r r"
    unfolding receiver_sees_def
    by (rule exI [of _ "wire_valid (r_channel r)"], rule exI [of _ "wire_data (r_channel r)"]) simp
qed

lemma idle_network: "network_eval (\<lambda>s. s)"
proof -
  have "host_sees h h" "device_sees v v" for h v by (simp_all add: host_sees_def device_sees_def)
  moreover have "s = s\<lparr>tl_hosts := tl_hosts s, tl_devices := tl_devices s, tl_dut := tl_dut s\<rparr>" for s :: "'d tl_sim" by simp
  ultimately show ?thesis unfolding network_eval_def by (metis list.rel_refl)
qed

lemma idle_bench_parsed:
  "\<exists>s. tl_parse_args (map fst (tests (\<lambda>s :: unit tl_sim. s))) (\<lambda>_ _. 0) [''3''] (new_tl_simulation ''bench'' idle_bench) = (Inr (), s) \<and>
     tl_tests_to_run s = [3]"
proof -
  have args: "sim_args (tl_base (new_tl_simulation ''bench'' idle_bench)) = tilelink_args ''bench'' (base_args vcd_build)"
    by (simp add: new_tl_simulation_def new_Simulation_def idle_bench_def idle_sim_def)
  have known: "map_of (arg_info (tilelink_args ''bench'' (base_args vcd_build))) ''3'' = None"
    "args_found (tilelink_args ''bench'' (base_args vcd_build)) = []"
    by (simp_all add: tilelink_args_def base_args_def add_argument_def set_description_def new_argument_parser_def vcd_build_def)
  have at: "atoi ''3'' = Inr 3" using atoi_decimal [of 3] by (simp add: decimal.simps char_of_def bit_0)
  show ?thesis
    using args known at
    by (simp add: tl_parse_args_def tl_when_arg_def Simulation_parse_args_def on_base_def parse_args_def split_argument_def
        when_arg_def when_build_def found_arg_def get_args_parsed_def prog_simps tests_def new_tl_simulation_def)
qed

definition idle_host :: "endpoint \<Rightarrow> tl_host" where
  "idle_host e = new_host e (idle_wires example_put)
     (idle_wires \<lparr>b_opcode = ProbeBlock, b_param = 0, b_size = 0, b_source = 0, b_address = 0\<rparr>)
     (idle_wires \<lparr>c_opcode = ProbeAck, c_param = 0, c_size = 0, c_source = 0, c_address = 0, c_corrupt = False, c_data = 0\<rparr>)
     (channel example_d) (idle_wires \<lparr>e_sink = 0\<rparr>)"

definition idle_device :: "endpoint \<Rightarrow> tl_device" where
  "idle_device e = new_device e (idle_wires example_put)
     (idle_wires \<lparr>b_opcode = ProbeBlock, b_param = 0, b_size = 0, b_source = 0, b_address = 0\<rparr>)
     (idle_wires \<lparr>c_opcode = ProbeAck, c_param = 0, c_size = 0, c_source = 0, c_address = 0, c_corrupt = False, c_data = 0\<rparr>)
     (channel example_d) (idle_wires \<lparr>e_sink = 0\<rparr>)"

definition unset_config :: tl_endpoint_config_t where
  "unset_config = \<lparr>cf_protocol = TL_C, cf_data_width = 64, cf_first_id = 0, cf_last_id = 3, cf_max_size = 5,
     cf_fifo = False, cf_can_deny = True, cf_bases = [], cf_masks = [], cf_targets = []\<rparr>"

definition small_config :: string where
  "small_config = ''hosts:'' @ newline @ ''  - Protocol: TL-C'' @ newline @ ''devices:'' @ newline @ ''  - Protocol: TL-UH'' @ newline"

theorem bench_invariant_witness:
  "bench_ok (snd (tl_main (\<lambda>s. s) (\<lambda>s. s) (tests (\<lambda>s :: unit tl_sim. s)) (\<lambda>_ _. 0)
    [''configs/default/config.yaml'' \<mapsto> small_config] unset_config idle_host idle_device
    [''3''] (new_tl_simulation ''bench'' idle_bench)))"
proof -
  obtain s where "tl_parse_args (map fst (tests (\<lambda>s :: unit tl_sim. s))) (\<lambda>_ _. 0) [''3''] (new_tl_simulation ''bench'' idle_bench) = (Inr (), s)"
    "tl_tests_to_run s = [3]" using idle_bench_parsed by blast
  then have selected: "set (tl_tests_to_run (snd (tl_parse_args (map fst (tests (\<lambda>s :: unit tl_sim. s))) (\<lambda>_ _. 0) [''3'']
      (new_tl_simulation ''bench'' idle_bench)))) \<inter> unruly_tests = {}"
    by (simp add: unruly_tests_def)
  show ?thesis
    unfolding idle_host_def [abs_def] idle_device_def [abs_def]
    by (rule bench_invariant [OF idle_network idle_network _ _ selected])
      (simp_all add: idle_wires_def example_d_def new_sender_def sender.extend_def)
qed

end
