(* ===== verification/TL_Printing.thy ===== *)
theory TL_Printing
  imports TL_Endpoints Simulation
begin

text \<open>
  The text of TileLink messages in the log (\<open>tl_printing.cc\<close>) and the names of channel ends. An
  output stream keeps its flags and a pending width between insertions, and the text depends on
  them.
\<close>

section \<open>Streams\<close>

record ostream =
  os_text :: string
  os_width :: nat
  os_left :: bool
  os_hex :: bool

definition setw :: "nat \<Rightarrow> ostream \<Rightarrow> ostream" where
  "setw n os = os\<lparr>os_width := n\<rparr>"

definition left :: "ostream \<Rightarrow> ostream" where
  "left os = os\<lparr>os_left := True\<rparr>"

definition hex :: "ostream \<Rightarrow> ostream" where
  "hex os = os\<lparr>os_hex := True\<rparr>"

definition dec :: "ostream \<Rightarrow> ostream" where
  "dec os = os\<lparr>os_hex := False\<rparr>"

text \<open>Every insertion uses the width and resets it.\<close>

definition pad_space :: "nat \<Rightarrow> bool \<Rightarrow> string \<Rightarrow> string" where
  "pad_space w at_left t =
     (let fill = replicate (w - length t) (CHR '' '') in if at_left then t @ fill else fill @ t)"

definition put_text :: "string \<Rightarrow> ostream \<Rightarrow> ostream" where
  "put_text t os = os\<lparr>os_text := os_text os @ pad_space (os_width os) (os_left os) t, os_width := 0\<rparr>"

definition put_int :: "int \<Rightarrow> ostream \<Rightarrow> ostream" where
  "put_int i os = put_text (if os_hex os then hex_int i else decimal_int i) os"

definition put_u64 :: "u64 \<Rightarrow> ostream \<Rightarrow> ostream" where
  "put_u64 x os = put_text (if os_hex os then to_hex (unat x) else decimal (unat x)) os"

definition put_bool :: "bool \<Rightarrow> ostream \<Rightarrow> ostream" where
  "put_bool b os = put_text (if b then ''1'' else ''0'') os"

section \<open>Messages\<close>

text \<open>An opcode without a name inserts nothing, and leaves the width for the next insertion.\<close>

fun put_a_op :: "tl_a_op_e \<Rightarrow> ostream \<Rightarrow> ostream" where
  "put_a_op PutFullData os = put_text ''PutFullData'' os"
| "put_a_op PutPartialData os = put_text ''PutPartialData'' os"
| "put_a_op ArithmeticData os = put_text ''ArithmeticData'' os"
| "put_a_op LogicalData os = put_text ''LogicalData'' os"
| "put_a_op Get os = put_text ''Get'' os"
| "put_a_op Intent os = put_text ''Intent'' os"
| "put_a_op AcquireBlock os = put_text ''AcquireBlock'' os"
| "put_a_op AcquirePerm os = put_text ''AcquirePerm'' os"
| "put_a_op (A_unnamed i) os = os"

fun put_b_op :: "tl_b_op_e \<Rightarrow> ostream \<Rightarrow> ostream" where
  "put_b_op ProbeBlock os = put_text ''ProbeBlock'' os"
| "put_b_op ProbePerm os = put_text ''ProbePerm'' os"
| "put_b_op (B_unnamed i) os = os"

fun put_c_op :: "tl_c_op_e \<Rightarrow> ostream \<Rightarrow> ostream" where
  "put_c_op ProbeAck os = put_text ''ProbeAck'' os"
| "put_c_op ProbeAckData os = put_text ''ProbeAckData'' os"
| "put_c_op Release os = put_text ''Release'' os"
| "put_c_op ReleaseData os = put_text ''ReleaseData'' os"
| "put_c_op (C_unnamed i) os = os"

fun put_d_op :: "tl_d_op_e \<Rightarrow> ostream \<Rightarrow> ostream" where
  "put_d_op AccessAck os = put_text ''AccessAck'' os"
| "put_d_op AccessAckData os = put_text ''AccessAckData'' os"
| "put_d_op HintAck os = put_text ''HintAck'' os"
| "put_d_op Grant os = put_text ''Grant'' os"
| "put_d_op GrantData os = put_text ''GrantData'' os"
| "put_d_op ReleaseAck os = put_text ''ReleaseAck'' os"
| "put_d_op (D_unnamed i) os = os"

text \<open>A chain of insertions, from left to right.\<close>

abbreviation chain :: "(ostream \<Rightarrow> ostream) list \<Rightarrow> ostream \<Rightarrow> ostream" where
  "chain fs os \<equiv> foldl (\<lambda>os f. f os) os fs"

definition put_a :: "tl_a \<Rightarrow> ostream \<Rightarrow> ostream" where
  "put_a x = chain
     [put_text ''op:'', setw 14, left, put_a_op (a_opcode x),
      put_text '' param:'', put_int (a_param x),
      put_text '' size:'', put_int (a_size x),
      put_text '' src:'', put_int (a_source x),
      put_text '' addr:0x'', setw 8, hex, put_u64 (a_address x), dec,
      put_text '' mask:0x'', setw 2, hex, put_int (a_mask x), dec,
      put_text '' corrupt:'', put_bool (a_corrupt x),
      put_text '' data:0x'', setw 16, hex, put_u64 (a_data x), dec]"

definition put_b :: "tl_b \<Rightarrow> ostream \<Rightarrow> ostream" where
  "put_b x = chain
     [put_text ''op:'', setw 14, left, put_b_op (b_opcode x),
      put_text '' param:'', put_int (b_param x),
      put_text '' size:'', put_int (b_size x),
      put_text '' src:'', put_int (b_source x),
      put_text '' addr:0x'', setw 8, hex, put_u64 (b_address x), dec]"

definition put_c :: "tl_c \<Rightarrow> ostream \<Rightarrow> ostream" where
  "put_c x = chain
     [put_text ''op:'', setw 14, left, put_c_op (c_opcode x),
      put_text '' param:'', put_int (c_param x),
      put_text '' size:'', put_int (c_size x),
      put_text '' src:'', put_int (c_source x),
      put_text '' addr:0x'', setw 8, hex, put_u64 (c_address x), dec,
      put_text '' corrupt:'', put_bool (c_corrupt x),
      put_text '' data:0x'', setw 16, hex, put_u64 (c_data x), dec]"

definition put_d :: "tl_d \<Rightarrow> ostream \<Rightarrow> ostream" where
  "put_d x = chain
     [put_text ''op:'', setw 14, left, put_d_op (d_opcode x),
      put_text '' param:'', put_int (d_param x),
      put_text '' size:'', put_int (d_size x),
      put_text '' src:'', put_int (d_source x),
      put_text '' sink:'', put_int (d_sink x),
      put_text '' denied:'', put_bool (d_denied x),
      put_text '' corrupt:'', put_bool (d_corrupt x),
      put_text '' data:0x'', setw 16, hex, put_u64 (d_data x), dec]"

definition put_e :: "tl_e \<Rightarrow> ostream \<Rightarrow> ostream" where
  "put_e x = chain [put_text '' sink:'', put_int (e_sink x)]"

section \<open>Names of channel ends\<close>

datatype channel_letter = Channel_A | Channel_B | Channel_C | Channel_D | Channel_E

fun channel_name :: "channel_letter \<Rightarrow> string" where
  "channel_name Channel_A = ''A''"
| "channel_name Channel_B = ''B''"
| "channel_name Channel_C = ''C''"
| "channel_name Channel_D = ''D''"
| "channel_name Channel_E = ''E''"

definition new_stream :: ostream where
  "new_stream = \<lparr>os_text = [], os_width = 0, os_left = False, os_hex = False\<rparr>"

definition endpoint_name :: "string \<Rightarrow> endpoint \<Rightarrow> string" where
  "endpoint_name type ep =
     os_text (chain [setw 6, left, put_text type, put_text '' '', put_int (ep_position ep)] new_stream)"

definition channel_end_name :: "string \<Rightarrow> endpoint \<Rightarrow> channel_letter \<Rightarrow> string" where
  "channel_end_name type ep ch = endpoint_name type ep @ channel_name ch"

section \<open>Reading a line back\<close>

definition one_word :: "string \<Rightarrow> bool" where
  "one_word t \<longleftrightarrow> CHR '' '' \<notin> set t"

definition blank_next :: "string \<Rightarrow> bool" where
  "blank_next r \<longleftrightarrow> r = [] \<or> hd r = CHR '' ''"

lemma word_next_eq:
  assumes "one_word v" "one_word v'" "blank_next r" "blank_next r'"
  shows "v @ r = v' @ r' \<longleftrightarrow> v = v' \<and> r = r'"
proof
  assume "v @ r = v' @ r'"
  moreover have "takeWhile (\<lambda>c. c \<noteq> CHR '' '') (t @ z) = t" if "one_word t" "blank_next z" for t z
    using that by (cases z) (auto simp: one_word_def blank_next_def takeWhile_append takeWhile_eq_all_conv)
  ultimately show "v = v' \<and> r = r'" using assms by (metis append_same_eq same_append_eq)
qed simp

lemma pad_space_next_eq:
  assumes "one_word v" "one_word v'" "blank_next r" "blank_next r'"
  shows "pad_space w True v @ r = pad_space w True v' @ r' \<longleftrightarrow> v = v' \<and> r = r'"
proof -
  have b: "blank_next (replicate n (CHR '' '') @ z)" if "blank_next z" for n z
    using that by (cases n) (simp_all add: blank_next_def)
  show ?thesis
    using word_next_eq [OF assms(1,2) b [OF assms(3)] b [OF assms(4)]] by (auto simp: pad_space_def Let_def)
qed

lemma decimal_eq: "decimal m = decimal n \<longleftrightarrow> m = n"
  by (metis digits_value_decimal of_nat_eq_iff)

lemma decimal_int_eq: "decimal_int i = decimal_int j \<longleftrightarrow> i = j"
proof -
  have "CHR ''-'' # t \<noteq> decimal n" for t n
    using digit_not_special [OF hd_decimal [of n]] by (metis list.sel(1))
  then show ?thesis by (auto simp: decimal_int_def decimal_eq) metis+
qed

lemma of_hex_digit: "k < 16 \<Longrightarrow> of_char (hex_digit k) = (if k < 10 then 48 + k else 87 + k :: nat)"
  by (simp add: hex_digit_def)

lemma hex_digit_eq:
  assumes "m < 16" "n < 16"
  shows "hex_digit m = hex_digit n \<longleftrightarrow> m = n"
proof -
  have "k = (if of_char (hex_digit k) < (58 :: nat) then of_char (hex_digit k) - 48 else of_char (hex_digit k) - 87)"
    if "k < 16" for k
    unfolding of_hex_digit [OF that] by simp
  then show ?thesis using assms by metis
qed

lemma to_hex_not_Nil: "to_hex n \<noteq> []"
  by (subst to_hex.simps) simp

lemma to_hex_eq: "to_hex m = to_hex n \<longleftrightarrow> m = n"
proof
  show "to_hex m = to_hex n \<Longrightarrow> m = n"
  proof (induction m arbitrary: n rule: to_hex.induct)
    case (1 m)
    consider "m < 16" "n < 16" | "\<not> m < 16" "\<not> n < 16" | "m < 16 \<longleftrightarrow> \<not> n < 16" by blast
    then show ?case
    proof cases
      case 1
      then show ?thesis using "1.prems" by (simp add: to_hex.simps hex_digit_eq)
    next
      case 2
      then have "to_hex (m div 16) = to_hex (n div 16)" "hex_digit (m mod 16) = hex_digit (n mod 16)"
        using "1.prems" by (simp_all add: to_hex.simps [of m] to_hex.simps [of n])
      then have "m div 16 = n div 16" "m mod 16 = n mod 16" using "1.IH" 2 by (simp_all add: hex_digit_eq)
      then show ?thesis by (metis div_mult_mod_eq)
    next
      case 3
      then show ?thesis
        using "1.prems" to_hex_not_Nil to_hex_not_Nil [symmetric] by (auto simp: to_hex.simps [of m] to_hex.simps [of n] split: if_splits)
    qed
  qed
qed simp

definition c_int :: "int \<Rightarrow> bool" where
  "c_int i \<longleftrightarrow> - (2 ^ 31) \<le> i \<and> i < 2 ^ 31"

lemma hex_int_eq: "c_int i \<Longrightarrow> c_int j \<Longrightarrow> hex_int i = hex_int j \<longleftrightarrow> i = j"
proof -
  have m: "i mod 2 ^ 32 = (if i < 0 then i + 2 ^ 32 else i)" if "c_int i" for i :: int
  proof (cases "i < 0")
    case True
    have "(i + 2 ^ 32) mod 2 ^ 32 = i + 2 ^ 32" using that True by (intro mod_pos_pos_trivial) (simp_all add: c_int_def)
    then show ?thesis using True by simp
  qed (use that in \<open>simp add: c_int_def mod_pos_pos_trivial\<close>)
  show "hex_int i = hex_int j \<longleftrightarrow> i = j" if "c_int i" "c_int j"
    unfolding hex_int_def to_hex_eq m [OF that(1)] m [OF that(2)] using that by (auto simp: c_int_def split: if_splits)
qed

lemma words:
  "one_word (to_hex n)" "one_word (decimal n)" "one_word (decimal_int i)" "one_word (hex_int i)"
proof -
  have h: "hex_digit k \<noteq> CHR '' ''" if "k < 16" for k
  proof
    assume "hex_digit k = CHR '' ''"
    then have "of_char (hex_digit k) = (32 :: nat)" by simp
    then show False unfolding of_hex_digit [OF that] by (simp split: if_splits)
  qed
  show x: "one_word (to_hex n)" for n
    by (induction n rule: to_hex.induct) (subst to_hex.simps, auto simp: one_word_def h h [symmetric])
  show d: "one_word (decimal n)" for n
    using decimal_digits [of n] by (auto simp: one_word_def is_digit_def)
  show "one_word (decimal_int i)" using d by (simp add: decimal_int_def one_word_def)
  show "one_word (hex_int i)" using x by (simp add: hex_int_def)
qed

fun named_a :: "tl_a_op_e \<Rightarrow> bool" where
  "named_a (A_unnamed i) = False" | "named_a oper = True"

fun named_b :: "tl_b_op_e \<Rightarrow> bool" where
  "named_b (B_unnamed i) = False" | "named_b oper = True"

fun named_c :: "tl_c_op_e \<Rightarrow> bool" where
  "named_c (C_unnamed i) = False" | "named_c oper = True"

fun named_d :: "tl_d_op_e \<Rightarrow> bool" where
  "named_d (D_unnamed i) = False" | "named_d oper = True"

definition ints_a :: "tl_a \<Rightarrow> bool" where
  "ints_a x \<longleftrightarrow> c_int (a_param x) \<and> c_int (a_size x) \<and> c_int (a_source x) \<and> c_int (a_mask x)"

definition ints_b :: "tl_b \<Rightarrow> bool" where
  "ints_b x \<longleftrightarrow> c_int (b_param x) \<and> c_int (b_size x) \<and> c_int (b_source x)"

definition ints_c :: "tl_c \<Rightarrow> bool" where
  "ints_c x \<longleftrightarrow> c_int (c_param x) \<and> c_int (c_size x) \<and> c_int (c_source x)"

definition ints_d :: "tl_d \<Rightarrow> bool" where
  "ints_d x \<longleftrightarrow> c_int (d_param x) \<and> c_int (d_size x) \<and> c_int (d_source x) \<and> c_int (d_sink x)"

text \<open>The word that an insertion of each kind adds.\<close>

definition int_word :: "bool \<Rightarrow> int \<Rightarrow> string" where
  "int_word h i = (if h then hex_int i else decimal_int i)"

definition bool_word :: "bool \<Rightarrow> string" where
  "bool_word b = (if b then ''1'' else ''0'')"

definition a_op_word :: "tl_a_op_e \<Rightarrow> string" where
  "a_op_word oper = os_text (put_a_op oper new_stream)"

definition b_op_word :: "tl_b_op_e \<Rightarrow> string" where
  "b_op_word oper = os_text (put_b_op oper new_stream)"

definition c_op_word :: "tl_c_op_e \<Rightarrow> string" where
  "c_op_word oper = os_text (put_c_op oper new_stream)"

definition d_op_word :: "tl_d_op_e \<Rightarrow> string" where
  "d_op_word oper = os_text (put_d_op oper new_stream)"

lemma pad_space_0 [simp]: "pad_space 0 b t = t"
  by (simp add: pad_space_def)

lemma put_op_word:
  "named_a oa \<Longrightarrow> put_a_op oa = put_text (a_op_word oa)" "named_b ob \<Longrightarrow> put_b_op ob = put_text (b_op_word ob)"
  "named_c oc \<Longrightarrow> put_c_op oc = put_text (c_op_word oc)" "named_d od \<Longrightarrow> put_d_op od = put_text (d_op_word od)"
  by ((cases oa; simp add: fun_eq_iff a_op_word_def put_text_def new_stream_def),
     (cases ob; simp add: fun_eq_iff b_op_word_def put_text_def new_stream_def),
     (cases oc; simp add: fun_eq_iff c_op_word_def put_text_def new_stream_def),
     (cases od; simp add: fun_eq_iff d_op_word_def put_text_def new_stream_def))

lemma op_word_eq:
  "named_a oa \<Longrightarrow> named_a oa' \<Longrightarrow> a_op_word oa = a_op_word oa' \<longleftrightarrow> oa = oa'"
  "named_b ob \<Longrightarrow> named_b ob' \<Longrightarrow> b_op_word ob = b_op_word ob' \<longleftrightarrow> ob = ob'"
  "named_c oc \<Longrightarrow> named_c oc' \<Longrightarrow> c_op_word oc = c_op_word oc' \<longleftrightarrow> oc = oc'"
  "named_d od \<Longrightarrow> named_d od' \<Longrightarrow> d_op_word od = d_op_word od' \<longleftrightarrow> od = od'"
  by ((cases oa; cases oa'; simp add: a_op_word_def put_text_def new_stream_def),
     (cases ob; cases ob'; simp add: b_op_word_def put_text_def new_stream_def),
     (cases oc; cases oc'; simp add: c_op_word_def put_text_def new_stream_def),
     (cases od; cases od'; simp add: d_op_word_def put_text_def new_stream_def))

lemma more_words:
  "one_word (a_op_word oa)" "one_word (b_op_word ob)" "one_word (c_op_word oc)" "one_word (d_op_word od)"
  "one_word (int_word h i)" "one_word (bool_word b)"
  by ((cases oa; simp add: one_word_def a_op_word_def put_text_def new_stream_def),
     (cases ob; simp add: one_word_def b_op_word_def put_text_def new_stream_def),
     (cases oc; simp add: one_word_def c_op_word_def put_text_def new_stream_def),
     (cases od; simp add: one_word_def d_op_word_def put_text_def new_stream_def),
     (simp add: int_word_def words),
     (simp add: one_word_def bool_word_def))

lemma word_eqs:
  "c_int i \<Longrightarrow> c_int j \<Longrightarrow> int_word h i = int_word h j \<longleftrightarrow> i = j" "bool_word b = bool_word b' \<longleftrightarrow> b = b'"
  by (simp_all add: int_word_def bool_word_def hex_int_eq decimal_int_eq)

lemma put_words:
  "put_int i os = put_text (int_word (os_hex os) i) os" "put_bool b os = put_text (bool_word b) os"
  by (simp_all add: put_int_def put_bool_def int_word_def bool_word_def)

lemmas stream_defs = put_text_def put_u64_def setw_def left_def hex_def dec_def

lemma put_a_text:
  "named_a (a_opcode x) \<Longrightarrow> os_text (put_a x os) = (os_text os @ pad_space (os_width os) (os_left os) ''op:'') @
     pad_space 14 True (a_op_word (a_opcode x)) @ '' param:'' @ int_word (os_hex os) (a_param x) @
     '' size:'' @ int_word (os_hex os) (a_size x) @ '' src:'' @ int_word (os_hex os) (a_source x) @
     '' addr:0x'' @ pad_space 8 True (to_hex (unat (a_address x))) @
     '' mask:0x'' @ pad_space 2 True (int_word True (a_mask x)) @
     '' corrupt:'' @ bool_word (a_corrupt x) @ '' data:0x'' @ pad_space 16 True (to_hex (unat (a_data x))) @ []"
  by (simp add: put_a_def put_op_word put_words stream_defs)

lemma put_b_text:
  "named_b (b_opcode x) \<Longrightarrow> os_text (put_b x os) = (os_text os @ pad_space (os_width os) (os_left os) ''op:'') @
     pad_space 14 True (b_op_word (b_opcode x)) @ '' param:'' @ int_word (os_hex os) (b_param x) @
     '' size:'' @ int_word (os_hex os) (b_size x) @ '' src:'' @ int_word (os_hex os) (b_source x) @
     '' addr:0x'' @ pad_space 8 True (to_hex (unat (b_address x))) @ []"
  by (simp add: put_b_def put_op_word put_words stream_defs)

lemma put_c_text:
  "named_c (c_opcode x) \<Longrightarrow> os_text (put_c x os) = (os_text os @ pad_space (os_width os) (os_left os) ''op:'') @
     pad_space 14 True (c_op_word (c_opcode x)) @ '' param:'' @ int_word (os_hex os) (c_param x) @
     '' size:'' @ int_word (os_hex os) (c_size x) @ '' src:'' @ int_word (os_hex os) (c_source x) @
     '' addr:0x'' @ pad_space 8 True (to_hex (unat (c_address x))) @
     '' corrupt:'' @ bool_word (c_corrupt x) @ '' data:0x'' @ pad_space 16 True (to_hex (unat (c_data x))) @ []"
  by (simp add: put_c_def put_op_word put_words stream_defs)

lemma put_d_text:
  "named_d (d_opcode x) \<Longrightarrow> os_text (put_d x os) = (os_text os @ pad_space (os_width os) (os_left os) ''op:'') @
     pad_space 14 True (d_op_word (d_opcode x)) @ '' param:'' @ int_word (os_hex os) (d_param x) @
     '' size:'' @ int_word (os_hex os) (d_size x) @ '' src:'' @ int_word (os_hex os) (d_source x) @
     '' sink:'' @ int_word (os_hex os) (d_sink x) @ '' denied:'' @ bool_word (d_denied x) @
     '' corrupt:'' @ bool_word (d_corrupt x) @ '' data:0x'' @ pad_space 16 True (to_hex (unat (d_data x))) @ []"
  by (simp add: put_d_def put_op_word put_words stream_defs)

lemma blank_simps: "blank_next []" "blank_next (CHR '' '' # r)" "blank_next ((CHR '' '' # r) @ z)"
  by (simp_all add: blank_next_def)

lemmas line_eqs = append.assoc same_append_eq blank_simps words more_words word_eqs op_word_eq to_hex_eq word_unat_eq_iff [symmetric]
  word_next_eq [OF more_words(5) more_words(5)] word_next_eq [OF more_words(6) more_words(6)]
  pad_space_next_eq [OF more_words(1) more_words(1)] pad_space_next_eq [OF more_words(2) more_words(2)]
  pad_space_next_eq [OF more_words(3) more_words(3)] pad_space_next_eq [OF more_words(4) more_words(4)]
  pad_space_next_eq [OF more_words(5) more_words(5)] pad_space_next_eq [OF words(1) words(1)]

lemma line_a_eq:
  assumes "named_a (a_opcode x)" "named_a (a_opcode y)" "ints_a x" "ints_a y"
  shows "os_text (put_a x os) = os_text (put_a y os) \<longleftrightarrow> x = y"
  using assms(3,4) unfolding put_a_text [OF assms(1)] put_a_text [OF assms(2)] ints_a_def
  by (simp only: line_eqs assms(1,2)) (auto intro: tl_a.equality)

lemma line_b_eq:
  assumes "named_b (b_opcode x)" "named_b (b_opcode y)" "ints_b x" "ints_b y"
  shows "os_text (put_b x os) = os_text (put_b y os) \<longleftrightarrow> x = y"
  using assms(3,4) unfolding put_b_text [OF assms(1)] put_b_text [OF assms(2)] ints_b_def
  by (simp only: line_eqs assms(1,2)) (auto intro: tl_b.equality)

lemma line_c_eq:
  assumes "named_c (c_opcode x)" "named_c (c_opcode y)" "ints_c x" "ints_c y"
  shows "os_text (put_c x os) = os_text (put_c y os) \<longleftrightarrow> x = y"
  using assms(3,4) unfolding put_c_text [OF assms(1)] put_c_text [OF assms(2)] ints_c_def
  by (simp only: line_eqs assms(1,2)) (auto intro: tl_c.equality)

lemma line_d_eq:
  assumes "named_d (d_opcode x)" "named_d (d_opcode y)" "ints_d x" "ints_d y"
  shows "os_text (put_d x os) = os_text (put_d y os) \<longleftrightarrow> x = y"
  using assms(3,4) unfolding put_d_text [OF assms(1)] put_d_text [OF assms(2)] ints_d_def
  by (simp only: line_eqs assms(1,2)) (auto intro: tl_d.equality)

lemma line_e_eq: "c_int (e_sink x) \<Longrightarrow> c_int (e_sink y) \<Longrightarrow> os_text (put_e x os) = os_text (put_e y os) \<longleftrightarrow> x = y"
  by (auto simp: put_e_def put_words put_text_def word_eqs intro: tl_e.equality)

text \<open>
  A line of the log determines the message. On any stream, two beats of a channel whose
  opcodes have names and whose members are values of \<open>int\<close> leave the same text exactly if they are
  equal; the text does not have to be split at fixed columns. Opcodes without a name leave the
  same text, whatever their value.
\<close>

theorem log_text_determines_beat:
  "(named_a (a_opcode xa) \<and> named_a (a_opcode ya) \<and> ints_a xa \<and> ints_a ya \<longrightarrow>
      (os_text (put_a xa os) = os_text (put_a ya os) \<longleftrightarrow> xa = ya)) \<and>
   (named_b (b_opcode xb) \<and> named_b (b_opcode yb) \<and> ints_b xb \<and> ints_b yb \<longrightarrow>
      (os_text (put_b xb os) = os_text (put_b yb os) \<longleftrightarrow> xb = yb)) \<and>
   (named_c (c_opcode xc) \<and> named_c (c_opcode yc) \<and> ints_c xc \<and> ints_c yc \<longrightarrow>
      (os_text (put_c xc os) = os_text (put_c yc os) \<longleftrightarrow> xc = yc)) \<and>
   (named_d (d_opcode xd) \<and> named_d (d_opcode yd) \<and> ints_d xd \<and> ints_d yd \<longrightarrow>
      (os_text (put_d xd os) = os_text (put_d yd os) \<longleftrightarrow> xd = yd)) \<and>
   (c_int (e_sink xe) \<and> c_int (e_sink ye) \<longrightarrow>
      (os_text (put_e xe os) = os_text (put_e ye os) \<longleftrightarrow> xe = ye)) \<and>
   put_a (xa\<lparr>a_opcode := A_unnamed i\<rparr>) os = put_a (xa\<lparr>a_opcode := A_unnamed j\<rparr>) os"
  using line_a_eq line_b_eq line_c_eq line_d_eq line_e_eq by (simp add: put_a_def)

end
