(* ===== verification/Spec2Isabelle.thy ===== *)
theory Spec2Isabelle
  imports Program_Start TL_Legality TL_Coherence TL_Tests TL_Printing
begin

text \<open>
  \<^bold>\<open>Verification of the Muntjac simulators\<close>

  Muntjac is a RISC-V processor. Its C++ code comes in two programs that drive designs
  translated by Verilator: the simulator of the processor under \<open>flows/verilator/src\<close>, with two
  harnesses, and the traffic generator for TileLink networks under \<open>test/tilelink/src\<close>. This
  development models both.

  \<^bold>\<open>Conventions.\<close> A method of an object is a state-passing program \<open>('s, 'a) prog\<close> of
  \<^theory_text>\<open>Muntjac_Prelude\<close>: it returns a result or a failure and always a state, because a C++
  exception does not undo assignments. Failures are the exceptions of the sources, calls of
  \<open>exit\<close>, failed assertions, undefined behaviour, and \<open>Unbounded\<close> for loops that draw random
  numbers until they succeed. Fixed-width integers are words where the width matters, otherwise
  \<open>int\<close> with the range of C++ tested explicitly. A virtual method is a field of a record of
  operations.

  \<^bold>\<open>Simulator.\<close>
  \<^item> \<open>Simulator_Types\<close>: \<open>types.h\<close> and \<open>exceptions.cc\<close>, with the text of each exception.
  \<^item> \<open>Main_Memory\<close>: \<open>main_memory.cc\<close>. Pages in a map from tags to byte buffers. The lemmas relate
    accesses of all widths and block copies to one flat array of bytes, give the exact ranges of
    faults, and show where a block read overruns its page.
  \<^item> \<open>Virtual_Addressing\<close>, \<open>Page_Table_Walker\<close>: \<open>virtual_addressing.h\<close>, \<open>page_table_entry.h\<close> and
    \<open>page_table_walker.cc\<close>. The walk refines the Sv39 algorithm on flat memory; it marks one entry
    and fails cleanly; its result is truncated to 32 bits.
  \<^item> \<open>Memory_Port\<close>, \<open>Instruction_Cache_Port\<close>, \<open>Data_Cache_Port\<close>, \<open>Core_Ports\<close>: \<open>memory_port.cc\<close>,
    the two cache ports and the two ports of \<open>core_harness.cc\<close>. A locale states what a port
    promises about its queue; the ports interpret it. The data port refines an abstract memory with
    a reservation; a store-conditional succeeds in exactly the stated cases; responses leave on time.
  \<^item> \<open>Argument_Parser\<close>, \<open>Number_Parsing\<close>, \<open>Binary_Parser\<close>: command lines, \<open>std::stoi\<close> and ELF files.
    Round trips, the memory image of a loaded program, and the exact outcome of symbol lookup, with
    the names for which it reads past its buffer.
  \<^item> \<open>Simulation\<close>, \<open>Harness\<close>: \<open>simulation.h\<close>, \<open>pipeline_harness.cc\<close> and \<open>core_harness.cc\<close>. System calls,
    boot code, and the end of every run: by the finish flag, which a system call or a \<open>$finish\<close> of the
    design sets, or by the timeout. With the system calls of the simulator, a request to the data port
    raises an exception in exactly the stated cases, and then nothing has changed. A waveform file is the
    list of calls that it receives; the members of a waveform exist only in a build with it, which
    is a field of the state. The lemmas of the locale \<open>clocked\<close> hold for both harnesses: every
    open file is dumped once per half cycle and closed if the run returns or times out.
  \<^item> \<open>Program_Start\<close>: the composition of argument parser, loader, memory and simulation up to the first
    cycle, with the exact contents of memory at that point, and the schedule of both ports of the
    pipeline in every run from there.

  \<^bold>\<open>TileLink traffic generator.\<close>
  \<^item> \<open>TL_Types\<close>: \<open>tilelink.h\<close>, \<open>tl_random.h\<close> and the arithmetic of \<open>tl_messages.cc\<close>. The values of
    \<open>rand\<close> are a sequence with a position.
  \<^item> \<open>TL_Endpoints\<close>, \<open>TL_Messages\<close>, \<open>TL_Senders\<close>, \<open>TL_Devices\<close>: \<open>tl_channels.h\<close>, \<open>tl_channels.cc\<close>,
    \<open>tl_messages.h\<close> and \<open>tl_messages.cc\<close>: routing, identifiers, messages and their beats, the
    senders and receivers of the five channels, hosts and devices. Each channel end has the
    signals of the design that belong to it.
  \<^item> \<open>TL_Config\<close>, \<open>TL_Harness\<close>: \<open>tl_config.cc\<close>, \<open>tl_harness.h\<close> and \<open>tl_main.cc\<close>. Lists of numbers in a
    configuration and test numbers on the command line are read back as written.
  \<^item> \<open>TL_Reasoning\<close>: triples for programs of channel ends and the locale \<open>tl_sender\<close>, whose invariant
    all five senders keep.
  \<^item> \<open>TL_Transfer\<close>: the locale \<open>quiet_sender\<close> extends it: without random choices a sender implements
    a queue of beats.
  \<^item> \<open>TL_Protocol\<close>: routing, uniqueness of identifiers, and the agreement of both sides on the
    number of beats.
  \<^item> \<open>TL_Transactions\<close>: the locale \<open>counted_channel\<close> for receivers that count beats, and a write from
    its request to its acknowledgement.
  \<^item> \<open>TL_Coherence\<close>: an acquire from its request over the grant to the acknowledgement of the grant, over
    three channels.
  \<^item> \<open>TL_Legality\<close>: random requests are legal TileLink messages. The assertions that the checker
    \<open>test/tilelink/rtl/tl_assert.sv\<close> makes about a beat of a host on channel A are translated too;
    each beat of a random request satisfies them.
  \<^item> \<open>TL_Responses\<close>: pending requests of channel D, when its assertion holds and when it fails, and
    the probes of channel B.
  \<^item> \<open>TL_Bench\<close>: hosts, devices and the network together. The network is any function that changes
    only the signals it drives; the invariants of the senders hold after every cycle.
  \<^item> \<open>TL_Tests\<close>: the directed tests of \<open>tl_tests.cc\<close> and their list; the invariant of the bench after
    the whole main program.
  \<^item> \<open>TL_Printing\<close>: \<open>tl_printing.cc\<close>. The text of messages on a stream with its flags and its pending
    width, and that the text determines the message.

  \<^bold>\<open>Bounds.\<close> The clock loop \<open>run_loop\<close> is a \<open>partial_function\<close> on options without any bound, so that
  not ending is the value \<open>None\<close>; its only ways out are those of the source. The run theorem shows that it
  ends for every timeout up to \<open>2 ^ 52\<close> cycles. The clock is a \<open>double\<close> that counts half cycles: it is
  exact up to \<open>2 ^ 52\<close>, where adding a half no longer changes it, and the model stops there as well,
  so that nothing is claimed of larger timeouts. Times in waveforms are rounded as a \<open>double\<close> is; they are
  exact up to \<open>2 ^ 49\<close> cycles. \<open>rounds\<close> bounds the three loops
  of the traffic generator that draw until they succeed; these need not end, and the theorems state
  how many draws are needed. All other recursion is structural or has a measure.

  \<^bold>\<open>Parameters.\<close> The evaluation of the generated design, the file system, the constants and
  structures of \<open>elf.h\<close>, the contents of fresh memory and of unassigned variables, the options of
  the build, and the values of \<open>rand\<close> after each seed. The widths of the ports of a TileLink network belong to
  the generated design, so that a channel end drives whole messages: its statements are about configurations
  whose ports are wide enough for the fields (four bits for a size in the design of the repository).

  \<^bold>\<open>Scope of the TileLink statements.\<close> The invariant of the bench holds for all command lines that do not
  select one of the tests 15, 16, 24 and 25, which duplicate or drop a beat or answer by hand on
  purpose. Transmission in order is a statement about senders outside of random mode, since in random mode they
  reorder their messages. The two complete transactions are those of channel ends of equal width outside of
  random mode, with every beat handed over by the network. The random requests of a TL-UL host are legal if
  its largest size fits its bus; the generator does not ensure this.

  \<^bold>\<open>Not modelled.\<close> The log messages of memory, ports, exceptions and channel ends, apart from
  their text in the last case: they are written by objects that do not hold the stream. The log
  messages of the clock loop are. The contents of waveform and coverage files, which libraries
  write; memory exhaustion. The hardware description, vendored code and the programs that run on
  the processor are not part of the two C++ programs.
\<close>

end
